theory Spec2Isabelle
  imports Complex_Main "HOL-Library.AList"
begin

section \<open>JavaScript values\<close>

subsection \<open>Numbers\<close>

text \<open>
  A JavaScript number is a real number or one of the three special values.  Arithmetic
  follows IEEE 754 on the special values; on finite values it is exact real arithmetic
  (rounding of doubles is not modelled).  Zero carries no sign: the only divisors that can
  be zero in the code below are an array length and half the difference of two clock
  times, which are never \<open>-0\<close>.
\<close>

datatype jsnum = Num real | PosInf | NegInf | NaN

fun js_neg :: "jsnum \<Rightarrow> jsnum" where
  "js_neg (Num x) = Num (- x)"
| "js_neg PosInf = NegInf"
| "js_neg NegInf = PosInf"
| "js_neg NaN = NaN"

fun js_add :: "jsnum \<Rightarrow> jsnum \<Rightarrow> jsnum" where
  "js_add NaN _ = NaN"
| "js_add _ NaN = NaN"
| "js_add (Num x) (Num y) = Num (x + y)"
| "js_add PosInf NegInf = NaN"
| "js_add NegInf PosInf = NaN"
| "js_add PosInf _ = PosInf"
| "js_add NegInf _ = NegInf"
| "js_add _ PosInf = PosInf"
| "js_add _ NegInf = NegInf"

definition js_sub :: "jsnum \<Rightarrow> jsnum \<Rightarrow> jsnum" where
  "js_sub a b = js_add a (js_neg b)"

text \<open>The sign of a number that is not \<open>NaN\<close>: \<open>-1\<close>, \<open>0\<close> or \<open>1\<close>.\<close>

fun js_sign :: "jsnum \<Rightarrow> int" where
  "js_sign (Num x) = (if x < 0 then -1 else if x = 0 then 0 else 1)"
| "js_sign PosInf = 1"
| "js_sign NegInf = -1"
| "js_sign NaN = 0"

definition js_inf :: "int \<Rightarrow> jsnum" where
  "js_inf sg = (if sg < 0 then NegInf else PosInf)"

fun js_mul :: "jsnum \<Rightarrow> jsnum \<Rightarrow> jsnum" where
  "js_mul NaN _ = NaN"
| "js_mul _ NaN = NaN"
| "js_mul (Num x) (Num y) = Num (x * y)"
| "js_mul a b = (if js_sign a * js_sign b = 0 then NaN else js_inf (js_sign a * js_sign b))"

fun js_div :: "jsnum \<Rightarrow> jsnum \<Rightarrow> jsnum" where
  "js_div NaN _ = NaN"
| "js_div _ NaN = NaN"
| "js_div (Num x) (Num y) =
     (if y = 0 then (if x = 0 then NaN else js_inf (js_sign (Num x))) else Num (x / y))"
| "js_div (Num x) _ = Num 0"
| "js_div a (Num y) = js_inf (js_sign a * (if y < 0 then -1 else 1))"
| "js_div _ _ = NaN"

fun js_abs :: "jsnum \<Rightarrow> jsnum" where
  "js_abs (Num x) = Num \<bar>x\<bar>"
| "js_abs NaN = NaN"
| "js_abs _ = PosInf"

text \<open>The relational operator \<open><\<close>: false whenever an operand is \<open>NaN\<close>.\<close>

fun js_lt :: "jsnum \<Rightarrow> jsnum \<Rightarrow> bool" where
  "js_lt NaN _ = False"
| "js_lt _ NaN = False"
| "js_lt (Num x) (Num y) = (x < y)"
| "js_lt NegInf NegInf = False"
| "js_lt NegInf _ = True"
| "js_lt _ NegInf = False"
| "js_lt PosInf _ = False"
| "js_lt _ PosInf = True"

text \<open>The relational operator \<open><=\<close>, also false whenever an operand is \<open>NaN\<close>.\<close>

definition js_le :: "jsnum \<Rightarrow> jsnum \<Rightarrow> bool" where
  "js_le a b \<longleftrightarrow> a \<noteq> NaN \<and> b \<noteq> NaN \<and> \<not> js_lt b a"

text \<open>\<open>Math.max\<close> and \<open>Math.min\<close> of two arguments: \<open>NaN\<close> if either is.\<close>

fun Math_max :: "jsnum \<Rightarrow> jsnum \<Rightarrow> jsnum" where
  "Math_max NaN _ = NaN"
| "Math_max _ NaN = NaN"
| "Math_max a b = (if js_lt a b then b else a)"

fun Math_min :: "jsnum \<Rightarrow> jsnum \<Rightarrow> jsnum" where
  "Math_min NaN _ = NaN"
| "Math_min _ NaN = NaN"
| "Math_min a b = (if js_lt b a then b else a)"

definition js_of_nat :: "nat \<Rightarrow> jsnum" where
  "js_of_nat n = Num (real n)"

definition js_of_int :: "int \<Rightarrow> jsnum" where
  "js_of_int n = Num (real_of_int n)"

subsection \<open>Dates\<close>

text \<open>
  A JavaScript \<open>Date\<close> object holds a time value: a whole number of milliseconds since
  the epoch, at most 8.64e15 in absolute value, or \<open>NaN\<close>, in which case the object is an
  \<open>Invalid Date\<close>.  A time value that is a number is an \<open>int\<close>, called \<open>Date\<close> here; a
  \<open>Date\<close> object that may be invalid is a \<open>Date option\<close>, with \<open>None\<close> for
  \<open>Invalid Date\<close>.

  The dates of events, busy periods and conflicts are \<open>Date option\<close>: the parser of this
  repository builds events with an \<open>Invalid Date\<close> (see \<open>parseDateTime\<close>), and the
  cleaning step of the calendar processor keeps them.  The search range and the slots of
  the scheduler are dates that hold a number.
\<close>

type_synonym Date = int

text \<open>
  \<open>d.getTime()\<close>, and the relational operators on two \<open>Date\<close> objects, which compare
  the time values as numbers: a comparison with an \<open>Invalid Date\<close> is false.  \<open>a > b\<close>
  is \<open>dateLt b a\<close> and \<open>a >= b\<close> is \<open>dateLe b a\<close>.
\<close>

definition getTime :: "Date option \<Rightarrow> jsnum" where
  "getTime d = (case d of Some t \<Rightarrow> Num (real_of_int t) | None \<Rightarrow> NaN)"

definition dateLt :: "Date option \<Rightarrow> Date option \<Rightarrow> bool" where
  "dateLt a b = js_lt (getTime a) (getTime b)"

definition dateLe :: "Date option \<Rightarrow> Date option \<Rightarrow> bool" where
  "dateLe a b = js_le (getTime a) (getTime b)"

text \<open>
  \<open>new Date(x)\<close> for a number \<open>x\<close>: \<open>Invalid Date\<close> when \<open>x\<close> is not finite or is more
  than 8.64e15 in absolute value, else the date whose time value is \<open>x\<close> without its
  fraction.
\<close>

definition MAX_TIME :: int where "MAX_TIME = 8640000000000000"

definition newDateFromTime :: "jsnum \<Rightarrow> Date option" where
  "newDateFromTime x =
     (case x of
        Num v \<Rightarrow>
          (if \<bar>v\<bar> \<le> real_of_int MAX_TIME
           then Some (if 0 \<le> v then \<lfloor>v\<rfloor> else \<lceil>v\<rceil>)
           else None)
      | _ \<Rightarrow> None)"

subsection \<open>White space\<close>

text \<open>
  A string is the list of its code units, and the model covers the strings whose code
  units are below 256.  White space as \<open>trim\<close>, the class \<open>\\s\<close> and \<open>parseInt\<close> see it
  is then: tab, line feed, vertical tab, form feed, carriage return, space and the
  no-break space.
\<close>

definition isSpace :: "char \<Rightarrow> bool" where
  "isSpace c \<longleftrightarrow> c \<in> {CHR 0x09, CHR 0x0A, CHR 0x0B, CHR 0x0C, CHR 0x0D, CHR 0x20, CHR 0xA0}"

definition trim :: "string \<Rightarrow> string" where
  "trim s = rev (dropWhile isSpace (rev (dropWhile isSpace s)))"

subsection \<open>Sorting with a comparator\<close>

text \<open>
  \<open>Array.prototype.sort(cmp)\<close> is stable.  It is modelled as the stable insertion sort:
  an element moves behind a later one exactly when \<open>cmp\<close> of the two is greater than zero
  (a comparator result \<open>NaN\<close> counts as zero).  For a comparator that orders the elements
  consistently, every stable sort returns this list.  For a comparator that does not (one
  that returns \<open>NaN\<close> for some pairs), the language leaves the order to the engine: the
  result is a permutation of the array, and this model returns one such permutation; where
  all comparisons with one element give \<open>NaN\<close> and the others are in order already, it
  leaves the array as it is.
\<close>

fun insertSorted :: "('a \<Rightarrow> 'a \<Rightarrow> jsnum) \<Rightarrow> 'a \<Rightarrow> 'a list \<Rightarrow> 'a list" where
  "insertSorted cmp x [] = [x]"
| "insertSorted cmp x (y # ys) =
     (if js_lt (Num 0) (cmp x y) then y # insertSorted cmp x ys else x # y # ys)"

definition sortWith :: "('a \<Rightarrow> 'a \<Rightarrow> jsnum) \<Rightarrow> 'a list \<Rightarrow> 'a list" where
  "sortWith cmp xs = foldr (insertSorted cmp) xs []"

section \<open>Data model\<close>

datatype EventStatus = confirmed | tentative | cancelled

datatype SourceKind = ical | google | outlook | apple

text \<open>
  A value read out of an object literal used as a lookup table (\<open>freqMap[freq]\<close>,
  \<open>dayMap[day]\<close>): the number stored under the key, or, for a key such as
  \<open>"constructor"\<close> or \<open>"toString"\<close>, the property inherited from \<open>Object.prototype\<close>,
  which is not a number.
\<close>

datatype looked_up = LNum nat | LInherited string

text \<open>
  The options object handed to the constructor of the \<open>rrule\<close> package by
  \<open>ICalParser.parseRecurrenceRule\<close>.  A field the parser did not assign is \<open>None\<close>.
  A number that \<open>parseInt\<close> produced is \<open>None\<close> when it is \<open>NaN\<close>; a date is \<open>None\<close>
  when it is \<open>Invalid Date\<close>.
\<close>

record RRuleOptions =
  dtstart :: "Date option"
  freq :: "looked_up option"
  interval :: "int option option"
  count :: "int option option"
  until :: "Date option option"
  byweekday :: "looked_up list option"
  bymonthday :: "int option list option"
  bymonth :: "int option list option"

text \<open>
  The value of the field \<open>recurrence\<close> of an event.
  \<^item> \<open>RRuleObject\<close>: an object of the class \<open>RRule\<close> of the \<open>rrule\<close> package (an external
    library).  The package enumerates the occurrences of a rule in ascending order and
    gives up after the year 9999, so every rule stands for a finite ascending list of
    instants; the object is modelled by the options it was built from and that list.
  \<^item> \<open>PlainObject\<close>: an object without the methods of the class, which is what an event
    carries after it has been stored in and read back from the session cache as JSON.
\<close>

datatype RRule = RRuleObject (origOptions: RRuleOptions) (occurrences: "Date list")
  | PlainObject RRuleOptions

record CalendarEvent =
  e_id :: string
  e_summary :: string
  e_start :: "Date option"
  e_end :: "Date option"
  e_timezone :: string
  e_recurrence :: "RRule option"
  e_status :: EventStatus

record ParticipantCalendar =
  p_participantId :: string
  p_name :: string
  p_timezone :: string
  p_events :: "CalendarEvent list"
  p_source :: SourceKind

record DateRange =
  range_start :: Date
  range_end :: Date

record BusyPeriod =
  bp_participantId :: string
  bp_start :: "Date option"
  bp_end :: "Date option"
  bp_eventIds :: "string list"

record EventConflict =
  ec_participantId :: string
  ec_event1 :: CalendarEvent
  ec_event2 :: CalendarEvent
  ec_overlapStart :: "Date option"
  ec_overlapEnd :: "Date option"
  ec_overlapDuration :: jsnum

section \<open>Calendar processor (calendar-processor.ts)\<close>

subsection \<open>validateAndCleanEvents\<close>

text \<open>
  The loop of \<open>validateAndCleanEvents\<close>, by its result \<open>cleanedEvents\<close> (the two lists of
  messages are left out).  An event is dropped when it is cancelled, when its \<open>id\<close> is the
  empty string, or when \<open>event.start >= event.end\<close>; \<open>start\<close> and \<open>end\<close> are objects, so
  \<open>!event.start\<close> and \<open>!event.end\<close> are false also for an \<open>Invalid Date\<close>, and the comparison
  is false when either date is invalid: an event with an \<open>Invalid Date\<close> is kept.
\<close>

definition cleanedEvent :: "CalendarEvent \<Rightarrow> CalendarEvent" where
  "cleanedEvent event =
     event\<lparr>e_summary := (if trim (e_summary event) \<noteq> [] then trim (e_summary event)
                          else ''Untitled Event''),
           e_timezone := (if e_timezone event \<noteq> [] then e_timezone event else ''UTC'')\<rparr>"

fun validateAndCleanEvents :: "CalendarEvent list \<Rightarrow> CalendarEvent list" where
  "validateAndCleanEvents [] = []"
| "validateAndCleanEvents (event # rest) =
     (if e_status event = cancelled then validateAndCleanEvents rest
      else if e_id event = [] then validateAndCleanEvents rest
      else if dateLe (e_end event) (e_start event) then validateAndCleanEvents rest
      else cleanedEvent event # validateAndCleanEvents rest)"

subsection \<open>Sorting by start\<close>

text \<open>The comparator \<open>(a, b) => a.start.getTime() - b.start.getTime()\<close>.\<close>

definition byStart :: "CalendarEvent \<Rightarrow> CalendarEvent \<Rightarrow> jsnum" where
  "byStart a b = js_sub (getTime (e_start a)) (getTime (e_start b))"

definition sortByStart :: "CalendarEvent list \<Rightarrow> CalendarEvent list" where
  "sortByStart evs = sortWith byStart evs"

subsection \<open>generateBusyPeriods\<close>

text \<open>
  The \<open>for\<close> loop of \<open>generateBusyPeriods\<close> from \<open>i = 1\<close>: \<open>acc\<close> is the array
  \<open>busyPeriods\<close>, \<open>cur\<close> is \<open>currentPeriod\<close>, the list holds the events not yet visited.
  At the end of the loop the last period is pushed.
\<close>

fun busyLoop :: "string \<Rightarrow> BusyPeriod list \<Rightarrow> BusyPeriod \<Rightarrow> CalendarEvent list \<Rightarrow> BusyPeriod list" where
  "busyLoop pid acc cur [] = acc @ [cur]"
| "busyLoop pid acc cur (e # es) =
     (if dateLe (e_start e) (bp_end cur)
      then busyLoop pid acc
             (cur\<lparr>bp_end := newDateFromTime (Math_max (getTime (bp_end cur)) (getTime (e_end e))),
                  bp_eventIds := bp_eventIds cur @ [e_id e]\<rparr>) es
      else busyLoop pid (acc @ [cur])
             \<lparr>bp_participantId = pid, bp_start = e_start e, bp_end = e_end e,
              bp_eventIds = [e_id e]\<rparr> es)"

definition generateBusyPeriods :: "ParticipantCalendar \<Rightarrow> BusyPeriod list" where
  "generateBusyPeriods calendar =
     (case sortByStart (filter (\<lambda>event. e_status event \<noteq> cancelled) (p_events calendar)) of
        [] \<Rightarrow> []
      | e0 # es \<Rightarrow>
          busyLoop (p_participantId calendar) []
            \<lparr>bp_participantId = p_participantId calendar, bp_start = e_start e0,
             bp_end = e_end e0, bp_eventIds = [e_id e0]\<rparr> es)"

subsection \<open>detectParticipantConflicts\<close>

text \<open>
  The conflict pushed for a pair; \<open>overlapStart\<close> and \<open>overlapEnd\<close> are computed before
  the test \<open>overlapStart < overlapEnd\<close>.
\<close>

definition overlapStartOf :: "CalendarEvent \<Rightarrow> CalendarEvent \<Rightarrow> Date option" where
  "overlapStartOf event1 event2 =
     newDateFromTime (Math_max (getTime (e_start event1)) (getTime (e_start event2)))"

definition overlapEndOf :: "CalendarEvent \<Rightarrow> CalendarEvent \<Rightarrow> Date option" where
  "overlapEndOf event1 event2 =
     newDateFromTime (Math_min (getTime (e_end event1)) (getTime (e_end event2)))"

definition mkConflict :: "string \<Rightarrow> CalendarEvent \<Rightarrow> CalendarEvent \<Rightarrow> EventConflict" where
  "mkConflict pid event1 event2 =
     (let overlapStart = overlapStartOf event1 event2;
          overlapEnd = overlapEndOf event1 event2
      in \<lparr>ec_participantId = pid, ec_event1 = event1, ec_event2 = event2,
          ec_overlapStart = overlapStart, ec_overlapEnd = overlapEnd,
          ec_overlapDuration =
            js_div (js_sub (getTime overlapEnd) (getTime overlapStart)) (Num (1000 * 60))\<rparr>)"

text \<open>
  The inner \<open>for\<close> loop over \<open>j\<close> for a fixed \<open>event1 = events[i]\<close>; the list holds
  \<open>events[j], events[j+1], ...\<close>.  The first branch is the \<open>break\<close>.
\<close>

fun conflictInner :: "string \<Rightarrow> CalendarEvent \<Rightarrow> EventConflict list \<Rightarrow> CalendarEvent list \<Rightarrow> EventConflict list" where
  "conflictInner pid event1 conflicts [] = conflicts"
| "conflictInner pid event1 conflicts (event2 # rest) =
     (if dateLe (e_end event1) (e_start event2) then conflicts
      else if dateLt (overlapStartOf event1 event2) (overlapEndOf event1 event2)
           then conflictInner pid event1 (conflicts @ [mkConflict pid event1 event2]) rest
           else conflictInner pid event1 conflicts rest)"

text \<open>The outer loop over \<open>i\<close>; the list holds \<open>events[i], events[i+1], ...\<close>.\<close>

fun conflictOuter :: "string \<Rightarrow> EventConflict list \<Rightarrow> CalendarEvent list \<Rightarrow> EventConflict list" where
  "conflictOuter pid conflicts [] = conflicts"
| "conflictOuter pid conflicts (event1 # rest) =
     conflictOuter pid (conflictInner pid event1 conflicts rest) rest"

text \<open>
  \<open>calendar.events.sort(...)\<close> sorts the array of the calendar object in place; the
  object is the copy that \<open>expandRecurringEvents\<close> made, and the only later reader,
  \<open>generateBusyPeriods\<close>, sorts again, so the function is modelled by its result.
\<close>

definition detectParticipantConflicts :: "ParticipantCalendar \<Rightarrow> EventConflict list" where
  "detectParticipantConflicts calendar =
     conflictOuter (p_participantId calendar) [] (sortByStart (p_events calendar))"

section \<open>Meeting scheduler (meeting-scheduler.ts)\<close>

record MeetingPreferences =
  duration :: int
  timeRangeStart :: string
  timeRangeEnd :: string
  excludeWeekends :: bool
  excludedDates :: "Date list"
  bufferTime :: int
  preferredTimezones :: "string list"

text \<open>A \<open>Record<string, string>\<close> is kept as an association list with distinct keys.\<close>

record TimeSlot =
  slot_start :: Date
  slot_end :: Date
  score :: jsnum
  conflicts :: "string list"
  timezoneDisplay :: "(string \<times> string) list"

text \<open>
  The counters of \<open>participantConflicts\<close> are numbers that \<open>++\<close> increments; incrementing
  a missing entry gives \<open>NaN\<close>, written \<open>None\<close>.  A key of \<open>conflictsByTimeSlot\<close> is the
  pair of ISO strings of a slot's start and end, which determine and are determined by the
  two instants; the key is kept as the pair of instants.
\<close>

record ConflictSummary =
  totalConflicts :: nat
  participantConflicts :: "(string \<times> nat option) list"
  conflictsByTimeSlot :: "((Date \<times> Date) \<times> string list) list"

record SchedulingResult =
  availableSlots :: "TimeSlot list"
  conflictAnalysis :: ConflictSummary
  recommendations :: "TimeSlot list"

datatype SchedulingError = SchedulingError (se_message: string) (se_code: string)

text \<open>
  What a collaborator can throw: a \<open>SchedulingError\<close>, another \<open>Error\<close> with its message,
  or a value that is not an \<open>Error\<close>.
\<close>

datatype thrown = ThrownScheduling SchedulingError | ThrownError string | ThrownValue

text \<open>
  What the scheduler calls and this repository does not define.
  \<^item> \<open>getBusyPeriods\<close>: the scheduler calls \<open>this.calendarProcessor.getBusyPeriods(events,
    searchRange)\<close>, a method that \<open>calendar-processor.ts\<close> does not declare; the
    scheduler's test installs a mock for it.  It is a parameter here, and may throw: the
    scheduler as shipped is the instance \<open>missingGetBusyPeriods\<close> below, the scheduler
    under test is any other.
  \<^item> \<open>formatInTimeZone\<close> of \<open>date-fns-tz\<close> (\<open>None\<close> when it throws, as for an unknown zone)
    and \<open>format\<close> of \<open>date-fns\<close>.
\<close>

record Collaborators =
  getBusyPeriods :: "CalendarEvent list \<Rightarrow> DateRange \<Rightarrow> thrown + BusyPeriod list"
  formatInTimeZone :: "Date \<Rightarrow> string \<Rightarrow> string \<Rightarrow> string option"
  format :: "Date \<Rightarrow> string \<Rightarrow> string"

text \<open>
  The scheduler as the repository ships it: the constructor stores
  \<open>new CalendarProcessor()\<close>, the class has static methods only and none is named
  \<open>getBusyPeriods\<close>, so \<open>this.calendarProcessor.getBusyPeriods\<close> is \<open>undefined\<close> and the
  call throws a \<open>TypeError\<close>.
\<close>

definition missingGetBusyPeriods :: "CalendarEvent list \<Rightarrow> DateRange \<Rightarrow> thrown + BusyPeriod list" where
  "missingGetBusyPeriods events searchRange =
     Inl (ThrownError ''this.calendarProcessor.getBusyPeriods is not a function'')"

definition asShipped :: "Collaborators \<Rightarrow> Collaborators" where
  "asShipped c = c\<lparr>getBusyPeriods := missingGetBusyPeriods\<rparr>"

subsection \<open>Dates\<close>

text \<open>
  The functions of \<open>date-fns\<close> and of \<open>Date\<close> that read the local clock are modelled for a
  host whose time zone is UTC: a day is 86400000 milliseconds and starts at a multiple of
  that, and day 0 (1 January 1970) is a Thursday.
\<close>

definition MS_PER_MINUTE :: int where "MS_PER_MINUTE = 60000"
definition MS_PER_HOUR :: int where "MS_PER_HOUR = 3600000"
definition MS_PER_DAY :: int where "MS_PER_DAY = 86400000"

definition addMinutes :: "Date \<Rightarrow> int \<Rightarrow> Date" where
  "addMinutes d amount = d + amount * MS_PER_MINUTE"

definition addDays :: "Date \<Rightarrow> int \<Rightarrow> Date" where
  "addDays d amount = d + amount * MS_PER_DAY"

definition startOfDay :: "Date \<Rightarrow> Date" where
  "startOfDay d = d - d mod MS_PER_DAY"

definition endOfDay :: "Date \<Rightarrow> Date" where
  "endOfDay d = startOfDay d + MS_PER_DAY - 1"

definition getDay :: "Date \<Rightarrow> int" where
  "getDay d = (4 + d div MS_PER_DAY) mod 7"

definition isWeekend :: "Date \<Rightarrow> bool" where
  "isWeekend d \<longleftrightarrow> getDay d = 0 \<or> getDay d = 6"

definition getHours :: "Date \<Rightarrow> int" where
  "getHours d = (d mod MS_PER_DAY) div MS_PER_HOUR"

definition getMinutes :: "Date \<Rightarrow> int" where
  "getMinutes d = (d mod MS_PER_HOUR) div MS_PER_MINUTE"

text \<open>
  \<open>d.setHours(h, m, 0, 0)\<close>: the date becomes \<open>Invalid Date\<close> (\<open>None\<close>) when an argument
  is \<open>NaN\<close>.
\<close>

definition setHours :: "Date \<Rightarrow> nat option \<Rightarrow> nat option \<Rightarrow> Date option" where
  "setHours d h m =
     (case (h, m) of
        (Some hh, Some mm) \<Rightarrow> Some (startOfDay d + int hh * MS_PER_HOUR + int mm * MS_PER_MINUTE)
      | _ \<Rightarrow> None)"

subsection \<open>Strings\<close>

definition isDigit :: "char \<Rightarrow> bool" where
  "isDigit c \<longleftrightarrow> c \<in> set ''0123456789''"

definition digitVal :: "char \<Rightarrow> nat" where
  "digitVal c = of_char c - of_char CHR ''0''"

text \<open>The value of a string of decimal digits, most significant first.\<close>

definition decimal :: "string \<Rightarrow> nat" where
  "decimal s = foldl (\<lambda>acc c. 10 * acc + digitVal c) 0 s"

text \<open>\<open>s.split(sep)\<close> for a separator of one character.\<close>

fun splitChar :: "char \<Rightarrow> string \<Rightarrow> string list" where
  "splitChar sep [] = [[]]"
| "splitChar sep (c # cs) =
     (if c = sep then [] # splitChar sep cs
      else (case splitChar sep cs of
              [] \<Rightarrow> [[c]]
            | p # ps \<Rightarrow> (c # p) # ps))"

text \<open>
  \<open>Number\<close>, as \<open>.map(Number)\<close> applies it to the pieces of a clock time: the piece is a
  string of digits once \<open>validateInputs\<close> has accepted the time (the only callers run after
  it), and its value is the decimal number; the empty string gives 0.  Any other string is
  taken to \<open>NaN\<close> (\<open>None\<close>).
\<close>

definition toNumber :: "string \<Rightarrow> nat option" where
  "toNumber s = (if list_all isDigit s then Some (decimal s) else None)"

text \<open>
  \<open>const [h, m] = t.split(":").map(Number)\<close>: a missing second piece is \<open>undefined\<close>,
  which behaves as \<open>NaN\<close> in all later arithmetic.
\<close>

definition parseClock :: "string \<Rightarrow> nat option \<times> nat option" where
  "parseClock t =
     (case map toNumber (splitChar CHR '':'' t) of
        h # m # _ \<Rightarrow> (h, m)
      | [h] \<Rightarrow> (h, None)
      | [] \<Rightarrow> (None, None))"

text \<open>The regular expression \<open>/^([0-1]?[0-9]|2[0-3]):[0-5][0-9]$/\<close>.\<close>

definition timeRegex_test :: "string \<Rightarrow> bool" where
  "timeRegex_test s =
     (case s of
        [h0, c, m1, m0] \<Rightarrow>
          isDigit h0 \<and> c = CHR '':'' \<and> m1 \<in> set ''012345'' \<and> isDigit m0
      | [h1, h0, c, m1, m0] \<Rightarrow>
          ((h1 \<in> set ''01'' \<and> isDigit h0) \<or> (h1 = CHR ''2'' \<and> h0 \<in> set ''0123''))
          \<and> c = CHR '':'' \<and> m1 \<in> set ''012345'' \<and> isDigit m0
      | _ \<Rightarrow> False)"

subsection \<open>validateInputs\<close>

text \<open>The result is the error thrown, or \<open>None\<close> when the function returns.\<close>

definition validateInputs ::
  "ParticipantCalendar list \<Rightarrow> MeetingPreferences \<Rightarrow> DateRange \<Rightarrow> SchedulingError option" where
  "validateInputs participants preferences searchRange =
     (if length participants = 0 then
        Some (SchedulingError ''At least one participant is required'' ''NO_PARTICIPANTS'')
      else if duration preferences \<le> 0 then
        Some (SchedulingError ''Meeting duration must be positive'' ''INVALID_DURATION'')
      else if range_start searchRange \<ge> range_end searchRange then
        Some (SchedulingError ''Search range start must be before end'' ''INVALID_RANGE'')
      else if \<not> timeRegex_test (timeRangeStart preferences)
              \<or> \<not> timeRegex_test (timeRangeEnd preferences) then
        Some (SchedulingError ''Invalid time range format'' ''INVALID_TIME_FORMAT'')
      else None)"

subsection \<open>getAllBusyPeriods\<close>

text \<open>
  A \<open>Map<string, BusyPeriod[]>\<close> iterates in insertion order and \<open>set\<close> on a key that is
  present keeps its position: an association list with \<open>AList.update\<close>.
\<close>

type_synonym BusyMap = "(string \<times> BusyPeriod list) list"

fun getAllBusyPeriodsLoop ::
  "Collaborators \<Rightarrow> DateRange \<Rightarrow> BusyMap \<Rightarrow> ParticipantCalendar list \<Rightarrow> thrown + BusyMap" where
  "getAllBusyPeriodsLoop c searchRange busyPeriods [] = Inr busyPeriods"
| "getAllBusyPeriodsLoop c searchRange busyPeriods (participant # rest) =
     (case getBusyPeriods c (p_events participant) searchRange of
        Inl err \<Rightarrow> Inl err
      | Inr periods \<Rightarrow>
          getAllBusyPeriodsLoop c searchRange
            (AList.update (p_participantId participant) periods busyPeriods) rest)"

definition getAllBusyPeriods ::
  "Collaborators \<Rightarrow> ParticipantCalendar list \<Rightarrow> DateRange \<Rightarrow> thrown + BusyMap" where
  "getAllBusyPeriods c participants searchRange =
     getAllBusyPeriodsLoop c searchRange [] participants"

subsection \<open>Candidate slots\<close>

text \<open>
  The object literals \<open>{ start, end }\<close> that \<open>periodsOverlap\<close> compares: the slot, whose
  dates hold a number, and a busy period, whose dates are whatever the calendar processor
  delivered.
\<close>

type_synonym Period = "Date option \<times> Date option"

definition periodsOverlap :: "Period \<Rightarrow> Period \<Rightarrow> bool" where
  "periodsOverlap period1 period2 \<longleftrightarrow>
     dateLt (fst period1) (snd period2) \<and> dateLt (fst period2) (snd period1)"

definition findSlotConflicts :: "Period \<Rightarrow> BusyMap \<Rightarrow> string list" where
  "findSlotConflicts slot busyPeriods =
     map fst
       (filter (\<lambda>(participantId, periods).
                  list_ex (\<lambda>period. periodsOverlap slot (bp_start period, bp_end period)) periods)
          busyPeriods)"

definition newSlot :: "BusyMap \<Rightarrow> MeetingPreferences \<Rightarrow> Date \<Rightarrow> TimeSlot" where
  "newSlot busyPeriods preferences currentSlotStart =
     (let slotEnd = addMinutes currentSlotStart (duration preferences)
      in \<lparr>slot_start = currentSlotStart, slot_end = slotEnd, score = Num 0,
          conflicts = findSlotConflicts (Some currentSlotStart, Some slotEnd) busyPeriods,
          timezoneDisplay = []\<rparr>)"

text \<open>The \<open>while\<close> loop of \<open>generateDaySlots\<close>.\<close>

function daySlotLoop ::
  "MeetingPreferences \<Rightarrow> int \<Rightarrow> BusyMap \<Rightarrow> Date \<Rightarrow> TimeSlot list \<Rightarrow> Date \<Rightarrow> TimeSlot list" where
  "daySlotLoop preferences slotDuration busyPeriods dayEnd slots currentSlotStart =
     (if addMinutes currentSlotStart slotDuration \<le> dayEnd
      then daySlotLoop preferences slotDuration busyPeriods dayEnd
             (slots @ [newSlot busyPeriods preferences currentSlotStart])
             (addMinutes currentSlotStart 15)
      else slots)"
  by pat_completeness auto
termination
  by (relation "measure (\<lambda>(p, sd, b, dayEnd, s, cur). nat (dayEnd - addMinutes cur sd + 1))")
     (auto simp: addMinutes_def MS_PER_MINUTE_def)

text \<open>
  When a clock time did not parse, \<open>dayStart\<close> or \<open>dayEnd\<close> is \<open>Invalid Date\<close>, the loop
  condition compares with \<open>NaN\<close> and is false, and no slot is generated.
\<close>

definition generateDaySlots ::
  "Date \<Rightarrow> MeetingPreferences \<Rightarrow> int \<Rightarrow> BusyMap \<Rightarrow> TimeSlot list" where
  "generateDaySlots date preferences slotDuration busyPeriods =
     (let (startHour, startMinute) = parseClock (timeRangeStart preferences);
          (endHour, endMinute) = parseClock (timeRangeEnd preferences)
      in case (setHours date startHour startMinute, setHours date endHour endMinute) of
           (Some dayStart, Some dayEnd) \<Rightarrow>
             daySlotLoop preferences slotDuration busyPeriods dayEnd [] dayStart
         | _ \<Rightarrow> [])"

text \<open>The \<open>while\<close> loop of \<open>findCandidateTimeSlots\<close> over the days.\<close>

function dayLoop ::
  "MeetingPreferences \<Rightarrow> int \<Rightarrow> BusyMap \<Rightarrow> Date \<Rightarrow> TimeSlot list \<Rightarrow> Date \<Rightarrow> TimeSlot list" where
  "dayLoop preferences slotDuration busyPeriods endDate slots currentDate =
     (if currentDate \<le> endDate then
        (if excludeWeekends preferences \<and> isWeekend currentDate then
           dayLoop preferences slotDuration busyPeriods endDate slots
             (addMinutes currentDate (24 * 60))
         else if list_ex (\<lambda>date. startOfDay date = startOfDay currentDate)
                   (excludedDates preferences) then
           dayLoop preferences slotDuration busyPeriods endDate slots
             (addMinutes currentDate (24 * 60))
         else
           dayLoop preferences slotDuration busyPeriods endDate
             (slots @ generateDaySlots currentDate preferences slotDuration busyPeriods)
             (addMinutes currentDate (24 * 60)))
      else slots)"
  by pat_completeness auto
termination
  by (relation "measure (\<lambda>(p, sd, b, endDate, s, cur). nat (endDate - cur + 1))")
     (auto simp: addMinutes_def MS_PER_MINUTE_def)

definition findCandidateTimeSlots ::
  "DateRange \<Rightarrow> MeetingPreferences \<Rightarrow> BusyMap \<Rightarrow> TimeSlot list" where
  "findCandidateTimeSlots searchRange preferences busyPeriods =
     dayLoop preferences (duration preferences + bufferTime preferences) busyPeriods
       (endOfDay (range_end searchRange)) [] (startOfDay (range_start searchRange))"

declare daySlotLoop.simps [simp del]
declare dayLoop.simps [simp del]

subsection \<open>Scoring\<close>

definition js_of_opt :: "nat option \<Rightarrow> jsnum" where
  "js_of_opt v = (case v of Some n \<Rightarrow> js_of_nat n | None \<Rightarrow> NaN)"

definition calculateTimePreferenceBonus :: "TimeSlot \<Rightarrow> MeetingPreferences \<Rightarrow> jsnum" where
  "calculateTimePreferenceBonus slot preferences =
     (let hour = getHours (slot_start slot);
          minute = getMinutes (slot_start slot);
          timeInMinutes = js_of_int (hour * 60 + minute);
          (startHour, startMinute) = parseClock (timeRangeStart preferences);
          (endHour, endMinute) = parseClock (timeRangeEnd preferences);
          businessStart = js_add (js_mul (js_of_opt startHour) (Num 60)) (js_of_opt startMinute);
          businessEnd = js_add (js_mul (js_of_opt endHour) (Num 60)) (js_of_opt endMinute);
          businessMiddle = js_div (js_add businessStart businessEnd) (Num 2);
          distanceFromMiddle = js_abs (js_sub timeInMinutes businessMiddle);
          maxDistance = js_div (js_sub businessEnd businessStart) (Num 2)
      in Math_max (Num 0)
           (js_mul (Num 10) (js_sub (Num 1) (js_div distanceFromMiddle maxDistance))))"

definition calculateTimezoneBonus ::
  "TimeSlot \<Rightarrow> MeetingPreferences \<Rightarrow> ParticipantCalendar list \<Rightarrow> jsnum" where
  "calculateTimezoneBonus slot preferences participants =
     (if length (preferredTimezones preferences) = 0 then Num 0
      else
        (let participantsInPreferredTz =
               length (filter (\<lambda>p. p_timezone p \<in> set (preferredTimezones preferences))
                         participants)
         in js_mul (js_div (js_of_nat participantsInPreferredTz)
                           (js_of_nat (length participants)))
                   (Num 5)))"

text \<open>\<open>[...new Set(xs)]\<close>: the distinct elements in the order of their first occurrence.\<close>

definition uniqueInOrder :: "'a list \<Rightarrow> 'a list" where
  "uniqueInOrder xs = foldl (\<lambda>seen x. if x \<in> set seen then seen else seen @ [x]) [] xs"

definition generateTimezoneDisplay ::
  "Collaborators \<Rightarrow> TimeSlot \<Rightarrow> ParticipantCalendar list \<Rightarrow> (string \<times> string) list" where
  "generateTimezoneDisplay c slot participants =
     map (\<lambda>tz.
            (tz,
             (case (formatInTimeZone c (slot_start slot) tz ''MMM d, h:mm a'',
                    formatInTimeZone c (slot_end slot) tz ''h:mm a'') of
                (Some startTime, Some endTime) \<Rightarrow> startTime @ '' - '' @ endTime
              | _ \<Rightarrow> format c (slot_start slot) ''MMM d, h:mm a'' @ '' - ''
                       @ format c (slot_end slot) ''h:mm a'' @ '' UTC'')))
       (uniqueInOrder (map p_timezone participants))"

definition scoreSlot ::
  "Collaborators \<Rightarrow> MeetingPreferences \<Rightarrow> ParticipantCalendar list \<Rightarrow> TimeSlot \<Rightarrow> TimeSlot" where
  "scoreSlot c preferences participants slot =
     (let score0 = Num 100;
          conflictPenalty =
            js_mul (js_div (js_of_nat (length (conflicts slot)))
                           (js_of_nat (length participants)))
                   (Num 50);
          score1 = js_sub score0 conflictPenalty;
          timeBonus = calculateTimePreferenceBonus slot preferences;
          score2 = js_add score1 timeBonus;
          timezoneBonus = calculateTimezoneBonus slot preferences participants;
          score3 = js_add score2 timezoneBonus
      in slot\<lparr>timezoneDisplay := generateTimezoneDisplay c slot participants,
              score := Math_max (Num 0) (Math_min (Num 100) score3)\<rparr>)"

definition scoreTimeSlots ::
  "Collaborators \<Rightarrow> TimeSlot list \<Rightarrow> MeetingPreferences \<Rightarrow> ParticipantCalendar list \<Rightarrow> TimeSlot list" where
  "scoreTimeSlots c slots preferences participants =
     map (scoreSlot c preferences participants) slots"

subsection \<open>analyzeConflicts\<close>

definition bump :: "(string \<times> nat option) list \<Rightarrow> string \<Rightarrow> (string \<times> nat option) list" where
  "bump counts participantId =
     AList.update participantId
       (case map_of counts participantId of Some (Some n) \<Rightarrow> Some (n + 1) | _ \<Rightarrow> None) counts"

definition analyzeSlot :: "ConflictSummary \<Rightarrow> TimeSlot \<Rightarrow> ConflictSummary" where
  "analyzeSlot summary slot =
     \<lparr>totalConflicts = totalConflicts summary + length (conflicts slot),
      participantConflicts = foldl bump (participantConflicts summary) (conflicts slot),
      conflictsByTimeSlot =
        AList.update (slot_start slot, slot_end slot) (conflicts slot)
          (conflictsByTimeSlot summary)\<rparr>"

definition analyzeConflicts :: "TimeSlot list \<Rightarrow> ParticipantCalendar list \<Rightarrow> ConflictSummary" where
  "analyzeConflicts slots participants =
     foldl analyzeSlot
       \<lparr>totalConflicts = 0,
        participantConflicts =
          foldl (\<lambda>counts p. AList.update (p_participantId p) (Some 0) counts) [] participants,
        conflictsByTimeSlot = []\<rparr>
       slots"

subsection \<open>getTopRecommendations and scheduleOptimalMeeting\<close>

definition byScoreDescending :: "TimeSlot \<Rightarrow> TimeSlot \<Rightarrow> jsnum" where
  "byScoreDescending a b = js_sub (score b) (score a)"

text \<open>
  \<open>slots.sort(...)\<close> sorts the array it is called on and returns that same array;
  \<open>slice\<close> then copies the first \<open>count\<close> elements.  The first component of the result
  is the content of the argument array after the call, the second is the value returned.
\<close>

definition getTopRecommendations :: "TimeSlot list \<Rightarrow> nat \<Rightarrow> TimeSlot list \<times> TimeSlot list" where
  "getTopRecommendations slots count' =
     (let sorted = sortWith byScoreDescending slots in (sorted, take count' sorted))"

text \<open>The \<open>catch\<close> clause: a \<open>SchedulingError\<close> is rethrown, anything else is wrapped.\<close>

definition wrapThrown :: "thrown \<Rightarrow> SchedulingError" where
  "wrapThrown err =
     (case err of
        ThrownScheduling e \<Rightarrow> e
      | ThrownError msg \<Rightarrow>
          SchedulingError (''Failed to schedule meeting: '' @ msg) ''SCHEDULING_FAILED''
      | ThrownValue \<Rightarrow>
          SchedulingError ''Failed to schedule meeting: Unknown error'' ''SCHEDULING_FAILED'')"

text \<open>
  The promise returned by \<open>scheduleOptimalMeeting\<close>: \<open>Inl\<close> when it rejects, \<open>Inr\<close> when it
  resolves.  \<open>availableSlots\<close> is the array \<open>scoredSlots\<close>, read after
  \<open>getTopRecommendations\<close> has sorted it.
\<close>

definition scheduleOptimalMeeting ::
  "Collaborators \<Rightarrow> ParticipantCalendar list \<Rightarrow> MeetingPreferences \<Rightarrow> DateRange
     \<Rightarrow> SchedulingError + SchedulingResult" where
  "scheduleOptimalMeeting c participants preferences searchRange =
     (case validateInputs participants preferences searchRange of
        Some err \<Rightarrow> Inl err
      | None \<Rightarrow>
          (case getAllBusyPeriods c participants searchRange of
             Inl err \<Rightarrow> Inl (wrapThrown err)
           | Inr busyPeriods \<Rightarrow>
               (let candidateSlots = findCandidateTimeSlots searchRange preferences busyPeriods;
                    scoredSlots = scoreTimeSlots c candidateSlots preferences participants;
                    conflictAnalysis' = analyzeConflicts scoredSlots participants;
                    (scoredSlots', recommendations') = getTopRecommendations scoredSlots 5
                in Inr \<lparr>availableSlots = scoredSlots',
                        conflictAnalysis = conflictAnalysis',
                        recommendations = recommendations'\<rparr>)))"

subsection \<open>findAlternativeSuggestions\<close>

record Alternatives =
  shorterDuration :: "TimeSlot list"
  expandedHours :: "TimeSlot list"
  fewerParticipants :: "TimeSlot list"

definition byConflictCount :: "TimeSlot \<Rightarrow> TimeSlot \<Rightarrow> jsnum" where
  "byConflictCount a b =
     js_sub (js_of_nat (length (conflicts a))) (js_of_nat (length (conflicts b)))"

text \<open>
  \<open>result.availableSlots[0]?.conflicts.length\<close> is \<open>undefined\<close> for an empty array, and
  a comparison with \<open>undefined\<close> is false.
\<close>

definition fewerThanFirst :: "TimeSlot list \<Rightarrow> TimeSlot \<Rightarrow> bool" where
  "fewerThanFirst slots slot =
     (case slots of
        [] \<Rightarrow> False
      | first # _ \<Rightarrow> length (conflicts slot) < length (conflicts first))"

definition findAlternativeSuggestions :: "SchedulingResult \<Rightarrow> MeetingPreferences \<Rightarrow> Alternatives" where
  "findAlternativeSuggestions result preferences =
     \<lparr>shorterDuration = [],
      expandedHours = [],
      fewerParticipants =
        take 3
          (sortWith byConflictCount
             (filter (\<lambda>slot. length (conflicts slot) > 0
                              \<and> fewerThanFirst (availableSlots result) slot)
                (availableSlots result)))\<rparr>"

section \<open>Recurrence expander (recurrence-expander.ts)\<close>

text \<open>
  \<open>RRule.prototype.between(after, before, inc, iterator)\<close> of the \<open>rrule\<close> package.  The
  package walks the occurrences of the rule in ascending order and offers each one to an
  accumulator: an occurrence before the window is skipped, the first one after the window
  ends the walk, and one inside the window is handed to \<open>iterator\<close> together with the
  number of occurrences accepted so far; the occurrence is accepted when \<open>iterator\<close>
  returns true, and the walk ends when it returns false.
\<close>

fun betweenLoop :: "Date \<Rightarrow> Date \<Rightarrow> (Date \<Rightarrow> nat \<Rightarrow> bool) \<Rightarrow> Date list \<Rightarrow> Date list \<Rightarrow> Date list" where
  "betweenLoop minDate maxDate iterator result [] = result"
| "betweenLoop minDate maxDate iterator result (d # ds) =
     (if d < minDate then betweenLoop minDate maxDate iterator result ds
      else if d > maxDate then result
      else if iterator d (length result)
           then betweenLoop minDate maxDate iterator (result @ [d]) ds
           else result)"

text \<open>Calling \<open>between\<close> on an object that has no such method throws a \<open>TypeError\<close>.\<close>

definition between ::
  "RRule \<Rightarrow> Date \<Rightarrow> Date \<Rightarrow> bool \<Rightarrow> (Date \<Rightarrow> nat \<Rightarrow> bool) \<Rightarrow> thrown + Date list" where
  "between rrule afterDate beforeDate inc iterator =
     (case rrule of
        RRuleObject opts occs \<Rightarrow>
          Inr (betweenLoop (if inc then afterDate else afterDate + 1)
                 (if inc then beforeDate else beforeDate - 1) iterator [] occs)
      | PlainObject opts \<Rightarrow> Inl (ThrownError ''rrule.between is not a function''))"

text \<open>
  \<open>isAfter(a, b)\<close> and \<open>isBefore(a, b)\<close> of \<open>date-fns\<close> compare the time values, so both
  are false when a date is invalid, and an event with an \<open>Invalid Date\<close> intersects every
  range.
\<close>

definition eventIntersectsRange :: "CalendarEvent \<Rightarrow> DateRange \<Rightarrow> bool" where
  "eventIntersectsRange event dateRange \<longleftrightarrow>
     \<not> (dateLt (Some (range_end dateRange)) (e_start event)
        \<or> dateLt (e_end event) (Some (range_start dateRange)))"

text \<open>The decimal digits of a natural number, and of an integer (\<open>String(n)\<close>).\<close>

function showNat :: "nat \<Rightarrow> string" where
  "showNat n =
     (if n < 10 then [''0123456789'' ! n]
      else showNat (n div 10) @ [''0123456789'' ! (n mod 10)])"
  by pat_completeness auto
termination
  by (relation "measure id") auto

declare showNat.simps [simp del]

definition showInt :: "int \<Rightarrow> string" where
  "showInt i = (if i < 0 then CHR ''-'' # showNat (nat (- i)) else showNat (nat i))"

text \<open>
  The occurrence built for a start date; \<open>eventDuration\<close> is
  \<open>differenceInMilliseconds(event.end, event.start)\<close>, the difference of the two time
  values, \<open>NaN\<close> when a date of the event is invalid.
\<close>

definition occurrenceOf :: "CalendarEvent \<Rightarrow> jsnum \<Rightarrow> Date \<Rightarrow> CalendarEvent" where
  "occurrenceOf event eventDuration startDate =
     event\<lparr>e_id := e_id event @ ''_'' @ showInt startDate,
           e_start := Some startDate,
           e_end := newDateFromTime (js_add (getTime (Some startDate)) eventDuration)\<rparr>"

text \<open>
  \<open>maxOccurrences\<close> is a count, a natural number; the callers in the repository pass
  nothing, which gives the default 1000.
\<close>

definition expandSingleEvent :: "CalendarEvent \<Rightarrow> DateRange \<Rightarrow> nat \<Rightarrow> CalendarEvent list" where
  "expandSingleEvent event dateRange maxOccurrences =
     (case e_recurrence event of
        None \<Rightarrow> (if eventIntersectsRange event dateRange then [event] else [])
      | Some rrule \<Rightarrow>
          (let eventDuration = js_sub (getTime (e_end event)) (getTime (e_start event))
           in case between rrule (range_start dateRange) (addDays (range_end dateRange) 1) True
                     (\<lambda>date i. i < maxOccurrences) of
                Inr dates \<Rightarrow>
                  filter (\<lambda>occurrence. eventIntersectsRange occurrence dateRange)
                    (map (occurrenceOf event eventDuration) dates)
              | Inl err \<Rightarrow>
                  (if eventIntersectsRange event dateRange then [event] else [])))"

definition defaultMaxOccurrences :: nat where
  "defaultMaxOccurrences = 1000"

section \<open>iCal parser (ical-parser.ts)\<close>

subsection \<open>String functions\<close>

definition startsWith :: "string \<Rightarrow> string \<Rightarrow> bool" where
  "startsWith s p \<longleftrightarrow> take (length p) s = p"

definition endsWith :: "string \<Rightarrow> string \<Rightarrow> bool" where
  "endsWith s p \<longleftrightarrow> startsWith (rev s) (rev p)"

fun str_includes :: "string \<Rightarrow> string \<Rightarrow> bool" where
  "str_includes [] p = (p = [])"
| "str_includes (c # cs) p = (startsWith (c # cs) p \<or> str_includes cs p)"

text \<open>\<open>s.indexOf(c)\<close> and \<open>s.lastIndexOf(c)\<close> for a character that occurs in \<open>s\<close>.\<close>

definition indexOf :: "string \<Rightarrow> char \<Rightarrow> nat" where
  "indexOf s c = length (takeWhile (\<lambda>x. x \<noteq> c) s)"

definition lastIndexOf :: "string \<Rightarrow> char \<Rightarrow> nat" where
  "lastIndexOf s c = length s - 1 - length (takeWhile (\<lambda>x. x \<noteq> c) (rev s))"

definition substring :: "string \<Rightarrow> nat \<Rightarrow> nat \<Rightarrow> string" where
  "substring s a b = take (b - a) (drop a s)"

text \<open>\<open>content.split(/\\r?\\n/)\<close>.\<close>

fun splitLines :: "string \<Rightarrow> string list" where
  "splitLines [] = [[]]"
| "splitLines (c # cs) =
     (if c = CHR 0x0A then [] # splitLines cs
      else if c = CHR 0x0D \<and> startsWith cs [CHR 0x0A] then [] # splitLines (drop 1 cs)
      else (case splitLines cs of
              [] \<Rightarrow> [[c]]
            | p # ps \<Rightarrow> (c # p) # ps))"

definition toLower :: "char \<Rightarrow> char" where
  "toLower c =
     (if c \<in> set ''ABCDEFGHIJKLMNOPQRSTUVWXYZ'' then char_of (of_char c + (32::nat)) else c)"

definition toUpper :: "char \<Rightarrow> char" where
  "toUpper c =
     (if c \<in> set ''abcdefghijklmnopqrstuvwxyz'' then char_of (of_char c - (32::nat)) else c)"

text \<open>
  \<open>parseInt(s)\<close> without a radix: leading white space, an optional sign, then hexadecimal
  digits after \<open>0x\<close> or \<open>0X\<close>, decimal digits otherwise; \<open>NaN\<close> (\<open>None\<close>) when no digit
  follows.
\<close>

definition hexVal :: "char \<Rightarrow> nat option" where
  "hexVal c =
     (if isDigit c then Some (digitVal c)
      else if c \<in> set ''abcdef'' then Some (of_char c - of_char CHR ''a'' + 10)
      else if c \<in> set ''ABCDEF'' then Some (of_char c - of_char CHR ''A'' + 10)
      else None)"

definition parseDigits :: "string \<Rightarrow> nat option" where
  "parseDigits s =
     (if startsWith s ''0x'' \<or> startsWith s ''0X'' then
        (let ds = takeWhile (\<lambda>c. hexVal c \<noteq> None) (drop 2 s)
         in if ds = [] then None
            else Some (foldl (\<lambda>acc c. 16 * acc + (case hexVal c of Some v \<Rightarrow> v | None \<Rightarrow> 0)) 0 ds))
      else
        (let ds = takeWhile isDigit s
         in if ds = [] then None else Some (decimal ds)))"

definition parseInt :: "string \<Rightarrow> int option" where
  "parseInt s =
     (let t = dropWhile isSpace s
      in if startsWith t ''-'' then map_option (\<lambda>n. - int n) (parseDigits (drop 1 t))
         else if startsWith t ''+'' then map_option int (parseDigits (drop 1 t))
         else map_option int (parseDigits t))"

subsection \<open>Dates built from calendar fields\<close>

text \<open>
  The number of the day (day 0 is 1 January 1970) on which month \<open>m\<close> (1 to 12) of
  the year \<open>y\<close> of the proleptic Gregorian calendar starts its day \<open>d\<close>.
\<close>

definition daysFromCivil :: "int \<Rightarrow> int \<Rightarrow> int \<Rightarrow> int" where
  "daysFromCivil y m d =
     (let y' = (if m \<le> 2 then y - 1 else y);
          era = y' div 400;
          yoe = y' - era * 400;
          doy = (153 * (if m > 2 then m - 3 else m + 9) + 2) div 5 + d - 1;
          doe = yoe * 365 + yoe div 4 - yoe div 100 + doy
      in era * 146097 + doe - 719468)"

text \<open>
  \<open>new Date(year, month, day, hours, minutes, seconds)\<close> on a host in UTC: an argument
  \<open>NaN\<close> gives \<open>Invalid Date\<close>; a year from 0 to 99 means 1900 plus that; months, days
  and times out of range carry over; an instant more than 8.64e15 milliseconds from the
  epoch is \<open>Invalid Date\<close>.
\<close>

definition newDate ::
  "int option \<Rightarrow> int option \<Rightarrow> int option \<Rightarrow> int option \<Rightarrow> int option \<Rightarrow> int option \<Rightarrow> Date option" where
  "newDate year month day hours minutes seconds =
     (case (year, month, day, hours, minutes, seconds) of
        (Some y, Some mo, Some d, Some h, Some mi, Some s) \<Rightarrow>
          (let yr = (if 0 \<le> y \<and> y \<le> 99 then 1900 + y else y);
               days = daysFromCivil (yr + mo div 12) (mo mod 12 + 1) 1 + (d - 1);
               t = days * MS_PER_DAY + h * MS_PER_HOUR + mi * MS_PER_MINUTE + s * 1000
           in if \<bar>t\<bar> \<le> 8640000000000000 then Some t else None)
      | _ \<Rightarrow> None)"

subsection \<open>Parser data\<close>

text \<open>
  A property of a component is a string, or an array of strings when its name occurred
  more than once.  The casts \<open>as string\<close> of the source do not change the value.
\<close>

datatype pval = PStr string | PArr "string list"

record ICalComponent =
  c_type :: string
  c_properties :: "(string \<times> pval) list"

text \<open>
  The event object that \<open>processEvent\<close> builds, as it is at run time: \<open>id\<close> and
  \<open>summary\<close> hold whatever the property held, and a date may be \<open>Invalid Date\<close> (\<open>None\<close>).
\<close>

record ICalEvent =
  ie_id :: pval
  ie_summary :: pval
  ie_start :: "Date option"
  ie_end :: "Date option"
  ie_timezone :: string
  ie_recurrence :: "RRule option"
  ie_status :: EventStatus

record ParsedCalendar =
  pc_participantId :: string
  pc_name :: string
  pc_timezone :: pval
  pc_events :: "ICalEvent list"
  pc_source :: SourceKind

datatype ICalParseError = ICalParseError (pe_message: string)

text \<open>What the parser's functions throw: an \<open>ICalParseError\<close>, or another \<open>Error\<close> with its message.\<close>

datatype parser_thrown = ThrownParse ICalParseError | ThrownOther string

text \<open>
  What the parser calls and this repository does not define: the constructor of \<open>RRule\<close>
  (\<open>Inl\<close> with the message when it throws), \<open>parseISO\<close> of \<open>date-fns\<close> (\<open>None\<close> when it
  throws or returns a date that \<open>isValid\<close> rejects), and the token that
  \<open>Math.random().toString(36).substring(2, 9)\<close> produces.
\<close>

record ParserLib =
  newRRule :: "RRuleOptions \<Rightarrow> string + RRule"
  parseISO :: "string \<Rightarrow> Date option"
  randomToken :: string

text \<open>The truth value of a property read from an object: absent and \<open>""\<close> are false.\<close>

definition truthy :: "pval option \<Rightarrow> bool" where
  "truthy v = (case v of None \<Rightarrow> False | Some (PStr s) \<Rightarrow> s \<noteq> [] | Some (PArr xs) \<Rightarrow> True)"

subsection \<open>preprocessICalContent\<close>

text \<open>The inner \<open>while\<close> loop: the lines that continue \<open>line\<close>, and the lines left.\<close>

fun takeContinuations :: "string \<Rightarrow> string list \<Rightarrow> string \<times> string list" where
  "takeContinuations line [] = (line, [])"
| "takeContinuations line (next # rest) =
     (if startsWith next '' '' \<or> startsWith next [CHR 0x09]
      then takeContinuations (line @ drop 1 next) rest
      else (line, next # rest))"

lemma takeContinuations_length: "length (snd (takeContinuations line rest)) \<le> length rest"
  by (induction rest arbitrary: line) (auto intro: le_SucI)

function preprocessLoop :: "string list \<Rightarrow> string list \<Rightarrow> string list" where
  "preprocessLoop unfolded [] = unfolded"
| "preprocessLoop unfolded (line # rest) =
     (if trim line = [] then preprocessLoop unfolded rest
      else preprocessLoop (unfolded @ [trim (fst (takeContinuations line rest))])
             (snd (takeContinuations line rest)))"
  by pat_completeness auto
termination
  by (relation "measure (\<lambda>(u, ls). length ls)")
     (auto simp: le_imp_less_Suc takeContinuations_length)

definition preprocessICalContent :: "string \<Rightarrow> string list" where
  "preprocessICalContent content = preprocessLoop [] (splitLines content)"

subsection \<open>parseComponents\<close>

text \<open>
  A line \<open>NAME[;params]:value\<close> inside a component.  A name that the object inherits from
  \<open>Object.prototype\<close> (\<open>constructor\<close>, \<open>toString\<close>, ...) reads as present the first time
  it occurs; the array stored then also holds the inherited function, which is left out
  here, and no function of the parser reads such a name.
\<close>

definition objectPrototypeNames :: "string list" where
  "objectPrototypeNames =
     [''constructor'', ''__defineGetter__'', ''__defineSetter__'', ''hasOwnProperty'',
      ''__lookupGetter__'', ''__lookupSetter__'', ''isPrototypeOf'',
      ''propertyIsEnumerable'', ''toString'', ''valueOf'', ''__proto__'',
      ''toLocaleString'']"

definition addProperty :: "ICalComponent \<Rightarrow> string \<Rightarrow> ICalComponent" where
  "addProperty component line =
     (let colonIndex = indexOf line CHR '':'';
          propertyPart = substring line 0 colonIndex;
          val = drop (colonIndex + 1) line;
          propertyName = (case splitChar CHR '';'' propertyPart of [] \<Rightarrow> [] | n # _ \<Rightarrow> n);
          fullPropertyValue =
            (if str_includes propertyPart '';'' then propertyPart @ '':'' @ val else val);
          props = c_properties component
      in component\<lparr>c_properties :=
           AList.update propertyName
             (case map_of props propertyName of
                Some (PArr existing) \<Rightarrow> PArr (existing @ [fullPropertyValue])
              | Some (PStr existing) \<Rightarrow>
                  (if existing \<noteq> [] then PArr [existing, fullPropertyValue]
                   else PStr fullPropertyValue)
              | None \<Rightarrow>
                  (if propertyName \<in> set objectPrototypeNames then PArr [fullPropertyValue]
                   else PStr fullPropertyValue))
             props\<rparr>)"

text \<open>
  The loop of \<open>parseComponents\<close>: the components closed so far and the component that is
  open, if any.  A component still open at the end is dropped.
\<close>

fun parseComponentsLoop ::
  "ICalComponent list \<Rightarrow> ICalComponent option \<Rightarrow> string list \<Rightarrow> ICalComponent list" where
  "parseComponentsLoop components currentComponent [] = components"
| "parseComponentsLoop components currentComponent (line # rest) =
     (if startsWith line ''BEGIN:'' then
        parseComponentsLoop components
          (Some \<lparr>c_type = drop 6 line, c_properties = []\<rparr>) rest
      else if startsWith line ''END:'' then
        (case currentComponent of
           Some component \<Rightarrow> parseComponentsLoop (components @ [component]) None rest
         | None \<Rightarrow> parseComponentsLoop components None rest)
      else
        (case currentComponent of
           Some component \<Rightarrow>
             (if str_includes line '':''
              then parseComponentsLoop components (Some (addProperty component line)) rest
              else parseComponentsLoop components currentComponent rest)
         | None \<Rightarrow> parseComponentsLoop components currentComponent rest))"

definition parseComponents :: "string list \<Rightarrow> ICalComponent list" where
  "parseComponents lines = parseComponentsLoop [] None lines"

subsection \<open>Dates, durations, time zones\<close>

text \<open>
  \<open>parseDateTime\<close>.  An array has \<open>includes\<close> and \<open>lastIndexOf\<close> but neither
  \<open>substring\<close> nor \<open>endsWith\<close>, so the call throws a \<open>TypeError\<close> on it.  The host is in
  UTC, so \<open>getTimezoneOffset()\<close> is 0 and the adjustment for a trailing \<open>Z\<close> leaves the
  instant as it is.  A string that holds a \<open>T\<close> splits into two pieces at least, so the
  last branch of the \<open>case\<close> is never taken.
\<close>

definition parseDateTimeStr :: "ParserLib \<Rightarrow> string \<Rightarrow> parser_thrown + Date option" where
  "parseDateTimeStr lib dateTimeStr =
     (let clean1 = (if str_includes dateTimeStr '':''
                    then drop (lastIndexOf dateTimeStr CHR '':'' + 1) dateTimeStr
                    else dateTimeStr);
          cleanDateTime = (if endsWith clean1 ''Z'' then butlast clean1 else clean1)
      in if length cleanDateTime = 15 \<and> str_includes cleanDateTime ''T'' then
           (case splitChar CHR ''T'' cleanDateTime of
              datePart # timePart # _ \<Rightarrow>
                (let year = parseInt (substring datePart 0 4);
                     month = map_option (\<lambda>m. m - 1) (parseInt (substring datePart 4 6));
                     day = parseInt (substring datePart 6 8);
                     hour = parseInt (substring timePart 0 2);
                     minute = parseInt (substring timePart 2 4);
                     second = parseInt (substring timePart 4 6);
                     date = newDate year month day hour minute second
                 in if endsWith dateTimeStr ''Z''
                    then Inr (map_option (\<lambda>t. t - 0 * 60000) date)
                    else Inr date)
            | _ \<Rightarrow> Inl (ThrownOther ''Cannot read properties of undefined''))
         else
           (case parseISO lib cleanDateTime of
              Some isoDate \<Rightarrow> Inr (Some isoDate)
            | None \<Rightarrow>
                Inl (ThrownParse (ICalParseError (''Invalid date format: '' @ dateTimeStr)))))"

definition parseDateTime :: "ParserLib \<Rightarrow> pval \<Rightarrow> parser_thrown + Date option" where
  "parseDateTime lib v =
     (case v of
        PStr dateTimeStr \<Rightarrow> parseDateTimeStr lib dateTimeStr
      | PArr xs \<Rightarrow>
          (if '':'' \<in> set xs
           then Inl (ThrownOther ''dateTimeStr.substring is not a function'')
           else Inl (ThrownOther ''cleanDateTime.endsWith is not a function'')))"

text \<open>
  One optional group \<open>(?:(\\d+)X)?\<close> of the duration pattern at the head of \<open>s\<close>: the
  digits captured, if the group matched, and the rest of the string.
\<close>

definition durationGroup :: "char \<Rightarrow> string \<Rightarrow> string option \<times> string" where
  "durationGroup unit s =
     (let ds = takeWhile isDigit s; rest = dropWhile isDigit s
      in if ds \<noteq> [] \<and> startsWith rest [unit] then (Some ds, drop 1 rest) else (None, s))"

text \<open>
  \<open>duration.match(/PT(?:(\\d+)H)?(?:(\\d+)M)?(?:(\\d+)S)?/)\<close>: the match starts at the first
  \<open>PT\<close> of the string; the result is the three captures, or \<open>None\<close> without a match.
\<close>

fun durationMatch :: "string \<Rightarrow> (string option \<times> string option \<times> string option) option" where
  "durationMatch [] = None"
| "durationMatch (c # cs) =
     (if startsWith (c # cs) ''PT'' then
        (let (h, s1) = durationGroup CHR ''H'' (drop 2 (c # cs));
             (m, s2) = durationGroup CHR ''M'' s1;
             (s, s3) = durationGroup CHR ''S'' s2
         in Some (h, m, s))
      else durationMatch cs)"

definition captureOrZero :: "string option \<Rightarrow> int" where
  "captureOrZero g = (case g of Some ds \<Rightarrow> int (decimal ds) | None \<Rightarrow> 0)"

definition calculateEndFromDuration :: "Date option \<Rightarrow> pval \<Rightarrow> parser_thrown + Date option" where
  "calculateEndFromDuration startDate v =
     (case v of
        PArr xs \<Rightarrow> Inl (ThrownOther ''duration.match is not a function'')
      | PStr duration' \<Rightarrow>
          (case durationMatch duration' of
             None \<Rightarrow> Inl (ThrownParse (ICalParseError (''Invalid duration format: '' @ duration')))
           | Some (h, m, s) \<Rightarrow>
               (let hours = captureOrZero h;
                    minutes = captureOrZero m;
                    seconds = captureOrZero s;
                    totalMs = (hours * 60 * 60 + minutes * 60 + seconds) * 1000
                in Inr (newDateFromTime (js_add (getTime startDate) (js_of_int totalMs))))))"

text \<open>\<open>dateTimeStr.match(/TZID=([^:;]+)/)\<close>: the capture of the leftmost match.\<close>

fun tzidMatch :: "string \<Rightarrow> string option" where
  "tzidMatch [] = None"
| "tzidMatch (c # cs) =
     (let captured = takeWhile (\<lambda>x. x \<noteq> CHR '':'' \<and> x \<noteq> CHR '';'') (drop 5 (c # cs))
      in if startsWith (c # cs) ''TZID='' \<and> captured \<noteq> [] then Some captured
         else tzidMatch cs)"

definition extractEventTimezoneStr :: "string \<Rightarrow> string option" where
  "extractEventTimezoneStr dateTimeStr =
     (if endsWith dateTimeStr ''Z'' then Some ''UTC'' else tzidMatch dateTimeStr)"

definition extractEventTimezone :: "pval \<Rightarrow> parser_thrown + string option" where
  "extractEventTimezone v =
     (case v of
        PStr dateTimeStr \<Rightarrow> Inr (extractEventTimezoneStr dateTimeStr)
      | PArr xs \<Rightarrow> Inl (ThrownOther ''dateTimeStr.endsWith is not a function''))"

subsection \<open>Recurrence rules\<close>

text \<open>
  The frequencies of the \<open>rrule\<close> package: \<open>RRule.YEARLY\<close> is 0, \<open>MONTHLY\<close> 1, \<open>WEEKLY\<close> 2,
  \<open>DAILY\<close> 3, \<open>HOURLY\<close> 4, \<open>MINUTELY\<close> 5, \<open>SECONDLY\<close> 6.
\<close>

definition freqMap :: "(string \<times> nat) list" where
  "freqMap =
     [(''YEARLY'', 0), (''MONTHLY'', 1), (''WEEKLY'', 2), (''DAILY'', 3), (''HOURLY'', 4),
      (''MINUTELY'', 5), (''SECONDLY'', 6)]"

definition RRule_WEEKLY :: nat where "RRule_WEEKLY = 2"

text \<open>
  \<open>table[key] || dflt\<close> for a table written as an object literal: the number stored when
  it is not 0, the inherited property for a name of \<open>Object.prototype\<close>, else \<open>dflt\<close>.
  The key \<open>undefined\<close> reads the property named \<open>"undefined"\<close>.
\<close>

definition lookupOr :: "(string \<times> nat) list \<Rightarrow> string option \<Rightarrow> nat \<Rightarrow> looked_up" where
  "lookupOr table key dflt =
     (let k = (case key of Some s \<Rightarrow> s | None \<Rightarrow> ''undefined'')
      in case map_of table k of
           Some n \<Rightarrow> (if n \<noteq> 0 then LNum n else LNum dflt)
         | None \<Rightarrow> (if k \<in> set objectPrototypeNames then LInherited k else LNum dflt))"

definition mapFrequency :: "string option \<Rightarrow> looked_up" where
  "mapFrequency freq' = lookupOr freqMap freq' RRule_WEEKLY"

text \<open>The weekday numbers of the package: \<open>RRule.MO.weekday\<close> is 0, ..., \<open>RRule.SU.weekday\<close> is 6.\<close>

definition dayMap :: "(string \<times> nat) list" where
  "dayMap =
     [(''SU'', 6), (''MO'', 0), (''TU'', 1), (''WE'', 2), (''TH'', 3), (''FR'', 4), (''SA'', 5)]"

text \<open>\<open>day.replace(/^[-+]?\\d*/, "")\<close>.\<close>

definition stripNumericPrefix :: "string \<Rightarrow> string" where
  "stripNumericPrefix day =
     dropWhile isDigit
       (if startsWith day ''-'' \<or> startsWith day ''+'' then drop 1 day else day)"

definition parseByDay :: "string \<Rightarrow> looked_up list" where
  "parseByDay byday =
     map (\<lambda>day. lookupOr dayMap (Some (stripNumericPrefix day)) 0) (splitChar CHR '','' byday)"

text \<open>
  One round of the loop of \<open>parseRecurrenceRule\<close>.  \<open>part.split("=")\<close> gives the key and,
  when the part holds an \<open>=\<close>, the value; a method called on a missing value throws a
  \<open>TypeError\<close>, while \<open>parseInt(undefined)\<close> is \<open>NaN\<close>.
\<close>

definition applyRulePart :: "ParserLib \<Rightarrow> RRuleOptions \<Rightarrow> string \<Rightarrow> parser_thrown + RRuleOptions" where
  "applyRulePart lib options part =
     (let pieces = splitChar CHR ''='' part;
          key = (case pieces of [] \<Rightarrow> [] | k # _ \<Rightarrow> k);
          val = (case pieces of _ # v # _ \<Rightarrow> Some v | _ \<Rightarrow> None)
      in if key = ''FREQ'' then Inr (options\<lparr>freq := Some (mapFrequency val)\<rparr>)
         else if key = ''INTERVAL'' then
           Inr (options\<lparr>interval := Some (case val of Some v \<Rightarrow> parseInt v | None \<Rightarrow> None)\<rparr>)
         else if key = ''COUNT'' then
           Inr (options\<lparr>count := Some (case val of Some v \<Rightarrow> parseInt v | None \<Rightarrow> None)\<rparr>)
         else if key = ''UNTIL'' then
           (case val of
              None \<Rightarrow> Inl (ThrownOther ''Cannot read properties of undefined'')
            | Some v \<Rightarrow>
                (case parseDateTimeStr lib v of
                   Inl err \<Rightarrow> Inl err
                 | Inr d \<Rightarrow> Inr (options\<lparr>until := Some d\<rparr>)))
         else if key = ''BYDAY'' then
           (case val of
              None \<Rightarrow> Inl (ThrownOther ''Cannot read properties of undefined'')
            | Some v \<Rightarrow> Inr (options\<lparr>byweekday := Some (parseByDay v)\<rparr>))
         else if key = ''BYMONTHDAY'' then
           (case val of
              None \<Rightarrow> Inl (ThrownOther ''Cannot read properties of undefined'')
            | Some v \<Rightarrow> Inr (options\<lparr>bymonthday := Some (map parseInt (splitChar CHR '','' v))\<rparr>))
         else if key = ''BYMONTH'' then
           (case val of
              None \<Rightarrow> Inl (ThrownOther ''Cannot read properties of undefined'')
            | Some v \<Rightarrow> Inr (options\<lparr>bymonth := Some (map parseInt (splitChar CHR '','' v))\<rparr>))
         else Inr options)"

fun applyRuleParts :: "ParserLib \<Rightarrow> RRuleOptions \<Rightarrow> string list \<Rightarrow> parser_thrown + RRuleOptions" where
  "applyRuleParts lib options [] = Inr options"
| "applyRuleParts lib options (part # rest) =
     (case applyRulePart lib options part of
        Inl err \<Rightarrow> Inl err
      | Inr options' \<Rightarrow> applyRuleParts lib options' rest)"

definition parseRecurrenceRule :: "ParserLib \<Rightarrow> string \<Rightarrow> Date option \<Rightarrow> parser_thrown + RRule" where
  "parseRecurrenceRule lib rruleStr dtstart' =
     (case applyRuleParts lib
             \<lparr>dtstart = dtstart', freq = None, interval = None, count = None, until = None,
              byweekday = None, bymonthday = None, bymonth = None\<rparr>
             (splitChar CHR '';'' rruleStr) of
        Inl err \<Rightarrow> Inl err
      | Inr options \<Rightarrow>
          (case newRRule lib options of
             Inl msg \<Rightarrow> Inl (ThrownOther msg)
           | Inr rule \<Rightarrow> Inr rule))"

text \<open>
  The block of \<open>processEvent\<close> that reads \<open>RRULE\<close>, with its \<open>try\<close> and \<open>catch\<close>: the rule
  object, or \<open>None\<close> for \<open>undefined\<close>.  On an array, \<open>includes\<close> looks for an element equal
  to \<open>"FREQ="\<close>, and \<open>split\<close> does not exist.
\<close>

definition parseRRuleProperty :: "ParserLib \<Rightarrow> pval option \<Rightarrow> Date option \<Rightarrow> RRule option" where
  "parseRRuleProperty lib rrule startDate =
     (if truthy rrule then
        (case rrule of
           Some (PStr rruleStr) \<Rightarrow>
             (if str_includes rruleStr ''FREQ='' then
                (case parseRecurrenceRule lib rruleStr startDate of
                   Inr rule \<Rightarrow> Some rule
                 | Inl err \<Rightarrow> None)
              else None)
         | _ \<Rightarrow> None)
      else None)"

subsection \<open>processEvent and extractEvents\<close>

definition parseStatus :: "pval option \<Rightarrow> parser_thrown + EventStatus" where
  "parseStatus status =
     (if \<not> truthy status then Inr confirmed
      else
        (case status of
           Some (PStr s) \<Rightarrow>
             (if map toUpper s = ''TENTATIVE'' then Inr tentative
              else if map toUpper s = ''CANCELLED'' then Inr cancelled
              else Inr confirmed)
         | _ \<Rightarrow> Inl (ThrownOther ''status.toUpperCase is not a function'')))"

text \<open>
  A step that may throw, followed by the rest of the function: the error of the step is
  the error of the whole.
\<close>

definition andThen :: "'e + 'a \<Rightarrow> ('a \<Rightarrow> 'e + 'b) \<Rightarrow> 'e + 'b" where
  "andThen step rest = (case step of Inl err \<Rightarrow> Inl err | Inr x \<Rightarrow> rest x)"

text \<open>The end date of \<open>processEvent\<close>: from \<open>DTEND\<close>, else from \<open>DURATION\<close>, else one hour.\<close>

definition endDateOf ::
  "ParserLib \<Rightarrow> (string \<times> pval) list \<Rightarrow> Date option \<Rightarrow> parser_thrown + Date option" where
  "endDateOf lib props startDate =
     (if truthy (map_of props ''DTEND'') then
        (case map_of props ''DTEND'' of
           Some dtend \<Rightarrow> parseDateTime lib dtend
         | None \<Rightarrow> Inr None)
      else if truthy (map_of props ''DURATION'') then
        (case map_of props ''DURATION'' of
           Some dur \<Rightarrow> calculateEndFromDuration startDate dur
         | None \<Rightarrow> Inr None)
      else Inr (newDateFromTime (js_add (getTime startDate) (Num (60 * 60 * 1000)))))"

text \<open>\<open>(props.SUMMARY as string) || "Untitled Event"\<close>.\<close>

definition summaryOf :: "(string \<times> pval) list \<Rightarrow> pval" where
  "summaryOf props =
     (if truthy (map_of props ''SUMMARY'')
      then (case map_of props ''SUMMARY'' of Some v \<Rightarrow> v | None \<Rightarrow> PStr ''Untitled Event'')
      else PStr ''Untitled Event'')"

definition processEvent :: "ParserLib \<Rightarrow> ICalComponent \<Rightarrow> parser_thrown + ICalEvent" where
  "processEvent lib vevent =
     (let props = c_properties vevent in
      case (map_of props ''UID'', map_of props ''DTSTART'') of
        (Some uid, Some dtstart') \<Rightarrow>
          (if \<not> truthy (Some uid) \<or> \<not> truthy (Some dtstart') then
             Inl (ThrownParse (ICalParseError ''Event missing required UID or DTSTART''))
           else
             andThen (parseDateTime lib dtstart') (\<lambda>startDate.
             andThen (endDateOf lib props startDate) (\<lambda>endDate.
             andThen (extractEventTimezone dtstart') (\<lambda>tz.
               (let timezone = (case tz of Some z \<Rightarrow> z | None \<Rightarrow> ''UTC'');
                    recurrence = parseRRuleProperty lib (map_of props ''RRULE'') startDate
                in andThen (parseStatus (map_of props ''STATUS'')) (\<lambda>status.
                     Inr \<lparr>ie_id = uid,
                          ie_summary = summaryOf props,
                          ie_start = startDate,
                          ie_end = endDate,
                          ie_timezone = timezone,
                          ie_recurrence = recurrence,
                          ie_status = status\<rparr>))))))
      | _ \<Rightarrow> Inl (ThrownParse (ICalParseError ''Event missing required UID or DTSTART'')))"

text \<open>
  The loop of \<open>extractEvents\<close>: whatever \<open>processEvent\<close> throws is caught and logged, and
  the loop goes on with the next component.
\<close>

fun extractEventsLoop :: "ParserLib \<Rightarrow> ICalEvent list \<Rightarrow> ICalComponent list \<Rightarrow> ICalEvent list" where
  "extractEventsLoop lib events [] = events"
| "extractEventsLoop lib events (vevent # rest) =
     (case processEvent lib vevent of
        Inr event \<Rightarrow> extractEventsLoop lib (events @ [event]) rest
      | Inl err \<Rightarrow> extractEventsLoop lib events rest)"

definition extractEvents :: "ParserLib \<Rightarrow> ICalComponent list \<Rightarrow> ICalEvent list" where
  "extractEvents lib components =
     extractEventsLoop lib [] (filter (\<lambda>c. c_type c = ''VEVENT'') components)"

subsection \<open>extractTimezone, generateParticipantId, parseICalContent\<close>

text \<open>The loop of \<open>extractTimezone\<close> over the events; \<open>None\<close> is \<open>null\<close>.\<close>

fun eventTimezoneLoop :: "ICalComponent list \<Rightarrow> parser_thrown + pval option" where
  "eventTimezoneLoop [] = Inr None"
| "eventTimezoneLoop (vevent # rest) =
     (if truthy (map_of (c_properties vevent) ''DTSTART'') then
        (case map_of (c_properties vevent) ''DTSTART'' of
           Some dtstart' \<Rightarrow>
             (case extractEventTimezone dtstart' of
                Inl err \<Rightarrow> Inl err
              | Inr (Some tzid) \<Rightarrow>
                  (if tzid \<noteq> ''UTC'' then Inr (Some (PStr tzid)) else eventTimezoneLoop rest)
              | Inr None \<Rightarrow> eventTimezoneLoop rest)
         | None \<Rightarrow> eventTimezoneLoop rest)
      else eventTimezoneLoop rest)"

definition extractTimezone :: "ICalComponent list \<Rightarrow> parser_thrown + pval option" where
  "extractTimezone components =
     (case List.find (\<lambda>c. c_type c = ''VTIMEZONE'') components of
        Some vtimezone \<Rightarrow>
          (if truthy (map_of (c_properties vtimezone) ''TZID'')
           then Inr (map_of (c_properties vtimezone) ''TZID'')
           else eventTimezoneLoop (filter (\<lambda>c. c_type c = ''VEVENT'') components))
      | None \<Rightarrow> eventTimezoneLoop (filter (\<lambda>c. c_type c = ''VEVENT'') components))"

text \<open>\<open>s.replace(/\\s+/g, "-")\<close>: every run of white space becomes one hyphen.\<close>

function replaceSpaceRuns :: "string \<Rightarrow> string" where
  "replaceSpaceRuns [] = []"
| "replaceSpaceRuns (c # cs) =
     (if isSpace c then CHR ''-'' # replaceSpaceRuns (dropWhile isSpace cs)
      else c # replaceSpaceRuns cs)"
  by pat_completeness auto
termination
  by (relation "measure length") (auto simp: le_imp_less_Suc length_dropWhile_le)

definition generateParticipantId :: "ParserLib \<Rightarrow> string option \<Rightarrow> string" where
  "generateParticipantId lib name =
     (case name of
        Some n \<Rightarrow>
          (if n \<noteq> [] then
             filter (\<lambda>c. c \<in> set ''abcdefghijklmnopqrstuvwxyz0123456789-'')
               (replaceSpaceRuns (map toLower n))
           else ''participant-'' @ randomToken lib)
      | None \<Rightarrow> ''participant-'' @ randomToken lib)"

text \<open>
  \<open>parseICalContent\<close>.  The \<open>catch\<close> clause rethrows an \<open>ICalParseError\<close> and wraps any
  other error into one, so the function throws nothing else.
\<close>

definition parseICalContent :: "ParserLib \<Rightarrow> string \<Rightarrow> string option \<Rightarrow> ICalParseError + ParsedCalendar" where
  "parseICalContent lib content participantName =
     (if \<not> str_includes content ''BEGIN:VCALENDAR'' then
        Inl (ICalParseError ''Invalid iCal content: Missing BEGIN:VCALENDAR'')
      else
        (let lines = preprocessICalContent content;
             components = parseComponents lines;
             events = extractEvents lib components
         in case extractTimezone components of
              Inl (ThrownParse err) \<Rightarrow> Inl err
            | Inl (ThrownOther msg) \<Rightarrow>
                Inl (ICalParseError (''Failed to parse iCal content: '' @ msg))
            | Inr tz \<Rightarrow>
                Inr \<lparr>pc_participantId = generateParticipantId lib participantName,
                     pc_name = (case participantName of
                                  Some n \<Rightarrow> (if n \<noteq> [] then n else ''Unknown Participant'')
                                | None \<Rightarrow> ''Unknown Participant''),
                     pc_timezone = (if truthy tz then (case tz of Some z \<Rightarrow> z | None \<Rightarrow> PStr ''UTC'')
                                    else PStr ''UTC''),
                     pc_events = events,
                     pc_source = ical\<rparr>))"

section \<open>Properties used in the statements\<close>

text \<open>
  A date that holds a number within the range of a \<open>Date\<close> object, and that number.  An
  event or a busy period is valid when both its dates are.
\<close>

definition validDate :: "Date option \<Rightarrow> bool" where
  "validDate d = (case d of Some t \<Rightarrow> \<bar>t\<bar> \<le> MAX_TIME | None \<Rightarrow> False)"

definition timeOf :: "Date option \<Rightarrow> Date" where
  "timeOf d = (case d of Some t \<Rightarrow> t | None \<Rightarrow> 0)"

definition validEvent :: "CalendarEvent \<Rightarrow> bool" where
  "validEvent e \<longleftrightarrow> validDate (e_start e) \<and> validDate (e_end e)"

definition validPeriod :: "BusyPeriod \<Rightarrow> bool" where
  "validPeriod p \<longleftrightarrow> validDate (bp_start p) \<and> validDate (bp_end p)"

text \<open>An event that is valid and starts before it ends.\<close>

definition properEvent :: "CalendarEvent \<Rightarrow> bool" where
  "properEvent e \<longleftrightarrow> validEvent e \<and> dateLt (e_start e) (e_end e)"

text \<open>The instants covered by an interval: from its start up to, not including, its end.\<close>

definition span :: "Date option \<Rightarrow> Date option \<Rightarrow> Date set" where
  "span s e = {t. dateLe s (Some t) \<and> dateLt (Some t) e}"

definition bpOverlap :: "BusyPeriod \<Rightarrow> BusyPeriod \<Rightarrow> bool" where
  "bpOverlap p q \<longleftrightarrow> dateLt (bp_start p) (bp_end q) \<and> dateLt (bp_start q) (bp_end p)"

text \<open>Two busy periods in the order the list has them: the first ends before the second starts.\<close>

definition gapBetween :: "BusyPeriod \<Rightarrow> BusyPeriod \<Rightarrow> bool" where
  "gapBetween p q \<longleftrightarrow> dateLe (bp_start p) (bp_start q) \<and> dateLt (bp_end p) (bp_start q)"

text \<open>
  The pairs of the conflict-detection contract, in the order of the sweep: every pair of an
  event and a later event of the list that passes \<open>keep\<close>.
\<close>

fun sweepPairs :: "(CalendarEvent \<Rightarrow> CalendarEvent \<Rightarrow> bool) \<Rightarrow> CalendarEvent list \<Rightarrow> (CalendarEvent \<times> CalendarEvent) list" where
  "sweepPairs keep [] = []"
| "sweepPairs keep (e1 # rest) =
     map (\<lambda>e2. (e1, e2)) (filter (keep e1) rest) @ sweepPairs keep rest"

text \<open>The pairs as the specification words them: \<open>e2.start < e1.end\<close>.\<close>

definition specPairs :: "CalendarEvent list \<Rightarrow> (CalendarEvent \<times> CalendarEvent) list" where
  "specPairs evs = sweepPairs (\<lambda>e1 e2. dateLt (e_start e2) (e_end e1)) evs"

text \<open>The list is sorted by start: every event starts no later than the events after it.\<close>

definition startSorted :: "CalendarEvent list \<Rightarrow> bool" where
  "startSorted evs = sorted_wrt (\<lambda>a b. dateLe (e_start a) (e_start b)) evs"

text \<open>The events of a calendar that are not cancelled.\<close>

definition nonCancelled :: "ParticipantCalendar \<Rightarrow> CalendarEvent list" where
  "nonCancelled calendar = filter (\<lambda>event. e_status event \<noteq> cancelled) (p_events calendar)"

text \<open>The largest number of conflicts of a slot of the list.\<close>

definition worstConflictCount :: "TimeSlot list \<Rightarrow> nat" where
  "worstConflictCount slots = foldr (\<lambda>slot m. max (length (conflicts slot)) m) slots 0"

text \<open>The last steps of the scoring of a slot, from the penalty and the two bonuses.\<close>

definition finalScore :: "jsnum \<Rightarrow> jsnum \<Rightarrow> jsnum \<Rightarrow> jsnum" where
  "finalScore penalty timeBonus timezoneBonus =
     Math_max (Num 0)
       (Math_min (Num 100)
          (js_add (js_add (js_sub (Num 100) penalty) timeBonus) timezoneBonus))"



text \<open>
  What a caller sees of an outcome: the available slots, the score of the slot that
  starts at an instant, and the recommendations.
\<close>

definition slotsOf :: "SchedulingError + SchedulingResult \<Rightarrow> TimeSlot list" where
  "slotsOf outcome = (case outcome of Inl err \<Rightarrow> [] | Inr result \<Rightarrow> availableSlots result)"

definition scoreOfSlotAt :: "Date \<Rightarrow> SchedulingError + SchedulingResult \<Rightarrow> jsnum option" where
  "scoreOfSlotAt t outcome =
     map_option score (List.find (\<lambda>slot. slot_start slot = t) (slotsOf outcome))"


text \<open>The start of the candidate number \<open>k\<close> of a day whose business hours start at 09:00.\<close>

definition quarterFromNine :: "Date \<Rightarrow> nat \<Rightarrow> Date" where
  "quarterFromNine day k = startOfDay day + 9 * MS_PER_HOUR + int k * (15 * MS_PER_MINUTE)"

text \<open>A component with one property set to a value.\<close>

definition setProperty :: "string \<Rightarrow> pval \<Rightarrow> ICalComponent \<Rightarrow> ICalComponent" where
  "setProperty name v component =
     component\<lparr>c_properties := AList.update name v (c_properties component)\<rparr>"

text \<open>The \<open>VEVENT\<close> components of a text.\<close>

definition vevents :: "string \<Rightarrow> ICalComponent list" where
  "vevents content =
     filter (\<lambda>c. c_type c = ''VEVENT'') (parseComponents (preprocessICalContent content))"

text \<open>The events of the components that \<open>processEvent\<close> accepts, in order.\<close>

definition processedEvents :: "ParserLib \<Rightarrow> ICalComponent list \<Rightarrow> ICalEvent list" where
  "processedEvents lib components =
     List.map_filter
       (\<lambda>c. case processEvent lib c of Inr event \<Rightarrow> Some event | Inl err \<Rightarrow> None) components"

text \<open>The property \<open>DTSTART\<close> occurs at most once in the component.\<close>

definition singleDtstart :: "ICalComponent \<Rightarrow> bool" where
  "singleDtstart c =
     (case map_of (c_properties c) ''DTSTART'' of Some (PArr xs) \<Rightarrow> False | _ \<Rightarrow> True)"

subsection \<open>Calendar texts written out from their parts\<close>

text \<open>
  A calendar text as an exporter writes it: the opening marker, the properties of the
  calendar, one block per event with its properties, and the closing marker, one per line.
  A property is its name and its value.
\<close>

type_synonym PropertyList = "(string \<times> string) list"

definition propertyLine :: "string \<times> string \<Rightarrow> string" where
  "propertyLine p = fst p @ '':'' @ snd p"

definition eventLines :: "PropertyList \<Rightarrow> string list" where
  "eventLines props = ''BEGIN:VEVENT'' # map propertyLine props @ [''END:VEVENT'']"

definition calendarLines :: "PropertyList \<Rightarrow> PropertyList list \<Rightarrow> string list" where
  "calendarLines header blocks =
     ''BEGIN:VCALENDAR'' # map propertyLine header @ concat (map eventLines blocks)
     @ [''END:VCALENDAR'']"

text \<open>The lines joined by the line break \<open>eol\<close>, which is a line feed or a carriage return and a line feed.\<close>

fun joinLines :: "string \<Rightarrow> string list \<Rightarrow> string" where
  "joinLines eol [] = []"
| "joinLines eol [l] = l"
| "joinLines eol (l # m # ls) = l @ eol @ joinLines eol (m # ls)"

definition lineBreak :: "string \<Rightarrow> bool" where
  "lineBreak eol \<longleftrightarrow> eol = [CHR 0x0A] \<or> eol = [CHR 0x0D, CHR 0x0A]"

definition calendarText :: "string \<Rightarrow> PropertyList \<Rightarrow> PropertyList list \<Rightarrow> string" where
  "calendarText eol header blocks = joinLines eol (calendarLines header blocks)"

text \<open>A line that is not empty and has no white space at either end.\<close>

definition tidy :: "string \<Rightarrow> bool" where
  "tidy l \<longleftrightarrow> l \<noteq> [] \<and> \<not> isSpace (hd l) \<and> \<not> isSpace (last l)"

text \<open>
  A plain property: its name is made of capital letters, digits and hyphens and is neither
  \<open>BEGIN\<close> nor \<open>END\<close>; its value holds no line break and does not end in white space.  A
  plain block has plain properties with distinct names.
\<close>

definition nameChar :: "char \<Rightarrow> bool" where
  "nameChar c \<longleftrightarrow> c \<in> set ''ABCDEFGHIJKLMNOPQRSTUVWXYZ0123456789-''"

definition plainProperty :: "string \<times> string \<Rightarrow> bool" where
  "plainProperty p \<longleftrightarrow>
     fst p \<noteq> [] \<and> list_all nameChar (fst p) \<and> fst p \<noteq> ''BEGIN'' \<and> fst p \<noteq> ''END'' \<and>
     list_all (\<lambda>c. c \<noteq> CHR 0x0A \<and> c \<noteq> CHR 0x0D) (snd p) \<and>
     (case rev (snd p) of [] \<Rightarrow> True | c # _ \<Rightarrow> \<not> isSpace c)"

definition plainBlock :: "PropertyList \<Rightarrow> bool" where
  "plainBlock props \<longleftrightarrow> list_all plainProperty props \<and> distinct (map fst props)"

text \<open>The value of a property of a block, the empty string when the block has none.\<close>

definition valueOf :: "PropertyList \<Rightarrow> string \<Rightarrow> string" where
  "valueOf props name = (case map_of props name of Some v \<Rightarrow> v | None \<Rightarrow> [])"

text \<open>
  Date values.  \<open>icalDateTime\<close>: eight digits, \<open>T\<close>, six digits, and possibly a final
  \<open>Z\<close>.  A date value is accepted when it has that form, or when it is not a text of 15
  characters with a \<open>T\<close> (a final \<open>Z\<close> not counted) and \<open>parseISO\<close> accepts it; it is
  rejected when it is not such a text and \<open>parseISO\<close> does not accept it.  A text of 15
  characters with a \<open>T\<close> that is not of the form \<open>icalDateTime\<close> is neither.
\<close>

definition stripZ :: "string \<Rightarrow> string" where
  "stripZ s = (if endsWith s ''Z'' then butlast s else s)"

definition fifteenWithT :: "string \<Rightarrow> bool" where
  "fifteenWithT s \<longleftrightarrow> length (stripZ s) = 15 \<and> CHR ''T'' \<in> set (stripZ s)"

definition icalDateTime :: "string \<Rightarrow> bool" where
  "icalDateTime s \<longleftrightarrow>
     length (stripZ s) = 15 \<and> list_all isDigit (take 8 (stripZ s)) \<and>
     stripZ s ! 8 = CHR ''T'' \<and> list_all isDigit (drop 9 (stripZ s))"

definition acceptedDate :: "ParserLib \<Rightarrow> string \<Rightarrow> bool" where
  "acceptedDate lib s \<longleftrightarrow>
     CHR '':'' \<notin> set s \<and>
     (icalDateTime s \<or> (\<not> fifteenWithT s \<and> parseISO lib (stripZ s) \<noteq> None))"

definition rejectedDate :: "ParserLib \<Rightarrow> string \<Rightarrow> bool" where
  "rejectedDate lib s \<longleftrightarrow>
     CHR '':'' \<notin> set s \<and> \<not> fifteenWithT s \<and> parseISO lib (stripZ s) = None"

text \<open>
  An event block without defect: it has an id and a start, its start and its end, if it
  has one, are accepted dates, and its duration, if it is read, holds \<open>PT\<close>.  A defective
  event block: it lacks the id or the start, or its start or its end is a rejected date.
\<close>

definition soundEvent :: "ParserLib \<Rightarrow> PropertyList \<Rightarrow> bool" where
  "soundEvent lib props \<longleftrightarrow>
     valueOf props ''UID'' \<noteq> [] \<and> valueOf props ''DTSTART'' \<noteq> [] \<and>
     acceptedDate lib (valueOf props ''DTSTART'') \<and>
     (if valueOf props ''DTEND'' \<noteq> [] then acceptedDate lib (valueOf props ''DTEND'')
      else valueOf props ''DURATION'' = [] \<or> str_includes (valueOf props ''DURATION'') ''PT'')"

definition defectiveEvent :: "ParserLib \<Rightarrow> PropertyList \<Rightarrow> bool" where
  "defectiveEvent lib props \<longleftrightarrow>
     valueOf props ''UID'' = [] \<or> valueOf props ''DTSTART'' = [] \<or>
     rejectedDate lib (valueOf props ''DTSTART'') \<or>
     (valueOf props ''DTEND'' \<noteq> [] \<and> rejectedDate lib (valueOf props ''DTEND''))"

text \<open>The component that stands for an event block.\<close>

definition blockComponent :: "PropertyList \<Rightarrow> ICalComponent" where
  "blockComponent props =
     \<lparr>c_type = ''VEVENT'', c_properties = map (\<lambda>p. (fst p, PStr (snd p))) props\<rparr>"
section \<open>Concrete inputs\<close>

text \<open>Short forms for events, calendars, slots and participants.\<close>

definition mkEvent :: "string \<Rightarrow> Date \<Rightarrow> Date \<Rightarrow> EventStatus \<Rightarrow> CalendarEvent" where
  "mkEvent i s e st =
     \<lparr>e_id = i, e_summary = ''Meeting'', e_start = Some s, e_end = Some e,
      e_timezone = ''UTC'', e_recurrence = None, e_status = st\<rparr>"

definition mkCalendar :: "string \<Rightarrow> CalendarEvent list \<Rightarrow> ParticipantCalendar" where
  "mkCalendar pid evs =
     \<lparr>p_participantId = pid, p_name = pid, p_timezone = ''UTC'', p_events = evs,
      p_source = ical\<rparr>"

definition mkSlot :: "Date \<Rightarrow> Date \<Rightarrow> real \<Rightarrow> string list \<Rightarrow> TimeSlot" where
  "mkSlot s e sc cs =
     \<lparr>slot_start = s, slot_end = e, score = Num sc, conflicts = cs, timezoneDisplay = []\<rparr>"

definition mkParticipant :: "string \<Rightarrow> string \<Rightarrow> CalendarEvent list \<Rightarrow> ParticipantCalendar" where
  "mkParticipant pid tz evs =
     \<lparr>p_participantId = pid, p_name = pid, p_timezone = tz, p_events = evs, p_source = ical\<rparr>"

text \<open>
  A calendar with the events 10:00 to 11:00 and 10:30 to 11:30 of the first day, a
  cancelled event, and a later event from 13:00 to 14:00 (instants in milliseconds).
\<close>

definition exampleCalendar :: ParticipantCalendar where
  "exampleCalendar =
     mkCalendar ''user1''
       [mkEvent ''late'' 46800000 50400000 confirmed,
        mkEvent ''e1'' 36000000 39600000 confirmed,
        mkEvent ''gone'' 0 86400000 cancelled,
        mkEvent ''e2'' 37800000 41400000 tentative]"

text \<open>
  An event whose two dates are \<open>Invalid Date\<close>, as the parser builds it from
  \<open>DTSTART:20240115Txxxxxx\<close>, and an event whose end only is invalid.
\<close>

definition undatedEvent :: "string \<Rightarrow> CalendarEvent" where
  "undatedEvent i =
     \<lparr>e_id = i, e_summary = ''Meeting'', e_start = None, e_end = None,
      e_timezone = ''UTC'', e_recurrence = None, e_status = confirmed\<rparr>"

definition openEndedEvent :: "string \<Rightarrow> Date \<Rightarrow> CalendarEvent" where
  "openEndedEvent i s =
     \<lparr>e_id = i, e_summary = ''Meeting'', e_start = Some s, e_end = None,
      e_timezone = ''UTC'', e_recurrence = None, e_status = confirmed\<rparr>"

text \<open>An event from 0 to 100, an event without valid dates, and an event from 50 to 150.\<close>

definition invalidDateCalendar :: ParticipantCalendar where
  "invalidDateCalendar =
     mkCalendar ''user1''
       [mkEvent ''a'' 0 100 confirmed, undatedEvent ''x'', mkEvent ''b'' 50 150 confirmed]"

text \<open>An event from 100 to 200, an event without valid dates, and an event from 50 to 150.\<close>

definition unsortedCalendar :: ParticipantCalendar where
  "unsortedCalendar =
     mkCalendar ''user1''
       [mkEvent ''a'' 100 200 confirmed, undatedEvent ''x'', mkEvent ''b'' 50 150 confirmed]"

text \<open>An event from 0 to 10 followed by an event that starts at 5 and has no valid end.\<close>

definition openEndedCalendar :: ParticipantCalendar where
  "openEndedCalendar =
     mkCalendar ''user1'' [mkEvent ''long'' 0 10 confirmed, openEndedEvent ''open'' 5]"

text \<open>The events 10:00 to 11:00 and 10:30 to 11:30 of the first day.\<close>

definition overlapCalendar :: ParticipantCalendar where
  "overlapCalendar =
     mkCalendar ''user1''
       [mkEvent ''e2'' 37800000 41400000 tentative,
        mkEvent ''e1'' 36000000 39600000 confirmed]"

text \<open>Two events that touch: the second starts when the first ends.\<close>

definition touchingCalendar :: ParticipantCalendar where
  "touchingCalendar =
     mkCalendar ''user1'' [mkEvent ''a'' 1 2 confirmed, mkEvent ''b'' 2 3 confirmed]"

text \<open>
  A result whose slots have two, one and no conflicts, in that order.
\<close>

definition exampleResult :: SchedulingResult where
  "exampleResult =
     \<lparr>availableSlots =
        [mkSlot 36000000 39600000 50 [''user1'', ''user2''],
         mkSlot 50400000 54000000 75 [''user1''],
         mkSlot 57600000 61200000 90 []],
      conflictAnalysis =
        \<lparr>totalConflicts = 3,
         participantConflicts = [(''user1'', Some 2), (''user2'', Some 1)],
         conflictsByTimeSlot = []\<rparr>,
      recommendations = []\<rparr>"

definition examplePreferences :: MeetingPreferences where
  "examplePreferences =
     \<lparr>duration = 60, timeRangeStart = ''09:00'', timeRangeEnd = ''17:00'',
      excludeWeekends = True, excludedDates = [], bufferTime = 0,
      preferredTimezones = [''America/New_York'']\<rparr>"

text \<open>
  Stand-ins for the collaborators: the busy periods of a participant are those that
  \<open>generateBusyPeriods\<close> builds from the events, and a formatted date is the name of the
  zone.
\<close>

definition exampleCollaborators :: Collaborators where
  "exampleCollaborators =
     \<lparr>getBusyPeriods = (\<lambda>events searchRange. Inr (generateBusyPeriods (mkCalendar [] events))),
      formatInTimeZone = (\<lambda>date tz pattern. Some tz),
      format = (\<lambda>date pattern. ''UTC'')\<rparr>"

definition twoFreeParticipants :: "ParticipantCalendar list" where
  "twoFreeParticipants =
     [mkParticipant ''user1'' ''America/New_York'' [],
      mkParticipant ''user2'' ''America/New_York'' []]"

text \<open>Monday 15 January 2024, 00:00 UTC, and the range from then to 23:59:59 of that day.\<close>

definition monday :: Date where
  "monday = 1705276800000"

definition mondayRange :: DateRange where
  "mondayRange = \<lparr>range_start = monday, range_end = monday + 86399000\<rparr>"

text \<open>A weekly rule from the epoch on, written out for six weeks, on an event of one hour.\<close>

definition noOptions :: RRuleOptions where
  "noOptions =
     \<lparr>dtstart = None, freq = None, interval = None, count = None, until = None,
      byweekday = None, bymonthday = None, bymonth = None\<rparr>"

definition weeklyEvent :: CalendarEvent where
  "weeklyEvent =
     (mkEvent ''weekly'' 0 3600000 confirmed)
       \<lparr>e_recurrence :=
          Some (RRuleObject (noOptions\<lparr>dtstart := Some 0, freq := Some (LNum 2)\<rparr>)
                  [0, 604800000, 1209600000, 1814400000, 2419200000, 3024000000])\<rparr>"

text \<open>
  A library whose \<open>RRule\<close> constructor accepts every options object (the rule has no
  occurrence) and whose \<open>parseISO\<close> accepts nothing.
\<close>

definition acceptingLib :: ParserLib where
  "acceptingLib =
     \<lparr>newRRule = (\<lambda>opts. Inr (RRuleObject opts [])), parseISO = (\<lambda>s. None),
      randomToken = ''abc1234''\<rparr>"

definition newline :: string where
  "newline = [CHR 0x0A]"

text \<open>A calendar of one event that recurs with a frequency the parser does not know.\<close>

definition bogusFrequencyText :: string where
  "bogusFrequencyText =
     ''BEGIN:VCALENDAR'' @ newline @ ''BEGIN:VEVENT'' @ newline @ ''UID:e1'' @ newline
     @ ''DTSTART:20240115T100000Z'' @ newline @ ''RRULE:FREQ=BOGUS'' @ newline
     @ ''END:VEVENT'' @ newline @ ''END:VCALENDAR''"

text \<open>A calendar with both container markers whose only event has two \<open>DTSTART\<close> lines.\<close>

definition twoDtstartText :: string where
  "twoDtstartText =
     ''BEGIN:VCALENDAR'' @ newline @ ''BEGIN:VEVENT'' @ newline @ ''UID:e1'' @ newline
     @ ''DTSTART:20240115T100000Z'' @ newline @ ''DTSTART:20240115T110000Z'' @ newline
     @ ''END:VEVENT'' @ newline @ ''END:VCALENDAR''"

text \<open>
  A calendar with an event without \<open>UID\<close>, an event with a date that does not parse, and
  a good event.
\<close>

definition mixedText :: string where
  "mixedText =
     ''BEGIN:VCALENDAR'' @ newline
     @ ''BEGIN:VEVENT'' @ newline @ ''DTSTART:20240115T100000Z'' @ newline @ ''END:VEVENT'' @ newline
     @ ''BEGIN:VEVENT'' @ newline @ ''UID:bad'' @ newline @ ''DTSTART:yesterday'' @ newline
     @ ''END:VEVENT'' @ newline
     @ ''BEGIN:VEVENT'' @ newline @ ''UID:e1'' @ newline @ ''DTSTART:20240115T100000Z'' @ newline
     @ ''DTEND:20240115T110000Z'' @ newline @ ''END:VEVENT'' @ newline
     @ ''END:VCALENDAR''"



section \<open>Dates that hold a number\<close>

lemma js_le_Num [simp]: "js_le (Num x) (Num y) \<longleftrightarrow> x \<le> y"
  by (auto simp: js_le_def)

lemma dateLt_Some [simp]: "dateLt (Some a) (Some b) \<longleftrightarrow> a < b"
  by (simp add: dateLt_def getTime_def)

lemma dateLe_Some [simp]: "dateLe (Some a) (Some b) \<longleftrightarrow> a \<le> b"
  by (simp add: dateLe_def getTime_def)

lemma dateLt_None [simp]: "\<not> dateLt None b" "\<not> dateLt a None"
  by (cases b; cases a; simp add: dateLt_def getTime_def)+

lemma dateLe_None [simp]: "\<not> dateLe None b" "\<not> dateLe a None"
  by (simp_all add: dateLe_def js_le_def getTime_def)

lemma validDate_Some: "validDate d \<Longrightarrow> d = Some (timeOf d)"
  by (cases d) (simp_all add: validDate_def timeOf_def)

lemma validDate_iff: "validDate d \<longleftrightarrow> (\<exists>t. d = Some t \<and> \<bar>t\<bar> \<le> MAX_TIME)"
  by (cases d) (simp_all add: validDate_def)

lemma newDateFromTime_int:
  "\<bar>t\<bar> \<le> MAX_TIME \<Longrightarrow> newDateFromTime (Num (real_of_int t)) = Some t"
proof -
  assume a: "\<bar>t\<bar> \<le> MAX_TIME"
  then have "\<bar>real_of_int t\<bar> \<le> real_of_int MAX_TIME"
    by (metis of_int_abs of_int_le_iff)
  then show ?thesis by (simp add: newDateFromTime_def)
qed

lemma newDate_max:
  "validDate a \<Longrightarrow> validDate b \<Longrightarrow>
   newDateFromTime (Math_max (getTime a) (getTime b)) = Some (max (timeOf a) (timeOf b))"
  by (auto simp: validDate_iff getTime_def timeOf_def max_def intro!: newDateFromTime_int)

lemma newDate_min:
  "validDate a \<Longrightarrow> validDate b \<Longrightarrow>
   newDateFromTime (Math_min (getTime a) (getTime b)) = Some (min (timeOf a) (timeOf b))"
  by (auto simp: validDate_iff getTime_def timeOf_def min_def intro!: newDateFromTime_int)

lemma validDate_max: "validDate a \<Longrightarrow> validDate b \<Longrightarrow> validDate (Some (max (timeOf a) (timeOf b)))"
  by (auto simp: validDate_iff timeOf_def max_def)

lemma validDate_min: "validDate a \<Longrightarrow> validDate b \<Longrightarrow> validDate (Some (min (timeOf a) (timeOf b)))"
  by (auto simp: validDate_iff timeOf_def min_def)

lemma dateLe_valid: "validDate a \<Longrightarrow> validDate b \<Longrightarrow> dateLe a b \<longleftrightarrow> timeOf a \<le> timeOf b"
  by (auto simp: validDate_iff timeOf_def)

lemma dateLt_valid: "validDate a \<Longrightarrow> validDate b \<Longrightarrow> dateLt a b \<longleftrightarrow> timeOf a < timeOf b"
  by (auto simp: validDate_iff timeOf_def)

section \<open>Sorting with a comparator\<close>

lemma sortWith_Nil [simp]: "sortWith cmp [] = []"
  by (simp add: sortWith_def)

lemma sortWith_Cons [simp]: "sortWith cmp (x # xs) = insertSorted cmp x (sortWith cmp xs)"
  by (simp add: sortWith_def)

lemma set_insertSorted: "set (insertSorted cmp x ys) = insert x (set ys)"
  by (induction ys) auto

lemma set_sortWith: "set (sortWith cmp xs) = set xs"
  by (induction xs) (auto simp: set_insertSorted)

lemma length_insertSorted: "length (insertSorted cmp x ys) = Suc (length ys)"
  by (induction ys) auto

lemma length_sortWith: "length (sortWith cmp xs) = length xs"
  by (induction xs) (auto simp: length_insertSorted)

text \<open>
  On events whose start dates hold a number, the sort by start of the calendar processor
  is the stable sort by the key \<open>start\<close>.
\<close>

lemma insertSorted_by_start:
  "validDate (e_start x) \<Longrightarrow> \<forall>y\<in>set ys. validDate (e_start y) \<Longrightarrow>
   insertSorted byStart x ys = insort_key (\<lambda>e. timeOf (e_start e)) x ys"
  by (induction ys) (auto simp: byStart_def js_sub_def validDate_iff getTime_def timeOf_def)

lemma sortByStart_valid:
  "\<forall>e\<in>set evs. validDate (e_start e) \<Longrightarrow>
   sortByStart evs = sort_key (\<lambda>e. timeOf (e_start e)) evs"
proof (induction evs)
  case Nil show ?case by (simp add: sortByStart_def)
next
  case (Cons e evs)
  then have ih: "sortWith byStart evs = sort_key (\<lambda>e. timeOf (e_start e)) evs"
    by (simp add: sortByStart_def)
  have "\<forall>y\<in>set (sortWith byStart evs). validDate (e_start y)"
    using Cons.prems by (simp add: set_sortWith)
  then have "insertSorted byStart e (sortWith byStart evs) =
      insort_key (\<lambda>e. timeOf (e_start e)) e (sortWith byStart evs)"
    using Cons.prems by (intro insertSorted_by_start) auto
  then show ?case by (simp add: sortByStart_def ih)
qed

lemma sorted_wrt_dateLe:
  "\<forall>e\<in>set evs. validDate (e_start e) \<Longrightarrow>
   sorted_wrt (\<lambda>a b. dateLe (e_start a) (e_start b)) evs \<longleftrightarrow>
   sorted (map (\<lambda>e. timeOf (e_start e)) evs)"
  by (induction evs) (auto simp: dateLe_valid)

lemma sortByStart_sorted:
  "\<forall>e\<in>set evs. validDate (e_start e) \<Longrightarrow> startSorted (sortByStart evs)"
  by (simp add: startSorted_def sortByStart_valid sorted_wrt_dateLe)

lemma sortByStart_id:
  "startSorted evs \<Longrightarrow> \<forall>e\<in>set evs. validDate (e_start e) \<Longrightarrow> sortByStart evs = evs"
  by (simp add: startSorted_def sortByStart_valid sorted_wrt_dateLe sort_key_id_if_sorted)

section \<open>Busy-period construction\<close>

lemma busyLoop_acc: "busyLoop pid acc cur es = acc @ busyLoop pid [] cur es"
proof (induction es arbitrary: acc cur)
  case Nil show ?case by simp
next
  case (Cons e es)
  show ?case
  proof (cases "dateLe (e_start e) (bp_end cur)")
    case True
    then show ?thesis using Cons.IH[of acc] by simp
  next
    case False
    then show ?thesis using Cons.IH[of "acc @ [cur]"] Cons.IH[of "[cur]"] by simp
  qed
qed

lemma span_Some: "span (Some s) (Some e) = {t. s \<le> t \<and> t < e}"
  by (simp add: span_def)

lemma span_valid:
  "validDate s \<Longrightarrow> validDate e \<Longrightarrow> span s e = {t. timeOf s \<le> t \<and> t < timeOf e}"
  by (auto simp: validDate_iff timeOf_def span_Some)

lemma span_merge:
  "cs \<le> s \<Longrightarrow> s \<le> ce \<Longrightarrow>
   {t. cs \<le> t \<and> t < max ce e} = {t. cs \<le> t \<and> t < ce} \<union> {t. s \<le> t \<and> t < (e::int)}"
  by auto

text \<open>
  The loop on valid events that are sorted by start and start no earlier than the current
  period: the periods are valid, each ends before the next one starts, and their spans
  cover what the current period and the events cover.
\<close>

lemma busyLoop_props:
  assumes "\<forall>e\<in>set es. validEvent e" and "validPeriod cur"
    and "sorted (map (\<lambda>e. timeOf (e_start e)) es)"
    and "\<forall>e\<in>set es. timeOf (bp_start cur) \<le> timeOf (e_start e)"
  shows "sorted_wrt gapBetween (busyLoop pid [] cur es) \<and>
   (\<forall>p\<in>set (busyLoop pid [] cur es).
      validPeriod p \<and> timeOf (bp_start cur) \<le> timeOf (bp_start p)) \<and>
   (\<Union>p\<in>set (busyLoop pid [] cur es). span (bp_start p) (bp_end p)) =
     span (bp_start cur) (bp_end cur) \<union> (\<Union>e\<in>set es. span (e_start e) (e_end e))"
  using assms
proof (induction es arbitrary: cur)
  case Nil then show ?case by simp
next
  case (Cons e es)
  have ve: "validDate (e_start e)" "validDate (e_end e)"
    and vc: "validDate (bp_start cur)" "validDate (bp_end cur)"
    using Cons.prems by (auto simp: validEvent_def validPeriod_def)
  have ves: "\<forall>x\<in>set es. validEvent x" and srt: "sorted (map (\<lambda>e. timeOf (e_start e)) es)"
    and le: "\<forall>x\<in>set es. timeOf (e_start e) \<le> timeOf (e_start x)"
    and ce: "timeOf (bp_start cur) \<le> timeOf (e_start e)"
    using Cons.prems by auto
  show ?case
  proof (cases "dateLe (e_start e) (bp_end cur)")
    case True
    let ?c = "cur\<lparr>bp_end := newDateFromTime (Math_max (getTime (bp_end cur)) (getTime (e_end e))),
                  bp_eventIds := bp_eventIds cur @ [e_id e]\<rparr>"
    have end': "bp_end ?c = Some (max (timeOf (bp_end cur)) (timeOf (e_end e)))"
      using newDate_max[OF vc(2) ve(2)] by simp
    have vc': "validPeriod ?c"
      using vc(1) validDate_max[OF vc(2) ve(2)] end' by (simp add: validPeriod_def)
    have "\<forall>x\<in>set es. timeOf (bp_start ?c) \<le> timeOf (e_start x)"
      using le ce by fastforce
    from Cons.IH[OF ves vc' srt this]
    have ih1: "sorted_wrt gapBetween (busyLoop pid [] ?c es)"
      and ih2: "\<forall>p\<in>set (busyLoop pid [] ?c es).
          validPeriod p \<and> timeOf (bp_start cur) \<le> timeOf (bp_start p)"
      and ih3: "(\<Union>p\<in>set (busyLoop pid [] ?c es). span (bp_start p) (bp_end p)) =
          span (bp_start ?c) (bp_end ?c) \<union> (\<Union>e\<in>set es. span (e_start e) (e_end e))"
      by simp_all
    have le2: "timeOf (e_start e) \<le> timeOf (bp_end cur)"
      using True ve(1) vc(2) by (simp add: dateLe_valid)
    obtain cs cf s f where o: "bp_start cur = Some cs" "bp_end cur = Some cf"
      "e_start e = Some s" "e_end e = Some f"
      using vc ve by (auto simp: validDate_iff)
    have "span (bp_start ?c) (bp_end ?c) =
        span (bp_start cur) (bp_end cur) \<union> span (e_start e) (e_end e)"
      unfolding end' using span_merge[of cs s cf f] ce le2
      by (simp add: o span_Some timeOf_def)
    then have "(\<Union>p\<in>set (busyLoop pid [] ?c es). span (bp_start p) (bp_end p)) =
        span (bp_start cur) (bp_end cur)
          \<union> (\<Union>x\<in>set (e # es). span (e_start x) (e_end x))"
      using ih3 by (simp add: Un_assoc)
    then show ?thesis using True ih1 ih2 by simp
  next
    case False
    let ?n = "\<lparr>bp_participantId = pid, bp_start = e_start e, bp_end = e_end e,
               bp_eventIds = [e_id e]\<rparr>"
    have vn: "validPeriod ?n" using ve by (simp add: validPeriod_def)
    have "\<forall>x\<in>set es. timeOf (bp_start ?n) \<le> timeOf (e_start x)" using le by simp
    from Cons.IH[OF ves vn srt this]
    have ih1: "sorted_wrt gapBetween (busyLoop pid [] ?n es)"
      and ih2: "\<forall>p\<in>set (busyLoop pid [] ?n es).
          validPeriod p \<and> timeOf (e_start e) \<le> timeOf (bp_start p)"
      and ih3: "(\<Union>p\<in>set (busyLoop pid [] ?n es). span (bp_start p) (bp_end p)) =
          span (e_start e) (e_end e) \<union> (\<Union>e\<in>set es. span (e_start e) (e_end e))"
      by simp_all
    have eq: "busyLoop pid [] cur (e # es) = cur # busyLoop pid [] ?n es"
      using False busyLoop_acc[of pid "[cur]" ?n es] by simp
    have lt: "timeOf (bp_end cur) < timeOf (e_start e)"
      using False ve(1) vc(2) by (simp add: dateLe_valid)
    have gap: "\<forall>q\<in>set (busyLoop pid [] ?n es). gapBetween cur q"
    proof
      fix q assume q: "q \<in> set (busyLoop pid [] ?n es)"
      then have vq: "validDate (bp_start q)" and "timeOf (e_start e) \<le> timeOf (bp_start q)"
        using ih2 by (auto simp: validPeriod_def)
      then show "gapBetween cur q"
        using lt ce vc by (simp add: gapBetween_def dateLe_valid dateLt_valid)
    qed
    have "\<forall>p\<in>set (cur # busyLoop pid [] ?n es).
        validPeriod p \<and> timeOf (bp_start cur) \<le> timeOf (bp_start p)"
      using ih2 ce Cons.prems(2) by fastforce
    then show ?thesis unfolding eq using ih1 ih3 gap by simp
  qed
qed

lemma generateBusyPeriods_props:
  assumes "\<forall>e\<in>set (nonCancelled calendar). validEvent e"
  shows "sorted_wrt gapBetween (generateBusyPeriods calendar) \<and>
   (\<forall>p\<in>set (generateBusyPeriods calendar). validPeriod p) \<and>
   (\<Union>p\<in>set (generateBusyPeriods calendar). span (bp_start p) (bp_end p)) =
     (\<Union>e\<in>set (nonCancelled calendar). span (e_start e) (e_end e))"
proof -
  let ?key = "\<lambda>e. timeOf (e_start e)"
  have vs: "\<forall>e\<in>set (nonCancelled calendar). validDate (e_start e)"
    using assms by (simp add: validEvent_def)
  have srt: "sortByStart (nonCancelled calendar) = sort_key ?key (nonCancelled calendar)"
    using vs by (rule sortByStart_valid)
  show ?thesis
  proof (cases "sortByStart (nonCancelled calendar)")
    case Nil
    then have "nonCancelled calendar = []"
      by (metis sortByStart_def length_0_conv length_sortWith)
    then show ?thesis using Nil by (simp add: generateBusyPeriods_def nonCancelled_def)
  next
    case (Cons e0 es)
    let ?c = "\<lparr>bp_participantId = p_participantId calendar, bp_start = e_start e0,
               bp_end = e_end e0, bp_eventIds = [e_id e0]\<rparr>"
    have set_eq: "set (nonCancelled calendar) = set (e0 # es)"
      using Cons by (metis sortByStart_def set_sortWith)
    have "sorted (map ?key (e0 # es))"
      using Cons srt sorted_sort_key[of ?key "nonCancelled calendar"] by simp
    then have s: "sorted (map ?key es)" "\<forall>e\<in>set es. timeOf (bp_start ?c) \<le> ?key e" by auto
    have v: "\<forall>e\<in>set es. validEvent e" "validPeriod ?c"
      using assms set_eq by (auto simp: validPeriod_def validEvent_def)
    have g: "generateBusyPeriods calendar = busyLoop (p_participantId calendar) [] ?c es"
      using Cons by (simp add: generateBusyPeriods_def nonCancelled_def)
    show ?thesis
      unfolding g using busyLoop_props[OF v s, of "p_participantId calendar"] set_eq by simp
  qed
qed

lemma exampleCalendar_busy:
  "generateBusyPeriods exampleCalendar =
     [\<lparr>bp_participantId = ''user1'', bp_start = Some 36000000, bp_end = Some 41400000,
       bp_eventIds = [''e1'', ''e2'']\<rparr>,
      \<lparr>bp_participantId = ''user1'', bp_start = Some 46800000, bp_end = Some 50400000,
       bp_eventIds = [''late'']\<rparr>]"
  by code_simp

text \<open>
  C3 (as amended).  For every participant calendar whose events that are not cancelled
  hold valid dates, the busy periods that \<open>generateBusyPeriods\<close> returns hold valid dates
  and are sorted by start; any two of them do not overlap, and the earlier one ends
  strictly before the later one starts, so that touching intervals never stay separate;
  the union of their spans is the union of the spans of the participant's events that are
  not cancelled; and in the loop, an event whose start is at most the end of the current
  period extends that period instead of opening a new one.
\<close>

theorem generateBusyPeriods_merge_invariant:
  assumes "\<forall>event\<in>set (nonCancelled calendar). validEvent event"
  shows "(\<forall>p\<in>set (generateBusyPeriods calendar). validPeriod p) \<and>
   sorted_wrt (\<lambda>p q. dateLe (bp_start p) (bp_start q)) (generateBusyPeriods calendar) \<and>
   (\<forall>i j. i < j \<and> j < length (generateBusyPeriods calendar) \<longrightarrow>
      \<not> bpOverlap (generateBusyPeriods calendar ! i) (generateBusyPeriods calendar ! j) \<and>
      dateLt (bp_end (generateBusyPeriods calendar ! i))
             (bp_start (generateBusyPeriods calendar ! j))) \<and>
   (\<Union>p\<in>set (generateBusyPeriods calendar). span (bp_start p) (bp_end p)) =
     (\<Union>e\<in>set (nonCancelled calendar). span (e_start e) (e_end e)) \<and>
   (dateLe (e_start e) (bp_end cur) \<longrightarrow>
      busyLoop pid acc cur (e # es) =
        busyLoop pid acc
          (cur\<lparr>bp_end := newDateFromTime (Math_max (getTime (bp_end cur)) (getTime (e_end e))),
               bp_eventIds := bp_eventIds cur @ [e_id e]\<rparr>) es)"
proof -
  let ?ps = "generateBusyPeriods calendar"
  have sw: "sorted_wrt gapBetween ?ps" and vp: "\<forall>p\<in>set ?ps. validPeriod p"
    and un: "(\<Union>p\<in>set ?ps. span (bp_start p) (bp_end p)) =
     (\<Union>e\<in>set (nonCancelled calendar). span (e_start e) (e_end e))"
    using generateBusyPeriods_props[OF assms] by auto
  have nth: "\<And>i j. i < j \<Longrightarrow> j < length ?ps \<Longrightarrow> gapBetween (?ps ! i) (?ps ! j)"
    using sw by (simp add: sorted_wrt_iff_nth_less)
  have 1: "sorted_wrt (\<lambda>p q. dateLe (bp_start p) (bp_start q)) ?ps"
    using sw by (rule sorted_wrt_mono_rel[rotated]) (simp add: gapBetween_def)
  have 2: "\<forall>i j. i < j \<and> j < length ?ps \<longrightarrow>
      \<not> bpOverlap (?ps ! i) (?ps ! j) \<and> dateLt (bp_end (?ps ! i)) (bp_start (?ps ! j))"
  proof (intro allI impI)
    fix i j assume ij: "i < j \<and> j < length ?ps"
    then have g: "gapBetween (?ps ! i) (?ps ! j)" using nth by simp
    have "validPeriod (?ps ! i)" "validPeriod (?ps ! j)" using vp ij by simp_all
    then show "\<not> bpOverlap (?ps ! i) (?ps ! j) \<and> dateLt (bp_end (?ps ! i)) (bp_start (?ps ! j))"
      using g by (auto simp: gapBetween_def bpOverlap_def validPeriod_def validDate_iff)
  qed
  show ?thesis using vp 1 2 un by simp
qed

theorem generateBusyPeriods_merge_invariant_witness:
  "list_all validEvent (nonCancelled exampleCalendar) \<and>
   length (generateBusyPeriods exampleCalendar) = 2 \<and>
   \<not> bpOverlap (generateBusyPeriods exampleCalendar ! 0) (generateBusyPeriods exampleCalendar ! 1) \<and>
   dateLt (bp_end (generateBusyPeriods exampleCalendar ! 0))
          (bp_start (generateBusyPeriods exampleCalendar ! 1)) \<and>
   busyLoop ''user1'' []
     \<lparr>bp_participantId = ''user1'', bp_start = Some 0, bp_end = Some 10, bp_eventIds = [''a'']\<rparr>
     [mkEvent ''b'' 10 20 confirmed] =
   [\<lparr>bp_participantId = ''user1'', bp_start = Some 0, bp_end = Some 20,
     bp_eventIds = [''a'', ''b'']\<rparr>]"
proof -
  have v: "\<forall>event\<in>set (nonCancelled exampleCalendar). validEvent event"
    by (simp add: nonCancelled_def exampleCalendar_def mkCalendar_def mkEvent_def validEvent_def
          validDate_def MAX_TIME_def)
  have len: "length (generateBusyPeriods exampleCalendar) = 2"
    by (simp add: exampleCalendar_busy)
  have touch: "dateLe (e_start (mkEvent ''b'' 10 20 confirmed))
      (bp_end \<lparr>bp_participantId = ''user1'', bp_start = Some 0, bp_end = Some 10,
               bp_eventIds = [''a'']\<rparr>)"
    by (simp add: mkEvent_def)
  have m: "newDateFromTime (Math_max (getTime (Some 10)) (getTime (Some 20))) = Some 20"
    by (simp add: getTime_def newDateFromTime_def MAX_TIME_def)
  show ?thesis
    using v[folded list_all_iff] len touch
      generateBusyPeriods_merge_invariant[OF v, where e="mkEvent ''b'' 10 20 confirmed"
        and cur="\<lparr>bp_participantId = ''user1'', bp_start = Some 0, bp_end = Some 10,
                  bp_eventIds = [''a'']\<rparr>"
        and pid="''user1''" and acc="[]" and es="[]"]
    by (simp add: mkEvent_def m)
qed

text \<open>
  C3 as stated fails: the second event of this calendar has no valid dates (it passes the
  cleaning step all the same), the comparator of the sort returns \<open>NaN\<close> for it and the
  order stays, the test \<open>event.start <= currentPeriod.end\<close> is false at it and after it,
  and the busy periods from 0 to 100 and from 50 to 150 stay separate and overlap.
\<close>

theorem generateBusyPeriods_counterexample:
  "validateAndCleanEvents (p_events invalidDateCalendar) = p_events invalidDateCalendar \<and>
   generateBusyPeriods invalidDateCalendar =
     [\<lparr>bp_participantId = ''user1'', bp_start = Some 0, bp_end = Some 100,
       bp_eventIds = [''a'']\<rparr>,
      \<lparr>bp_participantId = ''user1'', bp_start = None, bp_end = None, bp_eventIds = [''x'']\<rparr>,
      \<lparr>bp_participantId = ''user1'', bp_start = Some 50, bp_end = Some 150,
       bp_eventIds = [''b'']\<rparr>] \<and>
   bpOverlap
     \<lparr>bp_participantId = ''user1'', bp_start = Some 0, bp_end = Some 100, bp_eventIds = [''a'']\<rparr>
     \<lparr>bp_participantId = ''user1'', bp_start = Some 50, bp_end = Some 150,
      bp_eventIds = [''b'']\<rparr>"
  by code_simp

section \<open>Conflict detection\<close>

lemma conflictInner_acc:
  "conflictInner pid e1 acc rest = acc @ conflictInner pid e1 [] rest"
proof (induction rest arbitrary: acc)
  case Nil show ?case by simp
next
  case (Cons e2 rest)
  show ?case
    using Cons.IH[of "acc @ [mkConflict pid e1 e2]"] Cons.IH[of "[mkConflict pid e1 e2]"]
      Cons.IH[of acc]
    by simp
qed

lemma overlap_proper:
  assumes "properEvent e1" and "properEvent e2"
  shows "overlapStartOf e1 e2 = Some (max (timeOf (e_start e1)) (timeOf (e_start e2)))"
    and "overlapEndOf e1 e2 = Some (min (timeOf (e_end e1)) (timeOf (e_end e2)))"
  using assms
  by (simp_all add: overlapStartOf_def overlapEndOf_def properEvent_def validEvent_def
        newDate_max newDate_min)

text \<open>
  The inner loop for an event and the later events of a list sorted by start, all of them
  valid and starting before they end: the conflicts pushed are those with the events that
  start before the first one ends.
\<close>

lemma conflictInner_filter:
  assumes "properEvent e1" and "\<forall>e\<in>set rest. properEvent e"
    and "sorted (map (\<lambda>e. timeOf (e_start e)) rest)"
    and "\<forall>e\<in>set rest. timeOf (e_start e1) \<le> timeOf (e_start e)"
  shows "conflictInner pid e1 [] rest =
     map (mkConflict pid e1) (filter (\<lambda>e2. dateLt (e_start e2) (e_end e1)) rest)"
  using assms(2-4)
proof (induction rest)
  case Nil show ?case by simp
next
  case (Cons e2 rest)
  have p2: "properEvent e2" and ps: "\<forall>e\<in>set rest. properEvent e"
    and s: "sorted (map (\<lambda>e. timeOf (e_start e)) rest)"
    and l: "\<forall>e\<in>set rest. timeOf (e_start e1) \<le> timeOf (e_start e)"
    and le: "\<forall>e\<in>set rest. timeOf (e_start e2) \<le> timeOf (e_start e)"
    and l1: "timeOf (e_start e1) \<le> timeOf (e_start e2)"
    using Cons.prems by auto
  have v1: "validDate (e_start e1)" "validDate (e_end e1)"
    and o1: "timeOf (e_start e1) < timeOf (e_end e1)"
    using assms(1) by (auto simp: properEvent_def validEvent_def dateLt_valid)
  have v2: "validDate (e_start e2)" "validDate (e_end e2)"
    and o2: "timeOf (e_start e2) < timeOf (e_end e2)"
    using p2 by (auto simp: properEvent_def validEvent_def dateLt_valid)
  show ?case
  proof (cases "dateLe (e_end e1) (e_start e2)")
    case True
    then have "timeOf (e_end e1) \<le> timeOf (e_start e2)" using v1 v2 by (simp add: dateLe_valid)
    then have "\<forall>e\<in>set (e2 # rest). \<not> dateLt (e_start e) (e_end e1)"
      using le v1 v2 ps
      by (fastforce simp: properEvent_def validEvent_def dateLt_valid)
    then have "filter (\<lambda>e2. dateLt (e_start e2) (e_end e1)) (e2 # rest) = []"
      by (simp add: filter_empty_conv)
    then show ?thesis using True by simp
  next
    case False
    then have lt: "timeOf (e_start e2) < timeOf (e_end e1)"
      using v1 v2 by (simp add: dateLe_valid)
    then have k: "dateLt (e_start e2) (e_end e1)" using v1 v2 by (simp add: dateLt_valid)
    have "dateLt (overlapStartOf e1 e2) (overlapEndOf e1 e2)"
      using overlap_proper[OF assms(1) p2] lt o1 o2 l1 by simp
    then show ?thesis
      using False k Cons.IH[OF ps s l]
        conflictInner_acc[of pid e1 "[mkConflict pid e1 e2]" rest]
      by simp
  qed
qed

lemma conflictOuter_acc:
  "conflictOuter pid acc evs = acc @ conflictOuter pid [] evs"
proof (induction evs arbitrary: acc)
  case Nil show ?case by simp
next
  case (Cons e evs)
  show ?case
    using Cons.IH[of "conflictInner pid e acc evs"] Cons.IH[of "conflictInner pid e [] evs"]
      conflictInner_acc[of pid e acc evs] by simp
qed

lemma conflictOuter_pairs:
  "\<forall>e\<in>set evs. properEvent e \<Longrightarrow> sorted (map (\<lambda>e. timeOf (e_start e)) evs) \<Longrightarrow>
   conflictOuter pid [] evs = map (\<lambda>(e1, e2). mkConflict pid e1 e2) (specPairs evs)"
proof (induction evs)
  case Nil show ?case by (simp add: specPairs_def)
next
  case (Cons e evs)
  have p: "properEvent e" "\<forall>x\<in>set evs. properEvent x"
    and s: "sorted (map (\<lambda>e. timeOf (e_start e)) evs)"
      "\<forall>x\<in>set evs. timeOf (e_start e) \<le> timeOf (e_start x)"
    using Cons.prems by auto
  have "conflictOuter pid [] (e # evs) = conflictInner pid e [] evs @ conflictOuter pid [] evs"
    using conflictOuter_acc[of pid "conflictInner pid e [] evs" evs] by simp
  then show ?case
    using Cons.IH[OF p(2) s(1)] conflictInner_filter[OF p s, of pid]
    by (simp add: specPairs_def comp_def)
qed

lemma sweepPairs_member:
  "sorted (map (\<lambda>e. timeOf (e_start e)) evs) \<Longrightarrow> (e1, e2) \<in> set (sweepPairs keep evs) \<Longrightarrow>
   keep e1 e2 \<and> timeOf (e_start e1) \<le> timeOf (e_start e2) \<and> e1 \<in> set evs \<and> e2 \<in> set evs"
  by (induction evs) auto

lemma detect_eq:
  assumes "\<forall>e\<in>set (p_events calendar). properEvent e"
  shows "detectParticipantConflicts calendar =
     map (\<lambda>(e1, e2). mkConflict (p_participantId calendar) e1 e2)
       (specPairs (sortByStart (p_events calendar)))"
proof -
  have v: "\<forall>e\<in>set (p_events calendar). validDate (e_start e)"
    using assms by (simp add: properEvent_def validEvent_def)
  have "sorted (map (\<lambda>e. timeOf (e_start e)) (sortByStart (p_events calendar)))"
    using v by (simp add: sortByStart_valid)
  moreover have "\<forall>e\<in>set (sortByStart (p_events calendar)). properEvent e"
    using assms by (simp add: sortByStart_def set_sortWith)
  ultimately show ?thesis
    unfolding detectParticipantConflicts_def by (intro conflictOuter_pairs)
qed

text \<open>
  C4 (as amended).  For every participant calendar whose events hold valid dates and start
  before they end, conflict detection sorts the events by start (a list that is sorted by
  start already is left as it is) and reports exactly the pairs of an event \<open>e1\<close> and a
  later event \<open>e2\<close> of the sorted list with \<open>e2.start < e1.end\<close>, in the order of the
  sweep.  Every reported conflict satisfies \<open>e1.start \<le> e2.start\<close>,
  \<open>e1.start < e2.end\<close> and \<open>e2.start < e1.end\<close>, is never a pair of events that merely
  touch, and carries the overlap window and its length in minutes.
\<close>

theorem detectParticipantConflicts_reports:
  assumes "\<forall>event\<in>set (p_events calendar). properEvent event"
  shows "detectParticipantConflicts calendar =
     map (\<lambda>(e1, e2). mkConflict (p_participantId calendar) e1 e2)
       (specPairs (sortByStart (p_events calendar))) \<and>
   startSorted (sortByStart (p_events calendar)) \<and>
   (startSorted (p_events calendar) \<longrightarrow> sortByStart (p_events calendar) = p_events calendar) \<and>
   (\<forall>c\<in>set (detectParticipantConflicts calendar).
      dateLe (e_start (ec_event1 c)) (e_start (ec_event2 c)) \<and>
      dateLt (e_start (ec_event1 c)) (e_end (ec_event2 c)) \<and>
      dateLt (e_start (ec_event2 c)) (e_end (ec_event1 c)) \<and>
      e_start (ec_event2 c) \<noteq> e_end (ec_event1 c) \<and>
      ec_overlapStart c =
        Some (max (timeOf (e_start (ec_event1 c))) (timeOf (e_start (ec_event2 c)))) \<and>
      ec_overlapEnd c =
        Some (min (timeOf (e_end (ec_event1 c))) (timeOf (e_end (ec_event2 c)))) \<and>
      dateLt (ec_overlapStart c) (ec_overlapEnd c) \<and>
      ec_overlapDuration c =
        Num (real_of_int (timeOf (ec_overlapEnd c) - timeOf (ec_overlapStart c)) / 60000))"
proof -
  let ?evs = "sortByStart (p_events calendar)"
  have v: "\<forall>e\<in>set (p_events calendar). validDate (e_start e)"
    using assms by (simp add: properEvent_def validEvent_def)
  have srt: "sorted (map (\<lambda>e. timeOf (e_start e)) ?evs)"
    using v by (simp add: sortByStart_valid)
  have 1: "detectParticipantConflicts calendar =
     map (\<lambda>(e1, e2). mkConflict (p_participantId calendar) e1 e2) (specPairs ?evs)"
    using assms by (rule detect_eq)
  have 2: "startSorted ?evs" using v by (rule sortByStart_sorted)
  have 3: "startSorted (p_events calendar) \<longrightarrow> ?evs = p_events calendar"
    using v by (simp add: sortByStart_id)
  have 4: "\<forall>c\<in>set (detectParticipantConflicts calendar).
      dateLe (e_start (ec_event1 c)) (e_start (ec_event2 c)) \<and>
      dateLt (e_start (ec_event1 c)) (e_end (ec_event2 c)) \<and>
      dateLt (e_start (ec_event2 c)) (e_end (ec_event1 c)) \<and>
      e_start (ec_event2 c) \<noteq> e_end (ec_event1 c) \<and>
      ec_overlapStart c =
        Some (max (timeOf (e_start (ec_event1 c))) (timeOf (e_start (ec_event2 c)))) \<and>
      ec_overlapEnd c =
        Some (min (timeOf (e_end (ec_event1 c))) (timeOf (e_end (ec_event2 c)))) \<and>
      dateLt (ec_overlapStart c) (ec_overlapEnd c) \<and>
      ec_overlapDuration c =
        Num (real_of_int (timeOf (ec_overlapEnd c) - timeOf (ec_overlapStart c)) / 60000)"
  proof
    fix c assume "c \<in> set (detectParticipantConflicts calendar)"
    then obtain e1 e2 where p: "(e1, e2) \<in> set (specPairs ?evs)"
      and c: "c = mkConflict (p_participantId calendar) e1 e2"
      unfolding 1 by auto
    from sweepPairs_member[OF srt p[unfolded specPairs_def]]
    have k: "dateLt (e_start e2) (e_end e1)" "timeOf (e_start e1) \<le> timeOf (e_start e2)"
      and m: "e1 \<in> set ?evs" "e2 \<in> set ?evs" by auto
    have pr: "properEvent e1" "properEvent e2"
      using m assms by (simp_all add: sortByStart_def set_sortWith)
    obtain s1 f1 s2 f2 where o: "e_start e1 = Some s1" "e_end e1 = Some f1"
      "e_start e2 = Some s2" "e_end e2 = Some f2"
      using pr by (auto simp: properEvent_def validEvent_def validDate_iff)
    have o1: "overlapStartOf e1 e2 = Some (max s1 s2)" "overlapEndOf e1 e2 = Some (min f1 f2)"
      using overlap_proper[OF pr] by (simp_all add: o timeOf_def)
    have lt: "s1 < f1" "s2 < f2" "s2 < f1" "s1 \<le> s2"
      using pr k by (simp_all add: properEvent_def o timeOf_def)
    show "dateLe (e_start (ec_event1 c)) (e_start (ec_event2 c)) \<and>
      dateLt (e_start (ec_event1 c)) (e_end (ec_event2 c)) \<and>
      dateLt (e_start (ec_event2 c)) (e_end (ec_event1 c)) \<and>
      e_start (ec_event2 c) \<noteq> e_end (ec_event1 c) \<and>
      ec_overlapStart c =
        Some (max (timeOf (e_start (ec_event1 c))) (timeOf (e_start (ec_event2 c)))) \<and>
      ec_overlapEnd c =
        Some (min (timeOf (e_end (ec_event1 c))) (timeOf (e_end (ec_event2 c)))) \<and>
      dateLt (ec_overlapStart c) (ec_overlapEnd c) \<and>
      ec_overlapDuration c =
        Num (real_of_int (timeOf (ec_overlapEnd c) - timeOf (ec_overlapStart c)) / 60000)"
      unfolding c using lt
      by (simp add: mkConflict_def Let_def o o1 timeOf_def getTime_def js_sub_def)
  qed
  show ?thesis using 1 2 3 4 by blast
qed

lemma overlapCalendar_conflicts:
  "detectParticipantConflicts overlapCalendar =
     [\<lparr>ec_participantId = ''user1'',
       ec_event1 = mkEvent ''e1'' 36000000 39600000 confirmed,
       ec_event2 = mkEvent ''e2'' 37800000 41400000 tentative,
       ec_overlapStart = Some 37800000, ec_overlapEnd = Some 39600000,
       ec_overlapDuration = Num 30\<rparr>]"
  by (simp add: detectParticipantConflicts_def overlapCalendar_def mkCalendar_def mkEvent_def
        sortByStart_def byStart_def mkConflict_def overlapStartOf_def overlapEndOf_def
        getTime_def js_sub_def newDateFromTime_def MAX_TIME_def Let_def)

theorem detectParticipantConflicts_reports_witness:
  "list_all properEvent (p_events overlapCalendar) \<and>
   list_all properEvent (p_events touchingCalendar) \<and>
   detectParticipantConflicts overlapCalendar =
     [\<lparr>ec_participantId = ''user1'',
       ec_event1 = mkEvent ''e1'' 36000000 39600000 confirmed,
       ec_event2 = mkEvent ''e2'' 37800000 41400000 tentative,
       ec_overlapStart = Some 37800000, ec_overlapEnd = Some 39600000,
       ec_overlapDuration = Num 30\<rparr>] \<and>
   specPairs (sortByStart (p_events overlapCalendar)) =
     [(mkEvent ''e1'' 36000000 39600000 confirmed, mkEvent ''e2'' 37800000 41400000 tentative)] \<and>
   startSorted (p_events touchingCalendar) \<and>
   sortByStart (p_events touchingCalendar) = p_events touchingCalendar \<and>
   detectParticipantConflicts touchingCalendar = []"
proof -
  have po: "\<forall>event\<in>set (p_events overlapCalendar). properEvent event"
    by (simp add: overlapCalendar_def mkCalendar_def mkEvent_def properEvent_def validEvent_def
          validDate_def MAX_TIME_def)
  have pt: "\<forall>event\<in>set (p_events touchingCalendar). properEvent event"
    by (simp add: touchingCalendar_def mkCalendar_def mkEvent_def properEvent_def validEvent_def
          validDate_def MAX_TIME_def)
  have s: "startSorted (p_events touchingCalendar)"
    by (simp add: startSorted_def touchingCalendar_def mkCalendar_def mkEvent_def)
  have m: "\<lparr>ec_participantId = ''user1'',
       ec_event1 = mkEvent ''e1'' 36000000 39600000 confirmed,
       ec_event2 = mkEvent ''e2'' 37800000 41400000 tentative,
       ec_overlapStart = Some 37800000, ec_overlapEnd = Some 39600000,
       ec_overlapDuration = Num 30\<rparr>
     \<in> set (detectParticipantConflicts overlapCalendar)"
    by (simp add: overlapCalendar_conflicts)
  have r: "specPairs (sortByStart (p_events overlapCalendar)) =
     [(mkEvent ''e1'' 36000000 39600000 confirmed, mkEvent ''e2'' 37800000 41400000 tentative)]"
    by (simp add: specPairs_def overlapCalendar_def mkCalendar_def mkEvent_def sortByStart_def
          byStart_def getTime_def js_sub_def)
  have t: "specPairs (p_events touchingCalendar) = []"
    by (simp add: specPairs_def touchingCalendar_def mkCalendar_def mkEvent_def)
  show ?thesis
    using po[folded list_all_iff] pt[folded list_all_iff] s m r t
      detectParticipantConflicts_reports[OF po]
      detectParticipantConflicts_reports[OF pt]
    by (simp add: overlapCalendar_conflicts)
qed

text \<open>
  C4 as stated fails on events that pass the cleaning step.  The list of an event from 0
  to 10 and an event that starts at 5 and whose end is an \<open>Invalid Date\<close> is sorted by
  start, and the pair satisfies \<open>e1.start \<le> e2.start\<close> and \<open>e2.start < e1.end\<close>, but the
  overlap window has no valid end and the pair is not reported.  In the list of an event
  from 100 to 200, an event without valid dates and an event from 50 to 150, the sort
  changes nothing, and the pair of the first and the last event is reported although the
  last one starts before the first.
\<close>

theorem detectParticipantConflicts_counterexample:
  "validateAndCleanEvents (p_events openEndedCalendar) = p_events openEndedCalendar \<and>
   startSorted (p_events openEndedCalendar) \<and>
   sortByStart (p_events openEndedCalendar) = p_events openEndedCalendar \<and>
   specPairs (p_events openEndedCalendar) =
     [(mkEvent ''long'' 0 10 confirmed, openEndedEvent ''open'' 5)] \<and>
   detectParticipantConflicts openEndedCalendar = [] \<and>
   validateAndCleanEvents (p_events unsortedCalendar) = p_events unsortedCalendar \<and>
   sortByStart (p_events unsortedCalendar) = p_events unsortedCalendar \<and>
   detectParticipantConflicts unsortedCalendar =
     [mkConflict ''user1'' (mkEvent ''a'' 100 200 confirmed) (mkEvent ''b'' 50 150 confirmed)] \<and>
   \<not> dateLe (e_start (mkEvent ''a'' 100 200 confirmed)) (e_start (mkEvent ''b'' 50 150 confirmed))"
  by code_simp

section \<open>Alternative suggestions\<close>

lemma worstConflictCount_ge:
  "slot \<in> set slots \<Longrightarrow> length (conflicts slot) \<le> worstConflictCount slots"
  by (induction slots) (auto simp: worstConflictCount_def)

text \<open>
  C9.  Every slot of the list \<open>fewerParticipants\<close> that \<open>findAlternativeSuggestions\<close>
  returns is a slot of the result, has at least one conflict, and has strictly fewer
  conflicts than the largest number of conflicts among the result's available slots.
\<close>

theorem findAlternativeSuggestions_fewer:
  "\<forall>slot\<in>set (fewerParticipants (findAlternativeSuggestions result preferences)).
     slot \<in> set (availableSlots result) \<and>
     0 < length (conflicts slot) \<and>
     length (conflicts slot) < worstConflictCount (availableSlots result)"
proof
  fix slot
  assume "slot \<in> set (fewerParticipants (findAlternativeSuggestions result preferences))"
  then have "slot \<in> set (sortWith byConflictCount
             (filter (\<lambda>slot. length (conflicts slot) > 0
                              \<and> fewerThanFirst (availableSlots result) slot)
                (availableSlots result)))"
    by (auto simp: findAlternativeSuggestions_def dest: in_set_takeD)
  then have m: "slot \<in> set (availableSlots result)" and p: "0 < length (conflicts slot)"
    and f: "fewerThanFirst (availableSlots result) slot"
    by (auto simp: set_sortWith)
  from f obtain first rest where r: "availableSlots result = first # rest"
    and lt: "length (conflicts slot) < length (conflicts first)"
    by (auto simp: fewerThanFirst_def split: list.splits)
  have "length (conflicts first) \<le> worstConflictCount (availableSlots result)"
    by (rule worstConflictCount_ge) (simp add: r)
  then show "slot \<in> set (availableSlots result) \<and> 0 < length (conflicts slot) \<and>
     length (conflicts slot) < worstConflictCount (availableSlots result)"
    using m p lt by simp
qed

lemma exampleResult_fewer:
  "fewerParticipants (findAlternativeSuggestions exampleResult examplePreferences) =
     [mkSlot 50400000 54000000 75 [''user1'']]"
  by (simp add: findAlternativeSuggestions_def exampleResult_def mkSlot_def fewerThanFirst_def
        byConflictCount_def js_of_nat_def js_sub_def)

theorem findAlternativeSuggestions_fewer_witness:
  "fewerParticipants (findAlternativeSuggestions exampleResult examplePreferences) =
     [mkSlot 50400000 54000000 75 [''user1'']] \<and>
   0 < length (conflicts (mkSlot 50400000 54000000 75 [''user1''])) \<and>
   length (conflicts (mkSlot 50400000 54000000 75 [''user1'']))
     < worstConflictCount (availableSlots exampleResult)"
  using findAlternativeSuggestions_fewer[of exampleResult examplePreferences]
  by (simp add: exampleResult_fewer)

section \<open>Scoring\<close>

lemma js_lt_irrefl: "\<not> js_lt a a"
  by (cases a) auto

lemma finalScore_mono:
  "a \<le> b \<Longrightarrow> \<not> js_lt (finalScore (Num a) tb tzb) (finalScore (Num b) tb tzb)"
  by (cases tb; cases tzb) (auto simp: finalScore_def js_sub_def)

lemma score_scoreSlot:
  "score (scoreSlot c preferences participants slot) =
     finalScore
       (js_mul (js_div (js_of_nat (length (conflicts slot))) (js_of_nat (length participants)))
          (Num 50))
       (calculateTimePreferenceBonus slot preferences)
       (calculateTimezoneBonus slot preferences participants)"
  by (simp add: scoreSlot_def finalScore_def Let_def)

lemma bonus_conflicts_irrelevant:
  "calculateTimePreferenceBonus (slot\<lparr>conflicts := cs\<rparr>) preferences =
     calculateTimePreferenceBonus slot preferences"
  "calculateTimezoneBonus (slot\<lparr>conflicts := cs\<rparr>) preferences participants =
     calculateTimezoneBonus slot preferences participants"
  by (simp_all add: calculateTimePreferenceBonus_def calculateTimezoneBonus_def)

text \<open>
  C8.  Two slots that differ in nothing but their lists of conflicts are scored with the
  same preferences and participants: the score of the one with strictly fewer conflicts
  is never lower than the score of the other.
\<close>

theorem scoring_monotone:
  "length cs1 < length cs2 \<Longrightarrow>
   \<not> js_lt (score (scoreSlot c preferences participants (slot\<lparr>conflicts := cs1\<rparr>)))
           (score (scoreSlot c preferences participants (slot\<lparr>conflicts := cs2\<rparr>)))"
proof -
  assume lt: "length cs1 < length cs2"
  let ?tb = "calculateTimePreferenceBonus slot preferences"
  let ?tz = "calculateTimezoneBonus slot preferences participants"
  let ?pen = "\<lambda>cs. js_mul (js_div (js_of_nat (length cs)) (js_of_nat (length participants))) (Num 50)"
  have s: "\<And>cs. score (scoreSlot c preferences participants (slot\<lparr>conflicts := cs\<rparr>)) =
    finalScore (?pen cs) ?tb ?tz"
    by (simp add: score_scoreSlot bonus_conflicts_irrelevant)
  show ?thesis
  proof (cases "length participants = 0")
    case False
    then have "?pen cs1 = Num (real (length cs1) / real (length participants) * 50)"
      "?pen cs2 = Num (real (length cs2) / real (length participants) * 50)"
      by (simp_all add: js_of_nat_def)
    moreover have "real (length cs1) / real (length participants) * 50
        \<le> real (length cs2) / real (length participants) * 50"
      using lt False by (simp add: divide_right_mono)
    ultimately show ?thesis unfolding s using finalScore_mono by simp
  next
    case True
    show ?thesis
    proof (cases "length cs1 = 0")
      case c0: True
      then have "?pen cs1 = NaN" using True by (simp add: js_of_nat_def)
      then have "finalScore (?pen cs1) ?tb ?tz = NaN"
        by (simp add: finalScore_def js_sub_def)
      then show ?thesis unfolding s by simp
    next
      case False
      then have "?pen cs1 = PosInf" "?pen cs2 = PosInf"
        using True lt by (auto simp: js_of_nat_def js_inf_def)
      then show ?thesis unfolding s by (simp add: js_lt_irrefl)
    qed
  qed
qed

lemma parseClock_0900: "parseClock ''09:00'' = (Some 9, Some 0)"
  by (simp add: parseClock_def toNumber_def isDigit_def decimal_def digitVal_def)

lemma parseClock_1700: "parseClock ''17:00'' = (Some 17, Some 0)"
  by (simp add: parseClock_def toNumber_def isDigit_def decimal_def digitVal_def)

lemma example_scores:
  "score (scoreSlot exampleCollaborators examplePreferences twoFreeParticipants
            ((mkSlot (monday + 36000000) (monday + 39600000) 0 [])\<lparr>conflicts := []\<rparr>)) = Num 100"
  "score (scoreSlot exampleCollaborators examplePreferences twoFreeParticipants
            ((mkSlot (monday + 36000000) (monday + 39600000) 0 [])\<lparr>conflicts := [''user1'']\<rparr>))
     = Num 82.5"
  by (simp_all add: scoreSlot_def calculateTimePreferenceBonus_def calculateTimezoneBonus_def
        examplePreferences_def twoFreeParticipants_def mkParticipant_def mkSlot_def monday_def
        parseClock_0900 parseClock_1700 getHours_def getMinutes_def MS_PER_DAY_def
        MS_PER_HOUR_def MS_PER_MINUTE_def js_of_opt_def js_of_nat_def js_of_int_def js_sub_def
        Let_def)

theorem scoring_monotone_witness:
  "length ([] :: string list) < length [''user1''] \<and>
   score (scoreSlot exampleCollaborators examplePreferences twoFreeParticipants
            ((mkSlot (monday + 36000000) (monday + 39600000) 0 [])\<lparr>conflicts := []\<rparr>)) = Num 100 \<and>
   score (scoreSlot exampleCollaborators examplePreferences twoFreeParticipants
            ((mkSlot (monday + 36000000) (monday + 39600000) 0 [])\<lparr>conflicts := [''user1'']\<rparr>))
     = Num 82.5 \<and>
   \<not> js_lt (Num 100) (Num 82.5)"
proof -
  have h: "length ([] :: string list) < length [''user1'']" by simp
  show ?thesis
    using h example_scores
      scoring_monotone[OF h, of exampleCollaborators examplePreferences twoFreeParticipants
        "mkSlot (monday + 36000000) (monday + 39600000) 0 []"]
    by simp
qed

section \<open>Recurrence expansion\<close>

lemma betweenLoop_length:
  "length (betweenLoop lo hi (\<lambda>d i. i < m) result ds) \<le> max (length result) m"
proof (induction ds arbitrary: result)
  case Nil show ?case by simp
next
  case (Cons d ds)
  show ?case using Cons.IH[of result] Cons.IH[of "result @ [d]"] by auto
qed

text \<open>
  C7.  For every event whose recurrence is a rule object, whatever the occurrences of
  the rule and whatever the window, \<open>expandSingleEvent\<close> returns at most
  \<open>maxOccurrences\<close> events.
\<close>

theorem expandSingleEvent_bound:
  "e_recurrence event = Some (RRuleObject opts occs) \<Longrightarrow>
   length (expandSingleEvent event dateRange maxOccurrences) \<le> maxOccurrences"
proof -
  assume r: "e_recurrence event = Some (RRuleObject opts occs)"
  let ?dates = "betweenLoop (range_start dateRange) (addDays (range_end dateRange) 1)
                  (\<lambda>date i. i < maxOccurrences) [] occs"
  have eq: "expandSingleEvent event dateRange maxOccurrences =
      filter (\<lambda>occurrence. eventIntersectsRange occurrence dateRange)
        (map (occurrenceOf event (js_sub (getTime (e_end event)) (getTime (e_start event)))) ?dates)"
    using r by (simp add: expandSingleEvent_def between_def Let_def)
  have "length (expandSingleEvent event dateRange maxOccurrences) \<le> length ?dates"
    unfolding eq by (metis length_filter_le length_map)
  also have "length ?dates \<le> maxOccurrences"
    using betweenLoop_length[of "range_start dateRange" "addDays (range_end dateRange) 1"
        maxOccurrences "[]" occs] by simp
  finally show ?thesis .
qed

lemma weekly_two:
  "map e_start (expandSingleEvent weeklyEvent \<lparr>range_start = 0, range_end = 9000000000\<rparr> 2)
     = [Some 0, Some 604800000]"
  by (simp add: expandSingleEvent_def between_def weeklyEvent_def mkEvent_def Let_def
        addDays_def MS_PER_DAY_def occurrenceOf_def eventIntersectsRange_def getTime_def
        js_sub_def newDateFromTime_def MAX_TIME_def)

theorem expandSingleEvent_bound_witness:
  "e_recurrence weeklyEvent =
     Some (RRuleObject (noOptions\<lparr>dtstart := Some 0, freq := Some (LNum 2)\<rparr>)
             [0, 604800000, 1209600000, 1814400000, 2419200000, 3024000000]) \<and>
   map e_start (expandSingleEvent weeklyEvent \<lparr>range_start = 0, range_end = 9000000000\<rparr> 2)
     = [Some 0, Some 604800000] \<and>
   length (expandSingleEvent weeklyEvent \<lparr>range_start = 0, range_end = 9000000000\<rparr> 2) \<le> 2"
proof -
  have r: "e_recurrence weeklyEvent =
     Some (RRuleObject (noOptions\<lparr>dtstart := Some 0, freq := Some (LNum 2)\<rparr>)
             [0, 604800000, 1209600000, 1814400000, 2419200000, 3024000000])"
    by (simp add: weeklyEvent_def mkEvent_def)
  show ?thesis
    using r weekly_two
      expandSingleEvent_bound[OF r, of "\<lparr>range_start = 0, range_end = 9000000000\<rparr>" 2]
    by simp
qed

section \<open>Validation of a scheduling request\<close>

text \<open>
  C2.  When there is no participant, or the duration is not positive, or the search range
  does not start before it ends, or one of the two clock times does not match the
  pattern, \<open>scheduleOptimalMeeting\<close> rejects with the \<open>SchedulingError\<close> that
  \<open>validateInputs\<close> throws, whose code is one of the four codes of \<open>validateInputs\<close>.
\<close>

theorem scheduleOptimalMeeting_rejects:
  "participants = [] \<or> duration preferences \<le> 0
     \<or> range_start searchRange \<ge> range_end searchRange
     \<or> \<not> timeRegex_test (timeRangeStart preferences)
     \<or> \<not> timeRegex_test (timeRangeEnd preferences) \<Longrightarrow>
   \<exists>err. validateInputs participants preferences searchRange = Some err \<and>
         scheduleOptimalMeeting c participants preferences searchRange = Inl err \<and>
         se_code err \<in> {''NO_PARTICIPANTS'', ''INVALID_DURATION'', ''INVALID_RANGE'',
                         ''INVALID_TIME_FORMAT''}"
  by (auto simp: scheduleOptimalMeeting_def validateInputs_def)

theorem scheduleOptimalMeeting_rejects_witness:
  "\<not> timeRegex_test (timeRangeStart (examplePreferences\<lparr>timeRangeStart := ''25:00''\<rparr>)) \<and>
   scheduleOptimalMeeting exampleCollaborators twoFreeParticipants
     (examplePreferences\<lparr>timeRangeStart := ''25:00''\<rparr>) mondayRange =
     Inl (SchedulingError ''Invalid time range format'' ''INVALID_TIME_FORMAT'') \<and>
   scheduleOptimalMeeting exampleCollaborators [] examplePreferences mondayRange =
     Inl (SchedulingError ''At least one participant is required'' ''NO_PARTICIPANTS'')"
proof -
  have h: "\<not> timeRegex_test (timeRangeStart (examplePreferences\<lparr>timeRangeStart := ''25:00''\<rparr>))"
    by (simp add: timeRegex_test_def isDigit_def)
  have v1: "validateInputs twoFreeParticipants (examplePreferences\<lparr>timeRangeStart := ''25:00''\<rparr>)
      mondayRange = Some (SchedulingError ''Invalid time range format'' ''INVALID_TIME_FORMAT'')"
    using h by (simp add: validateInputs_def twoFreeParticipants_def examplePreferences_def
        mondayRange_def monday_def)
  have v2: "validateInputs [] examplePreferences mondayRange =
      Some (SchedulingError ''At least one participant is required'' ''NO_PARTICIPANTS'')"
    by (simp add: validateInputs_def)
  show ?thesis
    using h v1 v2
      scheduleOptimalMeeting_rejects[of twoFreeParticipants
        "examplePreferences\<lparr>timeRangeStart := ''25:00''\<rparr>" mondayRange exampleCollaborators]
      scheduleOptimalMeeting_rejects[of "[]" examplePreferences mondayRange exampleCollaborators]
    by auto
qed

section \<open>Parsing: recurrence rules\<close>

lemma map_of_setProperty:
  "map_of (c_properties (setProperty name v component)) =
     (map_of (c_properties component))(name \<mapsto> v)"
  by (simp add: setProperty_def update_conv')

lemma endDateOf_setRRULE:
  "endDateOf lib (c_properties (setProperty ''RRULE'' r vevent)) d =
     endDateOf lib (c_properties vevent) d"
  by (simp add: endDateOf_def map_of_setProperty)

lemma summaryOf_setRRULE:
  "summaryOf (c_properties (setProperty ''RRULE'' r vevent)) = summaryOf (c_properties vevent)"
  by (simp add: summaryOf_def map_of_setProperty)

lemma andThen_simps:
  "andThen (Inl err) rest = Inl err" "andThen (Inr x) rest = rest x"
  by (simp_all add: andThen_def)

lemma processEvent_setRRULE:
  "(case processEvent lib vevent of
      Inl err \<Rightarrow> processEvent lib (setProperty ''RRULE'' r vevent) = Inl err
    | Inr event \<Rightarrow>
        processEvent lib (setProperty ''RRULE'' r vevent) =
          Inr (event\<lparr>ie_recurrence := parseRRuleProperty lib (Some r) (ie_start event)\<rparr>))"
proof (cases "map_of (c_properties vevent) ''UID''")
  case None
  then show ?thesis by (simp add: processEvent_def map_of_setProperty)
next
  case u: (Some uid)
  show ?thesis
  proof (cases "map_of (c_properties vevent) ''DTSTART''")
    case None
    then show ?thesis using u by (simp add: processEvent_def map_of_setProperty)
  next
    case d: (Some dtstart')
    show ?thesis
    proof (cases "\<not> truthy (Some uid) \<or> \<not> truthy (Some dtstart')")
      case True
      then show ?thesis using u d by (simp add: processEvent_def map_of_setProperty)
    next
      case False
      show ?thesis
      proof (cases "parseDateTime lib dtstart'")
        case (Inl e)
        then show ?thesis using u d False
          by (simp add: processEvent_def map_of_setProperty andThen_simps)
      next
        case s: (Inr startDate)
        show ?thesis
        proof (cases "endDateOf lib (c_properties vevent) startDate")
          case (Inl e)
          then show ?thesis using u d False s
            by (simp add: processEvent_def map_of_setProperty andThen_simps endDateOf_setRRULE)
        next
          case e: (Inr endDate)
          show ?thesis
          proof (cases "extractEventTimezone dtstart'")
            case (Inl er)
            then show ?thesis using u d False s e
              by (simp add: processEvent_def map_of_setProperty andThen_simps endDateOf_setRRULE)
          next
            case t: (Inr tz)
            show ?thesis
            proof (cases "parseStatus (map_of (c_properties vevent) ''STATUS'')")
              case (Inl er)
              then show ?thesis using u d False s e t
                by (simp add: processEvent_def map_of_setProperty andThen_simps
                      endDateOf_setRRULE Let_def)
            next
              case (Inr status)
              then show ?thesis using u d False s e t
                by (simp add: processEvent_def map_of_setProperty andThen_simps
                      endDateOf_setRRULE summaryOf_setRRULE Let_def)
            qed
          qed
        qed
      qed
    qed
  qed
qed

lemma parseRRuleProperty_Some_iff:
  "parseRRuleProperty lib (Some (PStr rruleStr)) startDate = Some rule \<longleftrightarrow>
      str_includes rruleStr ''FREQ='' \<and> parseRecurrenceRule lib rruleStr startDate = Inr rule"
  by (cases rruleStr) (auto simp: parseRRuleProperty_def truthy_def split: sum.splits)

lemma mapFrequency_unrecognized:
  "f \<notin> set (map fst freqMap) \<Longrightarrow> f \<notin> set objectPrototypeNames \<Longrightarrow>
   mapFrequency (Some f) = LNum RRule_WEEKLY"
proof -
  assume a: "f \<notin> set (map fst freqMap)" and b: "f \<notin> set objectPrototypeNames"
  from a have "map_of freqMap f = None" by (simp add: map_of_eq_None_iff)
  then show ?thesis using b by (simp add: mapFrequency_def lookupOr_def)
qed

text \<open>
  The part of the recurrence handling that does what it is meant to do.  Setting the
  \<open>RRULE\<close> property of a component never changes whether \<open>processEvent\<close> accepts it: a
  rejected component stays rejected with the same error, and an accepted one yields the
  same event, with the rule that the \<open>RRULE\<close> block produces.  That block attaches a rule
  to a string exactly when the string contains \<open>FREQ=\<close> and \<open>parseRecurrenceRule\<close>
  returns; an array or a missing property gives no rule.
\<close>

lemma rrule_failure_is_local:
  "(case processEvent lib vevent of
      Inl err \<Rightarrow> processEvent lib (setProperty ''RRULE'' r vevent) = Inl err
    | Inr event \<Rightarrow>
        processEvent lib (setProperty ''RRULE'' r vevent) =
          Inr (event\<lparr>ie_recurrence := parseRRuleProperty lib (Some r) (ie_start event)\<rparr>)) \<and>
   (parseRRuleProperty lib (Some (PStr rruleStr)) startDate = Some rule \<longleftrightarrow>
      str_includes rruleStr ''FREQ='' \<and> parseRecurrenceRule lib rruleStr startDate = Inr rule) \<and>
   parseRRuleProperty lib (Some (PArr xs)) startDate = None \<and>
   parseRRuleProperty lib None startDate = None"
proof -
  have 3: "parseRRuleProperty lib (Some (PArr xs)) startDate = None"
    "parseRRuleProperty lib None startDate = None"
    by (simp_all add: parseRRuleProperty_def truthy_def)
  show ?thesis
    using processEvent_setRRULE[where lib=lib and vevent=vevent and r=r]
      parseRRuleProperty_Some_iff[where lib=lib and rruleStr=rruleStr and startDate=startDate
        and rule=rule] 3
    by blast
qed

text \<open>
  \<open>freqMap[freq] || RRule.WEEKLY\<close> also replaces the frequency \<open>YEARLY\<close>, whose number
  is 0, by \<open>WEEKLY\<close>; and for a name that \<open>Object.prototype\<close> defines, it returns the
  inherited function.
\<close>

lemma mapFrequency_examples:
  "mapFrequency (Some ''YEARLY'') = LNum RRule_WEEKLY"
  "mapFrequency (Some ''DAILY'') = LNum 3"
  "mapFrequency (Some ''constructor'') = LInherited ''constructor''"
  by code_simp+

text \<open>
  C5.  The claim at a calendar of one event whose rule is \<open>FREQ=BOGUS\<close>: the frequency
  token is none of the seven that the parser recognizes, and the test that the source
  announces as "Check if RRULE contains valid frequency" only looks for the text
  \<open>FREQ=\<close>.  The event that comes back carries a rule object all the same, a weekly
  one, where the claim has the rule dropped.
\<close>

theorem unrecognized_frequency_attached:
  "map_of freqMap ''BOGUS'' = None \<and>
   parseICalContent acceptingLib bogusFrequencyText None =
     Inr \<lparr>pc_participantId = ''participant-abc1234'', pc_name = ''Unknown Participant'',
        pc_timezone = PStr ''UTC'',
        pc_events =
          [\<lparr>ie_id = PStr ''e1'', ie_summary = PStr ''Untitled Event'',
             ie_start = Some 1705312800000, ie_end = Some 1705316400000,
             ie_timezone = ''UTC'',
             ie_recurrence =
               Some (RRuleObject
                  \<lparr>dtstart = Some 1705312800000, freq = Some (LNum 2),
                     interval = None, count = None, until = None,
                     byweekday = None, bymonthday = None, bymonth = None\<rparr>
                  []),
             ie_status = confirmed\<rparr>],
        pc_source = ical\<rparr>"
  by code_simp

section \<open>Parsing: failures of the whole call and of one event\<close>

subsection \<open>From the text to its lines\<close>

lemma splitLines_nonempty: "splitLines s \<noteq> []"
  by (induction s) (auto split: list.splits)

lemma splitLines_append:
  "\<forall>c\<in>set l. c \<noteq> CHR 0x0A \<and> c \<noteq> CHR 0x0D \<Longrightarrow>
   splitLines (l @ rest) = (l @ hd (splitLines rest)) # tl (splitLines rest)"
proof (induction l)
  case Nil then show ?case using splitLines_nonempty[of rest] by simp
next
  case (Cons c l)
  then show ?case by (simp add: startsWith_def)
qed

lemma splitLines_eol:
  "lineBreak eol \<Longrightarrow> splitLines (eol @ rest) = [] # splitLines rest"
  by (auto simp: lineBreak_def startsWith_def)

lemma splitLines_joinLines:
  "lineBreak eol \<Longrightarrow> ls \<noteq> [] \<Longrightarrow> \<forall>l\<in>set ls. \<forall>c\<in>set l. c \<noteq> CHR 0x0A \<and> c \<noteq> CHR 0x0D \<Longrightarrow>
   splitLines (joinLines eol ls) = ls"
proof (induction eol ls rule: joinLines.induct)
  case (1 eol) then show ?case by simp
next
  case (2 eol l)
  then show ?case using splitLines_append[of l "[]"] by simp
next
  case (3 eol l m ls)
  then have "splitLines (joinLines eol (m # ls)) = m # ls" by simp
  then show ?case using 3 splitLines_append[of l "eol @ joinLines eol (m # ls)"]
    by (simp add: splitLines_eol)
qed

lemma trim_id:
  "l \<noteq> [] \<Longrightarrow> \<not> isSpace (hd l) \<Longrightarrow> \<not> isSpace (last l) \<Longrightarrow> trim l = l"
proof -
  assume a: "l \<noteq> []" "\<not> isSpace (hd l)" "\<not> isSpace (last l)"
  then have 1: "dropWhile isSpace l = l" by (cases l) auto
  have "rev l \<noteq> []" "\<not> isSpace (hd (rev l))" using a by (simp_all add: hd_rev)
  then have 2: "dropWhile isSpace (rev l) = rev l" by (cases "rev l") auto
  show ?thesis by (simp add: trim_def 1 2)
qed

lemma takeContinuations_none:
  "list_all tidy rest \<Longrightarrow> takeContinuations line rest = (line, rest)"
  by (cases rest) (auto simp: tidy_def startsWith_def isSpace_def neq_Nil_conv)

lemma preprocessLoop_tidy:
  "list_all tidy ls \<Longrightarrow> preprocessLoop acc ls = acc @ ls"
proof (induction ls arbitrary: acc)
  case Nil show ?case by simp
next
  case (Cons l ls)
  then have t: "trim l = l" "l \<noteq> []" by (auto simp: tidy_def trim_id)
  have c: "takeContinuations l ls = (l, ls)" using Cons.prems by (simp add: takeContinuations_none)
  show ?case using Cons t c by simp
qed

subsection \<open>From the lines to the components\<close>

lemma splitChar_absent: "c \<notin> set s \<Longrightarrow> splitChar c s = [s]"
  by (induction s) auto

lemma str_includes_single: "str_includes s [c] \<longleftrightarrow> c \<in> set s"
  by (induction s) (auto simp: startsWith_def)

lemma takeWhile_line: "c \<notin> set n \<Longrightarrow> takeWhile (\<lambda>x. x \<noteq> c) (n @ c # v) = n"
  by (induction n) auto

lemma startsWith_marker:
  assumes "c \<notin> set n" and "c \<notin> set p"
  shows "startsWith (n @ c # v) (p @ [c]) \<longleftrightarrow> n = p"
proof
  assume "startsWith (n @ c # v) (p @ [c])"
  then obtain rest where "n @ c # v = (p @ [c]) @ rest"
    unfolding startsWith_def by (metis append_take_drop_id)
  then have "takeWhile (\<lambda>x. x \<noteq> c) (n @ c # v) = takeWhile (\<lambda>x. x \<noteq> c) (p @ c # rest)"
    by simp
  then show "n = p" using assms by (simp add: takeWhile_line)
next
  assume "n = p" then show "startsWith (n @ c # v) (p @ [c])" by (simp add: startsWith_def)
qed

lemma not_nameChar:
  "\<not> nameChar CHR '':''" "\<not> nameChar CHR '';''" "\<not> nameChar CHR 0x0A" "\<not> nameChar CHR 0x0D"
  "\<not> nameChar CHR ''c''" "\<not> nameChar CHR ''_''" "\<not> nameChar CHR ''h''" "\<not> nameChar CHR ''i''"
  "\<not> nameChar CHR ''p''" "\<not> nameChar CHR ''t''" "\<not> nameChar CHR ''v''"
  by (simp_all add: nameChar_def)

lemma nameChar_not_space: "nameChar c \<Longrightarrow> \<not> isSpace c"
  unfolding isSpace_def using not_nameChar
  by (auto simp: nameChar_def)

lemma nameChar_facts:
  assumes "n \<noteq> []" and "list_all nameChar n"
  shows "CHR '':'' \<notin> set n" "CHR '';'' \<notin> set n" "n \<notin> set objectPrototypeNames"
    "\<not> isSpace (hd n)" "\<forall>c\<in>set n. c \<noteq> CHR 0x0A \<and> c \<noteq> CHR 0x0D"
proof -
  have a: "\<forall>c\<in>set n. nameChar c" using assms(2) by (simp add: list_all_iff)
  show "CHR '':'' \<notin> set n" "CHR '';'' \<notin> set n" using a not_nameChar by blast+
  show "\<forall>c\<in>set n. c \<noteq> CHR 0x0A \<and> c \<noteq> CHR 0x0D" using a not_nameChar by blast
  have h: "nameChar (hd n)" using assms(1) a by simp
  then show "\<not> isSpace (hd n)" by (rule nameChar_not_space)
  have "\<forall>m\<in>set objectPrototypeNames. \<not> nameChar (hd m)"
    by (simp add: objectPrototypeNames_def not_nameChar)
  then show "n \<notin> set objectPrototypeNames" using h by blast
qed

lemma update_absent:
  "k \<notin> fst ` set al \<Longrightarrow> AList.update k v al = al @ [(k, v)]"
  by (induction al) auto

lemma addProperty_plain:
  assumes "plainProperty (n, v)" and "n \<notin> fst ` set (c_properties component)"
  shows "addProperty component (propertyLine (n, v)) =
     component\<lparr>c_properties := c_properties component @ [(n, PStr v)]\<rparr>"
proof -
  have ne: "n \<noteq> []" and nc: "list_all nameChar n" using assms(1) by (simp_all add: plainProperty_def)
  note f = nameChar_facts[OF ne nc]
  have i: "indexOf (n @ CHR '':'' # v) CHR '':'' = length n"
    using f(1) by (simp add: indexOf_def takeWhile_line)
  have m: "map_of (c_properties component) n = None"
    using assms(2) by (simp add: map_of_eq_None_iff)
  have u: "AList.update n (PStr v) (c_properties component) = c_properties component @ [(n, PStr v)]"
    using assms(2) by (rule update_absent)
  show ?thesis
    using f(2,3) m
    by (simp add: addProperty_def propertyLine_def i substring_def splitChar_absent
          str_includes_single Let_def u)
qed

lemma propertyLine_kind:
  assumes "plainProperty (n, v)"
  shows "\<not> startsWith (propertyLine (n, v)) ''BEGIN:''"
    "\<not> startsWith (propertyLine (n, v)) ''END:''"
    "str_includes (propertyLine (n, v)) '':''"
proof -
  have ne: "n \<noteq> []" and nc: "list_all nameChar n" and nb: "n \<noteq> ''BEGIN''" "n \<noteq> ''END''"
    using assms by (simp_all add: plainProperty_def)
  note f = nameChar_facts[OF ne nc]
  show "\<not> startsWith (propertyLine (n, v)) ''BEGIN:''"
    using startsWith_marker[of "CHR '':''" n "''BEGIN''" v] f(1) nb(1)
    by (simp add: propertyLine_def)
  show "\<not> startsWith (propertyLine (n, v)) ''END:''"
    using startsWith_marker[of "CHR '':''" n "''END''" v] f(1) nb(2)
    by (simp add: propertyLine_def)
  show "str_includes (propertyLine (n, v)) '':''"
    by (simp add: str_includes_single propertyLine_def)
qed

lemma c_type_addProperty: "c_type (addProperty component line) = c_type component"
  by (simp add: addProperty_def Let_def)

lemma properties_loop:
  assumes "list_all plainProperty props" and "distinct (map fst props)"
    and "fst ` set props \<inter> fst ` set (c_properties component) = {}"
  shows "parseComponentsLoop comps (Some component) (map propertyLine props @ rest) =
     parseComponentsLoop comps
       (Some (component\<lparr>c_properties :=
          c_properties component @ map (\<lambda>p. (fst p, PStr (snd p))) props\<rparr>)) rest"
  using assms
proof (induction props arbitrary: component)
  case Nil show ?case by simp
next
  case (Cons p props)
  obtain n v where p: "p = (n, v)" by (cases p)
  have pp: "plainProperty (n, v)" and fresh: "n \<notin> fst ` set (c_properties component)"
    using Cons.prems p by auto
  let ?c = "component\<lparr>c_properties := c_properties component @ [(n, PStr v)]\<rparr>"
  have step: "parseComponentsLoop comps (Some component) (propertyLine (n, v) # map propertyLine props @ rest) =
      parseComponentsLoop comps (Some ?c) (map propertyLine props @ rest)"
    using propertyLine_kind[OF pp] addProperty_plain[OF pp fresh] by simp
  have "fst ` set props \<inter> fst ` set (c_properties ?c) = {}"
    using Cons.prems p by auto
  from Cons.IH[OF _ _ this] Cons.prems
  have "parseComponentsLoop comps (Some ?c) (map propertyLine props @ rest) =
      parseComponentsLoop comps
        (Some (?c\<lparr>c_properties := c_properties ?c @ map (\<lambda>p. (fst p, PStr (snd p))) props\<rparr>)) rest"
    by simp
  then show ?case using step by (simp add: p)
qed

lemma header_loop:
  "list_all plainProperty header \<Longrightarrow>
   \<exists>component'. c_type component' = c_type component \<and>
     (\<forall>comps rest. parseComponentsLoop comps (Some component) (map propertyLine header @ rest) =
        parseComponentsLoop comps (Some component') rest)"
proof (induction header arbitrary: component)
  case Nil show ?case by auto
next
  case (Cons p header)
  obtain n v where p: "p = (n, v)" by (cases p)
  have pp: "plainProperty (n, v)" using Cons.prems p by simp
  obtain c' where c': "c_type c' = c_type (addProperty component (propertyLine (n, v)))"
    "\<forall>comps rest. parseComponentsLoop comps (Some (addProperty component (propertyLine (n, v))))
        (map propertyLine header @ rest) = parseComponentsLoop comps (Some c') rest"
    using Cons.IH[of "addProperty component (propertyLine (n, v))"] Cons.prems by auto
  show ?case
    using c' propertyLine_kind[OF pp] by (auto simp: p c_type_addProperty intro!: exI[of _ c'])
qed

lemma event_block:
  assumes "plainBlock props"
  shows "parseComponentsLoop comps cur (eventLines props @ rest) =
     parseComponentsLoop (comps @ [blockComponent props]) None rest"
proof -
  let ?c0 = "\<lparr>c_type = ''VEVENT'', c_properties = []\<rparr>"
  have 1: "parseComponentsLoop comps cur (eventLines props @ rest) =
      parseComponentsLoop comps (Some ?c0) (map propertyLine props @ ''END:VEVENT'' # rest)"
    by (simp add: eventLines_def startsWith_def)
  have 2: "parseComponentsLoop comps (Some ?c0) (map propertyLine props @ ''END:VEVENT'' # rest) =
      parseComponentsLoop comps (Some (blockComponent props)) (''END:VEVENT'' # rest)"
    using properties_loop[of props ?c0 comps "''END:VEVENT'' # rest"] assms
    by (simp add: plainBlock_def blockComponent_def)
  show ?thesis unfolding 1 2 by (simp add: startsWith_def)
qed

lemma blocks_loop:
  "list_all plainBlock blocks \<Longrightarrow>
   parseComponentsLoop comps cur (concat (map eventLines blocks) @ rest) =
     parseComponentsLoop (comps @ map blockComponent blocks)
       (if blocks = [] then cur else None) rest"
proof (induction blocks arbitrary: comps cur)
  case Nil show ?case by simp
next
  case (Cons b blocks)
  have "parseComponentsLoop comps cur (concat (map eventLines (b # blocks)) @ rest) =
      parseComponentsLoop (comps @ [blockComponent b]) None (concat (map eventLines blocks) @ rest)"
    using event_block[of b comps cur "concat (map eventLines blocks) @ rest"] Cons.prems by simp
  then show ?case using Cons.IH[of "comps @ [blockComponent b]" None] Cons.prems by simp
qed

lemma parseComponents_calendarLines:
  assumes "list_all plainProperty header" and "list_all plainBlock blocks"
  shows "\<exists>others. (\<forall>c\<in>set others. c_type c = ''VCALENDAR'') \<and>
     parseComponents (calendarLines header blocks) = others @ map blockComponent blocks"
proof -
  let ?v0 = "\<lparr>c_type = ''VCALENDAR'', c_properties = []\<rparr>"
  obtain v' where v': "c_type v' = ''VCALENDAR''"
    "\<forall>comps rest. parseComponentsLoop comps (Some ?v0) (map propertyLine header @ rest) =
        parseComponentsLoop comps (Some v') rest"
    using header_loop[OF assms(1), of ?v0] by auto
  have "parseComponents (calendarLines header blocks) =
      parseComponentsLoop [] (Some ?v0)
        (map propertyLine header @ concat (map eventLines blocks) @ [''END:VCALENDAR''])"
    by (simp add: parseComponents_def calendarLines_def startsWith_def)
  also have "\<dots> = parseComponentsLoop [] (Some v') (concat (map eventLines blocks) @ [''END:VCALENDAR''])"
    using v'(2) by simp
  also have "\<dots> = parseComponentsLoop (map blockComponent blocks)
      (if blocks = [] then Some v' else None) [''END:VCALENDAR'']"
    using blocks_loop[OF assms(2), of "[]" "Some v'" "[''END:VCALENDAR'']"] by simp
  also have "\<dots> = (if blocks = [] then [v'] else map blockComponent blocks)"
    by (simp add: startsWith_def)
  finally show ?thesis using v'(1) by (cases "blocks = []") auto
qed

subsection \<open>Date values\<close>

lemma durationMatch_iff: "durationMatch s \<noteq> None \<longleftrightarrow> str_includes s ''PT''"
  by (induction s) (auto simp: Let_def split: prod.splits)

lemma parseDateTimeStr_plain:
  assumes "CHR '':'' \<notin> set s"
  shows "parseDateTimeStr lib s =
     (if fifteenWithT s then
        (case splitChar CHR ''T'' (stripZ s) of
           datePart # timePart # _ \<Rightarrow>
             Inr (newDate (parseInt (substring datePart 0 4))
                    (map_option (\<lambda>m. m - 1) (parseInt (substring datePart 4 6)))
                    (parseInt (substring datePart 6 8)) (parseInt (substring timePart 0 2))
                    (parseInt (substring timePart 2 4)) (parseInt (substring timePart 4 6)))
         | _ \<Rightarrow> Inl (ThrownOther ''Cannot read properties of undefined''))
      else (case parseISO lib (stripZ s) of
              Some isoDate \<Rightarrow> Inr (Some isoDate)
            | None \<Rightarrow> Inl (ThrownParse (ICalParseError (''Invalid date format: '' @ s)))))"
  using assms
  by (auto simp: parseDateTimeStr_def str_includes_single stripZ_def fifteenWithT_def Let_def
        option.map_ident split: list.splits option.splits)

lemma parseDateTimeStr_rejected:
  "rejectedDate lib s \<Longrightarrow> \<exists>err. parseDateTimeStr lib s = Inl err"
  by (simp add: rejectedDate_def parseDateTimeStr_plain)

lemma icalDateTime_fifteen: "icalDateTime s \<Longrightarrow> fifteenWithT s"
proof -
  assume a: "icalDateTime s"
  then have "8 < length (stripZ s)" by (simp add: icalDateTime_def)
  then have "stripZ s ! 8 \<in> set (stripZ s)" by (rule nth_mem)
  then show ?thesis using a by (simp add: icalDateTime_def fifteenWithT_def)
qed

text \<open>
  A date of the form \<open>icalDateTime\<close> is a valid date: the six fields are numbers of at
  most four and two digits, and \<open>new Date\<close> carries months, days and times that are out
  of range over into an instant well within the range of a \<open>Date\<close>.
\<close>

lemma div_between:
  "lo \<le> (x::int) \<Longrightarrow> x \<le> hi \<Longrightarrow> 0 < c \<Longrightarrow> lo div c \<le> x div c \<and> x div c \<le> hi div c"
  by (simp add: zdiv_mono1)

lemma daysFromCivil_bound:
  assumes "0 \<le> y" "y \<le> 20000" "1 \<le> m" "m \<le> 12"
  shows "- 1000000 \<le> daysFromCivil y m 1 \<and> daysFromCivil y m 1 \<le> 8000000"
proof -
  define y' where "y' = (if m \<le> 2 then y - 1 else y)"
  define era where "era = y' div 400"
  define yoe where "yoe = y' - era * 400"
  define k where "k = (if m > 2 then m - 3 else m + 9)"
  define doy where "doy = (153 * k + 2) div 5"
  have y'b: "-1 \<le> y'" "y' \<le> 20000" using assms by (auto simp: y'_def)
  have erab: "-1 \<le> era" "era \<le> 50"
    using div_between[OF y'b, of 400] by (simp_all add: era_def)
  have "yoe = y' mod 400" by (simp add: yoe_def era_def minus_div_mult_eq_mod)
  then have yoeb: "0 \<le> yoe" "yoe \<le> 399" by simp_all
  have kb: "0 \<le> k" "k \<le> 11" using assms by (auto simp: k_def)
  then have "2 \<le> 153 * k + 2" "153 * k + 2 \<le> 1685" by simp_all
  from div_between[OF this, of 5] have doyb: "0 \<le> doy" "doy \<le> 337" by (simp_all add: doy_def)
  have q4: "0 \<le> yoe div 4" "yoe div 4 \<le> 99"
    using div_between[OF yoeb, of 4] by simp_all
  have q100: "0 \<le> yoe div 100" "yoe div 100 \<le> 3"
    using div_between[OF yoeb, of 100] by simp_all
  have "daysFromCivil y m 1 =
      era * 146097 + (yoe * 365 + yoe div 4 - yoe div 100 + (doy + 1 - 1)) - 719468"
    by (simp add: daysFromCivil_def Let_def y'_def era_def yoe_def k_def doy_def)
  then show ?thesis using erab yoeb doyb q4 q100 by simp
qed

lemma decimal_snoc: "decimal (ds @ [c]) = 10 * decimal ds + digitVal c"
  by (simp add: decimal_def)

lemma digitVal_bound: "isDigit c \<Longrightarrow> digitVal c \<le> 9"
  by (auto simp: isDigit_def digitVal_def)

lemma decimal_bound: "list_all isDigit ds \<Longrightarrow> decimal ds < 10 ^ length ds"
proof (induction ds rule: rev_induct)
  case Nil show ?case by (simp add: decimal_def)
next
  case (snoc c ds)
  then have "decimal ds < 10 ^ length ds" "digitVal c \<le> 9"
    by (simp_all add: digitVal_bound)
  then show ?case by (simp add: decimal_snoc)
qed

lemma isDigit_facts:
  "isDigit c \<Longrightarrow> \<not> isSpace c \<and> c \<noteq> CHR ''-'' \<and> c \<noteq> CHR ''+'' \<and> c \<noteq> CHR ''x''
     \<and> c \<noteq> CHR ''X'' \<and> c \<noteq> CHR ''T''"
  by (auto simp: isDigit_def isSpace_def)

lemma parseInt_digits:
  assumes "ds \<noteq> []" and "list_all isDigit ds"
  shows "parseInt ds = Some (int (decimal ds))"
proof -
  obtain c cs where d: "ds = c # cs" using assms(1) by (cases ds) auto
  have c: "isDigit c" and cs: "list_all isDigit cs" using assms(2) d by simp_all
  have t: "takeWhile isDigit ds = ds" using assms(2) by (simp add: list_all_iff)
  have x: "\<not> startsWith ds ''0x''" "\<not> startsWith ds ''0X''"
  proof -
    show "\<not> startsWith ds ''0x''"
    proof
      assume "startsWith ds ''0x''"
      then obtain r where "cs = CHR ''x'' # r"
        unfolding d startsWith_def by (cases cs) auto
      then show False using cs isDigit_facts by auto
    qed
    show "\<not> startsWith ds ''0X''"
    proof
      assume "startsWith ds ''0X''"
      then obtain r where "cs = CHR ''X'' # r"
        unfolding d startsWith_def by (cases cs) auto
      then show False using cs isDigit_facts by auto
    qed
  qed
  have p: "parseDigits ds = Some (decimal ds)"
    unfolding parseDigits_def Let_def t using x assms(1) by simp
  have "dropWhile isSpace ds = ds" using c isDigit_facts by (simp add: d)
  moreover have "\<not> startsWith ds ''-''" "\<not> startsWith ds ''+''"
    using c isDigit_facts by (auto simp: d startsWith_def)
  ultimately show ?thesis using p by (simp add: parseInt_def Let_def)
qed

lemma newDate_valid:
  assumes "0 \<le> y" "y \<le> 9999" "-1 \<le> mo" "mo \<le> 98" "0 \<le> d" "d \<le> 99"
    "0 \<le> h" "h \<le> 99" "0 \<le> mi" "mi \<le> 99" "0 \<le> s" "s \<le> 99"
  shows "\<exists>t. newDate (Some y) (Some mo) (Some d) (Some h) (Some mi) (Some s) = Some t"
proof -
  define yr where "yr = (if 0 \<le> y \<and> y \<le> 99 then 1900 + y else y)"
  have yrb: "100 \<le> yr" "yr \<le> 9999" using assms(1,2) by (auto simp: yr_def)
  have mq: "-1 \<le> mo div 12" "mo div 12 \<le> 8"
    using div_between[OF assms(3,4), of 12] by simp_all
  have mm: "1 \<le> mo mod 12 + 1" "mo mod 12 + 1 \<le> 12" by simp_all
  have "0 \<le> yr + mo div 12" "yr + mo div 12 \<le> 20000" using yrb mq by simp_all
  from daysFromCivil_bound[OF this mm]
  have db: "- 1000000 \<le> daysFromCivil (yr + mo div 12) (mo mod 12 + 1) 1"
    "daysFromCivil (yr + mo div 12) (mo mod 12 + 1) 1 \<le> 8000000" by simp_all
  define t where "t = (daysFromCivil (yr + mo div 12) (mo mod 12 + 1) 1 + (d - 1)) * MS_PER_DAY
      + h * MS_PER_HOUR + mi * MS_PER_MINUTE + s * 1000"
  have "\<bar>t\<bar> \<le> 8640000000000000"
    using db assms(5-12)
    by (simp add: t_def MS_PER_DAY_def MS_PER_HOUR_def MS_PER_MINUTE_def abs_le_iff)
  then show ?thesis
    by (simp add: newDate_def Let_def yr_def t_def)
qed

lemma splitChar_once:
  "c \<notin> set a \<Longrightarrow> c \<notin> set b \<Longrightarrow> splitChar c (a @ c # b) = [a, b]"
  by (induction a) (auto simp: splitChar_absent)

lemma parseInt_field:
  assumes "list_all isDigit ds" and "length ds = k" and "0 < k"
  shows "\<exists>v. parseInt ds = Some v \<and> 0 \<le> v \<and> v < 10 ^ k"
proof -
  have "ds \<noteq> []" using assms(2,3) by auto
  then have "parseInt ds = Some (int (decimal ds))" using assms(1) by (rule parseInt_digits)
  moreover have "int (decimal ds) < 10 ^ k"
    using decimal_bound[OF assms(1)] assms(2)
    by (metis of_nat_less_iff of_nat_numeral of_nat_power)
  ultimately show ?thesis by simp
qed

lemma icalDateTime_valid:
  assumes "icalDateTime s" and "CHR '':'' \<notin> set s"
  shows "\<exists>t. parseDateTimeStr lib s = Inr (Some t)"
proof -
  let ?c = "stripZ s"
  have len: "length ?c = 15" and d1: "list_all isDigit (take 8 ?c)" and t: "?c ! 8 = CHR ''T''"
    and d2: "list_all isDigit (drop 9 ?c)"
    using assms(1) by (simp_all add: icalDateTime_def)
  have c: "?c = take 8 ?c @ CHR ''T'' # drop 9 ?c"
    using id_take_nth_drop[of 8 ?c] len t by simp
  have nt: "CHR ''T'' \<notin> set (take 8 ?c)" "CHR ''T'' \<notin> set (drop 9 ?c)"
    using d1 d2 isDigit_facts unfolding list_all_iff by blast+
  have sp: "splitChar CHR ''T'' ?c = [take 8 ?c, drop 9 ?c]"
    using splitChar_once[OF nt] c by metis
  have l1: "length (take 8 ?c) = 8" and l2: "length (drop 9 ?c) = 6" using len by simp_all
  have dig: "\<And>a b. list_all isDigit (substring (take 8 ?c) a b)"
    "\<And>a b. list_all isDigit (substring (drop 9 ?c) a b)"
    using d1 d2 unfolding substring_def list_all_iff
    by (meson in_set_dropD in_set_takeD)+
  obtain y where y: "parseInt (substring (take 8 ?c) 0 4) = Some y" "0 \<le> y" "y < 10 ^ 4"
    using parseInt_field[OF dig(1), of 0 4 4] l1 len by (auto simp: substring_def)
  obtain mo where mo: "parseInt (substring (take 8 ?c) 4 6) = Some mo" "0 \<le> mo" "mo < 10 ^ 2"
    using parseInt_field[OF dig(1), of 4 6 2] l1 len by (auto simp: substring_def)
  obtain d where d: "parseInt (substring (take 8 ?c) 6 8) = Some d" "0 \<le> d" "d < 10 ^ 2"
    using parseInt_field[OF dig(1), of 6 8 2] l1 len by (auto simp: substring_def)
  obtain h where h: "parseInt (substring (drop 9 ?c) 0 2) = Some h" "0 \<le> h" "h < 10 ^ 2"
    using parseInt_field[OF dig(2), of 0 2 2] l2 len by (auto simp: substring_def)
  obtain mi where mi: "parseInt (substring (drop 9 ?c) 2 4) = Some mi" "0 \<le> mi" "mi < 10 ^ 2"
    using parseInt_field[OF dig(2), of 2 4 2] l2 len by (auto simp: substring_def)
  obtain se where se: "parseInt (substring (drop 9 ?c) 4 6) = Some se" "0 \<le> se" "se < 10 ^ 2"
    using parseInt_field[OF dig(2), of 4 6 2] l2 len by (auto simp: substring_def)
  obtain tv where "newDate (Some y) (Some (mo - 1)) (Some d) (Some h) (Some mi) (Some se) = Some tv"
    using newDate_valid[of y "mo - 1" d h mi se] y mo d h mi se by auto
  then show ?thesis
    using icalDateTime_fifteen[OF assms(1)] assms(2) sp y(1) mo(1) d(1) h(1) mi(1) se(1)
    by (simp add: parseDateTimeStr_plain)
qed

lemma parseDateTimeStr_accepted:
  assumes "acceptedDate lib s"
  shows "\<exists>t. parseDateTimeStr lib s = Inr (Some t)"
proof (cases "icalDateTime s")
  case True
  then show ?thesis using assms icalDateTime_valid by (simp add: acceptedDate_def)
next
  case False
  then show ?thesis using assms by (auto simp: acceptedDate_def parseDateTimeStr_plain)
qed

subsection \<open>One event\<close>

lemma map_of_blockComponent:
  "map_of (c_properties (blockComponent props)) name = map_option PStr (map_of props name)"
  by (induction props) (auto simp: blockComponent_def)

lemma truthy_block:
  "truthy (map_of (c_properties (blockComponent props)) name) \<longleftrightarrow> valueOf props name \<noteq> []"
  by (cases "map_of props name") (simp_all add: map_of_blockComponent truthy_def valueOf_def)

lemma property_block:
  "valueOf props name \<noteq> [] \<Longrightarrow>
   map_of (c_properties (blockComponent props)) name = Some (PStr (valueOf props name))"
  by (cases "map_of props name") (simp_all add: map_of_blockComponent valueOf_def)

lemma parseStatus_block:
  "\<exists>status. parseStatus (map_of (c_properties (blockComponent props)) ''STATUS'') = Inr status"
  by (cases "map_of props ''STATUS''")
     (simp_all add: map_of_blockComponent parseStatus_def truthy_def)

lemma processEvent_defective:
  assumes "defectiveEvent lib props"
  shows "\<exists>err. processEvent lib (blockComponent props) = Inl err"
proof -
  let ?p = "c_properties (blockComponent props)"
  show ?thesis
  proof (cases "valueOf props ''UID'' = [] \<or> valueOf props ''DTSTART'' = []")
    case True
    then have "\<not> truthy (map_of ?p ''UID'') \<or> \<not> truthy (map_of ?p ''DTSTART'')"
      by (simp add: truthy_block)
    then show ?thesis
      by (auto simp: processEvent_def Let_def split: option.splits)
  next
    case False
    then have u: "map_of ?p ''UID'' = Some (PStr (valueOf props ''UID''))"
      and d: "map_of ?p ''DTSTART'' = Some (PStr (valueOf props ''DTSTART''))"
      by (simp_all add: property_block)
    have t: "truthy (Some (PStr (valueOf props ''UID'')))"
      "truthy (Some (PStr (valueOf props ''DTSTART'')))"
      using False by (simp_all add: truthy_def)
    show ?thesis
    proof (cases "parseDateTimeStr lib (valueOf props ''DTSTART'')")
      case (Inl e)
      then show ?thesis using u d t
        by (simp add: processEvent_def Let_def parseDateTime_def andThen_simps)
    next
      case (Inr startDate)
      then have "\<not> rejectedDate lib (valueOf props ''DTSTART'')"
        using parseDateTimeStr_rejected by fastforce
      then have e: "valueOf props ''DTEND'' \<noteq> []" "rejectedDate lib (valueOf props ''DTEND'')"
        using assms False by (auto simp: defectiveEvent_def)
      obtain err where "parseDateTimeStr lib (valueOf props ''DTEND'') = Inl err"
        using parseDateTimeStr_rejected[OF e(2)] by blast
      then have "endDateOf lib ?p startDate = Inl err"
        using e(1) by (simp add: endDateOf_def property_block parseDateTime_def truthy_def)
      then show ?thesis using u d t Inr
        by (simp add: processEvent_def Let_def parseDateTime_def andThen_simps)
    qed
  qed
qed

lemma processEvent_sound:
  assumes "soundEvent lib props"
  shows "\<exists>event t. processEvent lib (blockComponent props) = Inr event \<and>
     ie_id event = PStr (valueOf props ''UID'') \<and> ie_start event = Some t"
proof -
  let ?p = "c_properties (blockComponent props)"
  have ne: "valueOf props ''UID'' \<noteq> []" "valueOf props ''DTSTART'' \<noteq> []"
    and ad: "acceptedDate lib (valueOf props ''DTSTART'')"
    using assms by (simp_all add: soundEvent_def)
  have u: "map_of ?p ''UID'' = Some (PStr (valueOf props ''UID''))"
    and d: "map_of ?p ''DTSTART'' = Some (PStr (valueOf props ''DTSTART''))"
    using ne by (simp_all add: property_block)
  have t: "truthy (Some (PStr (valueOf props ''UID'')))"
    "truthy (Some (PStr (valueOf props ''DTSTART'')))"
    using ne by (simp_all add: truthy_def)
  obtain t0 where s0: "parseDateTimeStr lib (valueOf props ''DTSTART'') = Inr (Some t0)"
    using parseDateTimeStr_accepted[OF ad] by blast
  define startDate where "startDate = Some t0"
  have s: "parseDateTimeStr lib (valueOf props ''DTSTART'') = Inr startDate"
    using s0 by (simp add: startDate_def)
  have "\<exists>endDate. endDateOf lib ?p startDate = Inr endDate"
  proof (cases "valueOf props ''DTEND'' \<noteq> []")
    case True
    then have "acceptedDate lib (valueOf props ''DTEND'')" using assms by (simp add: soundEvent_def)
    then obtain e where "parseDateTimeStr lib (valueOf props ''DTEND'') = Inr e"
      using parseDateTimeStr_accepted by blast
    then show ?thesis
      using True by (simp add: endDateOf_def property_block parseDateTime_def truthy_def)
  next
    case False
    show ?thesis
    proof (cases "valueOf props ''DURATION'' = []")
      case True
      then show ?thesis using False by (simp add: endDateOf_def truthy_block)
    next
      case F2: False
      then have "str_includes (valueOf props ''DURATION'') ''PT''"
        using assms False by (simp add: soundEvent_def)
      then obtain h mi sec where m: "durationMatch (valueOf props ''DURATION'') = Some (h, mi, sec)"
        using durationMatch_iff by (metis not_None_eq prod_cases3)
      have n: "\<not> truthy (map_of ?p ''DTEND'')" "truthy (map_of ?p ''DURATION'')"
        using False F2 by (simp_all add: truthy_block)
      have "map_of ?p ''DURATION'' = Some (PStr (valueOf props ''DURATION''))"
        using F2 by (rule property_block)
      then show ?thesis
        unfolding endDateOf_def using n m by (simp add: calculateEndFromDuration_def Let_def)
    qed
  qed
  then obtain endDate where e: "endDateOf lib ?p startDate = Inr endDate" by blast
  obtain status where st: "parseStatus (map_of ?p ''STATUS'') = Inr status"
    using parseStatus_block by blast
  show ?thesis
    using u d t s e st
    by (simp add: processEvent_def Let_def parseDateTime_def andThen_simps
          extractEventTimezone_def startDate_def)
qed

subsection \<open>The whole call\<close>

lemma extractEventsLoop_acc:
  "extractEventsLoop lib acc cs = acc @ processedEvents lib cs"
  by (induction cs arbitrary: acc)
     (auto simp: processedEvents_def List.map_filter_simps split: sum.splits)

lemma extractEvents_eq:
  "extractEvents lib components =
     processedEvents lib (filter (\<lambda>c. c_type c = ''VEVENT'') components)"
  by (simp add: extractEvents_def extractEventsLoop_acc)

lemma eventTimezoneLoop_ok:
  "\<forall>c\<in>set cs. singleDtstart c \<Longrightarrow> \<exists>r. eventTimezoneLoop cs = Inr r"
proof (induction cs)
  case Nil show ?case by simp
next
  case (Cons c cs)
  then obtain r where r: "eventTimezoneLoop cs = Inr r" by auto
  have s: "singleDtstart c" using Cons.prems by simp
  show ?case
  proof (cases "map_of (c_properties c) ''DTSTART''")
    case None
    then show ?thesis using r by (simp add: truthy_def)
  next
    case (Some v)
    then obtain str where v: "v = PStr str" using s by (cases v) (auto simp: singleDtstart_def)
    show ?thesis using Some v r
      by (cases "extractEventTimezoneStr str") (auto simp: extractEventTimezone_def)
  qed
qed

lemma extractTimezone_ok:
  "\<forall>c\<in>set (filter (\<lambda>c. c_type c = ''VEVENT'') components). singleDtstart c \<Longrightarrow>
   \<exists>r. extractTimezone components = Inr r"
  using eventTimezoneLoop_ok[of "filter (\<lambda>c. c_type c = ''VEVENT'') components"]
  by (auto simp: extractTimezone_def split: option.splits)

lemma propertyLine_tidy:
  assumes "plainProperty p"
  shows "tidy (propertyLine p)" "\<forall>c\<in>set (propertyLine p). c \<noteq> CHR 0x0A \<and> c \<noteq> CHR 0x0D"
proof -
  obtain n v where p: "p = (n, v)" by (cases p)
  have ne: "n \<noteq> []" and nc: "list_all nameChar n"
    and vc: "\<forall>c\<in>set v. c \<noteq> CHR 0x0A \<and> c \<noteq> CHR 0x0D"
    and vl: "v \<noteq> [] \<longrightarrow> \<not> isSpace (last v)"
    using assms p by (auto simp: plainProperty_def list_all_iff last_rev split: list.splits)
  note f = nameChar_facts[OF ne nc]
  have "\<not> isSpace (last (n @ CHR '':'' # v))"
    using vl by (cases "v = []") (simp_all add: isSpace_def)
  then show "tidy (propertyLine p)" using ne f(4) by (simp add: tidy_def propertyLine_def p)
  show "\<forall>c\<in>set (propertyLine p). c \<noteq> CHR 0x0A \<and> c \<noteq> CHR 0x0D"
    using f(5) vc by (auto simp: propertyLine_def p)
qed

lemma calendarLines_tidy:
  assumes "list_all plainProperty header" and "list_all plainBlock blocks"
  shows "list_all tidy (calendarLines header blocks)"
    and "\<forall>l\<in>set (calendarLines header blocks). \<forall>c\<in>set l. c \<noteq> CHR 0x0A \<and> c \<noteq> CHR 0x0D"
proof -
  have m: "tidy ''BEGIN:VCALENDAR''" "tidy ''END:VCALENDAR''" "tidy ''BEGIN:VEVENT''"
    "tidy ''END:VEVENT''"
    by (simp_all add: tidy_def isSpace_def)
  have ev: "\<forall>b\<in>set blocks. \<forall>l\<in>set (eventLines b).
      tidy l \<and> (\<forall>c\<in>set l. c \<noteq> CHR 0x0A \<and> c \<noteq> CHR 0x0D)"
  proof (intro ballI)
    fix b l assume b: "b \<in> set blocks" and l: "l \<in> set (eventLines b)"
    have pb: "\<forall>p\<in>set b. plainProperty p"
      using assms(2) b by (simp add: plainBlock_def list_all_iff)
    consider "l = ''BEGIN:VEVENT''" | "l = ''END:VEVENT''" | p where "p \<in> set b" "l = propertyLine p"
      using l by (auto simp: eventLines_def)
    then show "tidy l \<and> (\<forall>c\<in>set l. c \<noteq> CHR 0x0A \<and> c \<noteq> CHR 0x0D)"
    proof cases
      case 1 then show ?thesis using m by simp
    next
      case 2 then show ?thesis using m by simp
    next
      case 3 then show ?thesis using pb propertyLine_tidy by blast
    qed
  qed
  have hd: "\<forall>p\<in>set header. tidy (propertyLine p) \<and>
      (\<forall>c\<in>set (propertyLine p). c \<noteq> CHR 0x0A \<and> c \<noteq> CHR 0x0D)"
    using assms(1) propertyLine_tidy unfolding list_all_iff by blast
  show "list_all tidy (calendarLines header blocks)"
    using m ev hd by (auto simp: calendarLines_def list_all_iff)
  show "\<forall>l\<in>set (calendarLines header blocks). \<forall>c\<in>set l. c \<noteq> CHR 0x0A \<and> c \<noteq> CHR 0x0D"
    using ev hd by (auto simp: calendarLines_def)
qed

lemma preprocess_calendarText:
  assumes "lineBreak eol" and "list_all plainProperty header" and "list_all plainBlock blocks"
  shows "preprocessICalContent (calendarText eol header blocks) = calendarLines header blocks"
proof -
  have "calendarLines header blocks \<noteq> []" by (simp add: calendarLines_def)
  then have "splitLines (calendarText eol header blocks) = calendarLines header blocks"
    unfolding calendarText_def
    using splitLines_joinLines[OF assms(1)] calendarLines_tidy(2)[OF assms(2,3)] by blast
  then show ?thesis
    using preprocessLoop_tidy[OF calendarLines_tidy(1)[OF assms(2,3)], of "[]"]
    by (simp add: preprocessICalContent_def)
qed

lemma str_includes_prefix: "str_includes (p @ rest) p"
proof (cases p)
  case Nil then show ?thesis by (cases rest) (simp_all add: startsWith_def)
next
  case (Cons c cs) then show ?thesis by (simp add: startsWith_def)
qed

lemma calendarText_marker: "str_includes (calendarText eol header blocks) ''BEGIN:VCALENDAR''"
proof -
  obtain rest where "calendarText eol header blocks = ''BEGIN:VCALENDAR'' @ rest"
    by (cases "map propertyLine header @ concat (map eventLines blocks) @ [''END:VCALENDAR'']")
       (simp_all add: calendarText_def calendarLines_def)
  then show ?thesis using str_includes_prefix[of "''BEGIN:VCALENDAR''" rest] by simp
qed

lemma processedEvents_blocks:
  "\<forall>b\<in>set blocks. soundEvent lib b \<or> defectiveEvent lib b \<Longrightarrow>
   map ie_id (processedEvents lib (map blockComponent blocks)) =
     map (\<lambda>b. PStr (valueOf b ''UID'')) (filter (soundEvent lib) blocks) \<and>
   (\<forall>event\<in>set (processedEvents lib (map blockComponent blocks)). ie_start event \<noteq> None)"
proof (induction blocks)
  case Nil show ?case by (simp add: processedEvents_def List.map_filter_simps)
next
  case (Cons b blocks)
  then have ih: "map ie_id (processedEvents lib (map blockComponent blocks)) =
     map (\<lambda>b. PStr (valueOf b ''UID'')) (filter (soundEvent lib) blocks)"
    "\<forall>event\<in>set (processedEvents lib (map blockComponent blocks)). ie_start event \<noteq> None"
    by simp_all
  show ?case
  proof (cases "soundEvent lib b")
    case True
    then obtain event t where "processEvent lib (blockComponent b) = Inr event"
      "ie_id event = PStr (valueOf b ''UID'')" "ie_start event = Some t"
      using processEvent_sound by blast
    then show ?thesis using True ih by (simp add: processedEvents_def List.map_filter_simps)
  next
    case False
    then have "defectiveEvent lib b" using Cons.prems by simp
    then obtain err where "processEvent lib (blockComponent b) = Inl err"
      using processEvent_defective by blast
    then show ?thesis using False ih by (simp add: processedEvents_def List.map_filter_simps)
  qed
qed

lemma parse_calendarText:
  assumes "lineBreak eol" and "list_all plainProperty header" and "list_all plainBlock blocks"
  shows "\<exists>calendar. parseICalContent lib (calendarText eol header blocks) participantName =
       Inr calendar \<and>
     pc_events calendar = processedEvents lib (map blockComponent blocks)"
proof -
  obtain others where o: "\<forall>c\<in>set others. c_type c = ''VCALENDAR''"
    "parseComponents (calendarLines header blocks) = others @ map blockComponent blocks"
    using parseComponents_calendarLines[OF assms(2,3)] by blast
  let ?comps = "others @ map blockComponent blocks"
  have f: "filter (\<lambda>c. c_type c = ''VEVENT'') ?comps = map blockComponent blocks"
    using o(1) by (auto simp: filter_empty_conv blockComponent_def filter_id_conv)
  have "\<forall>c\<in>set (map blockComponent blocks). singleDtstart c"
    by (auto simp: singleDtstart_def map_of_blockComponent split: option.splits pval.splits)
  then have "\<forall>c\<in>set (filter (\<lambda>c. c_type c = ''VEVENT'') ?comps). singleDtstart c"
    unfolding f .
  then obtain tz where tz: "extractTimezone ?comps = Inr tz"
    using extractTimezone_ok[of ?comps] by blast
  show ?thesis
    using calendarText_marker[of eol header blocks] preprocess_calendarText[OF assms] o(2) tz f
    by (simp add: parseICalContent_def Let_def extractEvents_eq)
qed

section \<open>The scheduler on a day without busy periods\<close>

lemma daySlotLoop_closed:
  "daySlotLoop preferences sd bps dayEnd slots cur =
     slots @ map (\<lambda>k. newSlot bps preferences (cur + int k * 900000))
               [0..<nat ((dayEnd - cur - sd * 60000) div 900000 + 1)]"
proof (induction preferences sd bps dayEnd slots cur rule: daySlotLoop.induct)
  case (1 preferences sd bps dayEnd slots cur)
  show ?case
  proof (cases "addMinutes cur sd \<le> dayEnd")
    case False
    then have "dayEnd - cur - sd * 60000 < 0" by (simp add: addMinutes_def MS_PER_MINUTE_def)
    then have "(dayEnd - cur - sd * 60000) div 900000 < 0" by simp
    then have "nat ((dayEnd - cur - sd * 60000) div 900000 + 1) = 0" by simp
    then show ?thesis using False by (simp add: daySlotLoop.simps[of _ _ _ _ _ cur])
  next
    case True
    let ?q = "(dayEnd - cur - sd * 60000) div 900000"
    have q0: "0 \<le> ?q" using True by (simp add: addMinutes_def MS_PER_MINUTE_def)
    have "(dayEnd - addMinutes cur 15 - sd * 60000) = (dayEnd - cur - sd * 60000) - 1 * 900000"
      by (simp add: addMinutes_def MS_PER_MINUTE_def)
    then have "(dayEnd - addMinutes cur 15 - sd * 60000) div 900000 = ?q - 1"
      by (metis div_mult_self1 zero_neq_numeral uminus_add_conv_diff mult_minus_left add.commute
            ab_group_add_class.ab_diff_conv_add_uminus)
    then have n: "nat ((dayEnd - addMinutes cur 15 - sd * 60000) div 900000 + 1) = nat ?q" by simp
    have e: "[0..<nat (?q + 1)] = 0 # map Suc [0..<nat ?q]"
      using q0 by (simp add: nat_add_distrib upt_conv_Cons map_Suc_upt del: upt_Suc)
    have "daySlotLoop preferences sd bps dayEnd slots cur =
        daySlotLoop preferences sd bps dayEnd (slots @ [newSlot bps preferences cur])
          (addMinutes cur 15)"
      using True by (simp add: daySlotLoop.simps[of _ _ _ _ slots cur])
    also have "\<dots> = (slots @ [newSlot bps preferences cur]) @
        map (\<lambda>k. newSlot bps preferences (addMinutes cur 15 + int k * 900000)) [0..<nat ?q]"
      using "1.IH"[OF True] n by simp
    also have "\<dots> = slots @ map (\<lambda>k. newSlot bps preferences (cur + int k * 900000))
        [0..<nat (?q + 1)]"
      unfolding e by (simp add: addMinutes_def MS_PER_MINUTE_def comp_def algebra_simps)
    finally show ?thesis .
  qed
qed

lemma startOfDay_idem: "startOfDay (startOfDay d) = startOfDay d"
  by (simp add: startOfDay_def MS_PER_DAY_def)

lemma isWeekend_startOfDay: "isWeekend (startOfDay d) = isWeekend d"
proof -
  have "(d - d mod 86400000) div 86400000 = d div 86400000"
    by (metis minus_mod_eq_mult_div nonzero_mult_div_cancel_left zero_neq_numeral)
  then show ?thesis by (simp add: isWeekend_def getDay_def startOfDay_def MS_PER_DAY_def)
qed

lemma nine_to_five_slots:
  "timeRangeStart preferences = ''09:00'' \<Longrightarrow> timeRangeEnd preferences = ''17:00'' \<Longrightarrow>
   generateDaySlots date preferences 60 bps =
     map (\<lambda>k. newSlot bps preferences (quarterFromNine date k)) [0..<29]"
  by (simp add: generateDaySlots_def parseClock_0900 parseClock_1700 setHours_def
        daySlotLoop_closed quarterFromNine_def MS_PER_HOUR_def MS_PER_MINUTE_def algebra_simps)

lemma one_day_candidates:
  assumes "range_start searchRange < range_end searchRange"
    and "startOfDay (range_start searchRange) = startOfDay (range_end searchRange)"
    and "\<not> isWeekend (range_start searchRange)"
    and "excludedDates preferences = []"
    and "duration preferences = 60" and "bufferTime preferences = 0"
    and "timeRangeStart preferences = ''09:00''" and "timeRangeEnd preferences = ''17:00''"
  shows "findCandidateTimeSlots searchRange preferences bps =
     map (\<lambda>k. newSlot bps preferences (quarterFromNine (range_start searchRange) k)) [0..<29]"
proof -
  let ?d = "startOfDay (range_start searchRange)"
  let ?e = "endOfDay (range_end searchRange)"
  have e: "?e = ?d + 86400000 - 1"
    using assms(2) by (simp add: endOfDay_def MS_PER_DAY_def)
  have w: "\<not> isWeekend ?d" using assms(3) by (simp add: isWeekend_startOfDay)
  have q: "\<And>k. quarterFromNine ?d k = quarterFromNine (range_start searchRange) k"
    by (simp add: quarterFromNine_def startOfDay_idem)
  have stop: "dayLoop preferences 60 bps ?e
      (map (\<lambda>k. newSlot bps preferences (quarterFromNine ?d k)) [0..<29])
      (addMinutes ?d (24 * 60)) =
      map (\<lambda>k. newSlot bps preferences (quarterFromNine ?d k)) [0..<29]"
    by (subst dayLoop.simps) (simp add: e addMinutes_def MS_PER_MINUTE_def)
  have "dayLoop preferences 60 bps ?e [] ?d =
      dayLoop preferences 60 bps ?e
        ([] @ generateDaySlots ?d preferences 60 bps) (addMinutes ?d (24 * 60))"
    by (subst dayLoop.simps) (simp add: e w assms(4))
  then show ?thesis
    using stop by (simp add: findCandidateTimeSlots_def assms(5-8) nine_to_five_slots q)
qed

lemma findSlotConflicts_free:
  "\<forall>entry\<in>set bps. snd entry = [] \<Longrightarrow> findSlotConflicts slot bps = []"
  by (auto simp: findSlotConflicts_def filter_empty_conv)

lemma update_all_empty:
  "\<forall>entry\<in>set al. snd entry = [] \<Longrightarrow> \<forall>entry\<in>set (AList.update k [] al). snd entry = []"
  by (induction al) auto

lemma getAllBusyPeriodsLoop_free:
  "\<forall>p\<in>set ps. getBusyPeriods c (p_events p) searchRange = Inr [] \<Longrightarrow>
   \<forall>entry\<in>set acc. snd entry = [] \<Longrightarrow>
   \<exists>bps. getAllBusyPeriodsLoop c searchRange acc ps = Inr bps \<and> (\<forall>entry\<in>set bps. snd entry = [])"
proof (induction ps arbitrary: acc)
  case Nil then show ?case by simp
next
  case (Cons p ps)
  have "\<forall>entry\<in>set (AList.update (p_participantId p) [] acc). snd entry = []"
    using Cons.prems(2) by (rule update_all_empty)
  then show ?case using Cons by simp
qed

lemma newSlot_fields:
  "slot_start (newSlot bps preferences t) = t"
  "slot_end (newSlot bps preferences t) = addMinutes t (duration preferences)"
  "conflicts (newSlot bps preferences t) =
     findSlotConflicts (Some t, Some (addMinutes t (duration preferences))) bps"
  by (simp_all add: newSlot_def Let_def)

lemma scoreSlot_fields:
  "slot_start (scoreSlot c preferences participants slot) = slot_start slot"
  "slot_end (scoreSlot c preferences participants slot) = slot_end slot"
  "conflicts (scoreSlot c preferences participants slot) = conflicts slot"
  by (simp_all add: scoreSlot_def Let_def)

lemma timezoneBonus_nonneg:
  "participants \<noteq> [] \<Longrightarrow>
   \<exists>z. calculateTimezoneBonus slot preferences participants = Num z \<and> 0 \<le> z"
  by (simp add: calculateTimezoneBonus_def js_of_nat_def Let_def)

lemma nine_to_five_bonus:
  "timeRangeStart preferences = ''09:00'' \<Longrightarrow> timeRangeEnd preferences = ''17:00'' \<Longrightarrow>
   \<exists>b. calculateTimePreferenceBonus slot preferences = Num b \<and> 0 \<le> b"
  by (simp add: calculateTimePreferenceBonus_def parseClock_0900 parseClock_1700 js_of_opt_def
        js_of_nat_def js_of_int_def js_sub_def Let_def)

lemma free_slot_score:
  assumes "conflicts slot = []" and "participants \<noteq> []"
    and "timeRangeStart preferences = ''09:00''" and "timeRangeEnd preferences = ''17:00''"
  shows "score (scoreSlot c preferences participants slot) = Num 100"
proof -
  obtain b where b: "calculateTimePreferenceBonus slot preferences = Num b" "0 \<le> b"
    using nine_to_five_bonus[OF assms(3,4)] by blast
  obtain z where z: "calculateTimezoneBonus slot preferences participants = Num z" "0 \<le> z"
    using timezoneBonus_nonneg[OF assms(2)] by blast
  show ?thesis
    using assms(1,2) b z by (simp add: score_scoreSlot finalScore_def js_of_nat_def js_sub_def)
qed

lemma insertSorted_equal:
  "\<forall>y\<in>set ys. \<not> js_lt (Num 0) (cmp x y) \<Longrightarrow> insertSorted cmp x ys = x # ys"
  by (cases ys) auto

lemma sortWith_all_equal:
  "\<forall>x\<in>set xs. \<forall>y\<in>set xs. \<not> js_lt (Num 0) (cmp x y) \<Longrightarrow> sortWith cmp xs = xs"
proof (induction xs)
  case Nil show ?case by simp
next
  case (Cons x xs)
  then have "sortWith cmp xs = xs" by simp
  then show ?case using Cons.prems by (simp add: insertSorted_equal)
qed

lemma sortWith_same_score:
  "\<forall>slot\<in>set slots. score slot = Num v \<Longrightarrow> sortWith byScoreDescending slots = slots"
  by (rule sortWith_all_equal) (simp add: byScoreDescending_def js_sub_def)

lemma conflict_free_day:
  assumes parts: "participants \<noteq> []" "\<forall>p\<in>set participants. p_events p = []"
    and busy: "getBusyPeriods c [] searchRange = Inr []"
    and prefs: "duration preferences = 60" "bufferTime preferences = 0"
      "timeRangeStart preferences = ''09:00''" "timeRangeEnd preferences = ''17:00''"
      "excludedDates preferences = []"
    and range: "range_start searchRange < range_end searchRange"
      "startOfDay (range_start searchRange) = startOfDay (range_end searchRange)"
      "\<not> isWeekend (range_start searchRange)"
  shows "\<exists>result. scheduleOptimalMeeting c participants preferences searchRange = Inr result \<and>
     map slot_start (availableSlots result) =
       map (quarterFromNine (range_start searchRange)) [0..<29] \<and>
     (\<forall>slot\<in>set (availableSlots result).
        conflicts slot = [] \<and> slot_end slot = slot_start slot + 60 * MS_PER_MINUTE \<and>
        score slot = Num 100) \<and>
     recommendations result = take 5 (availableSlots result)"
proof -
  have v: "validateInputs participants preferences searchRange = None"
    using parts(1) prefs range(1)
    by (simp add: validateInputs_def timeRegex_test_def isDigit_def)
  have "\<forall>p\<in>set participants. getBusyPeriods c (p_events p) searchRange = Inr []"
    using parts(2) busy by simp
  then obtain bps where b: "getAllBusyPeriods c participants searchRange = Inr bps"
    and free: "\<forall>entry\<in>set bps. snd entry = []"
    using getAllBusyPeriodsLoop_free[of participants c searchRange "[]"]
    by (auto simp: getAllBusyPeriods_def)
  let ?cand = "map (\<lambda>k. newSlot bps preferences (quarterFromNine (range_start searchRange) k))
                 [0..<29]"
  let ?scored = "map (scoreSlot c preferences participants) ?cand"
  have cand: "findCandidateTimeSlots searchRange preferences bps = ?cand"
    using one_day_candidates[OF range prefs(5) prefs(1,2,3,4)] .
  have props: "\<forall>slot\<in>set ?scored.
        conflicts slot = [] \<and> slot_end slot = slot_start slot + 60 * MS_PER_MINUTE \<and>
        score slot = Num 100"
  proof
    fix slot assume "slot \<in> set ?scored"
    then obtain k where k: "slot = scoreSlot c preferences participants
        (newSlot bps preferences (quarterFromNine (range_start searchRange) k))"
      by auto
    have c0: "conflicts (newSlot bps preferences (quarterFromNine (range_start searchRange) k)) = []"
      using free by (simp add: newSlot_fields findSlotConflicts_free)
    show "conflicts slot = [] \<and> slot_end slot = slot_start slot + 60 * MS_PER_MINUTE \<and>
        score slot = Num 100"
      unfolding k
      using c0 free_slot_score[OF c0 parts(1) prefs(3,4)]
      by (simp add: scoreSlot_fields newSlot_fields addMinutes_def prefs(1))
  qed
  then have srt: "sortWith byScoreDescending ?scored = ?scored"
    using sortWith_same_score[of ?scored 100] by blast
  have starts: "map slot_start ?scored = map (quarterFromNine (range_start searchRange)) [0..<29]"
    by (simp add: scoreSlot_fields newSlot_fields comp_def)
  have "scheduleOptimalMeeting c participants preferences searchRange =
      Inr \<lparr>availableSlots = ?scored,
           conflictAnalysis = analyzeConflicts ?scored participants,
           recommendations = take 5 ?scored\<rparr>"
    using v b cand srt
    by (simp add: scheduleOptimalMeeting_def scoreTimeSlots_def getTopRecommendations_def Let_def)
  then show ?thesis using props starts by simp
qed

lemma monday_facts:
  "range_start mondayRange < range_end mondayRange"
  "startOfDay (range_start mondayRange) = startOfDay (range_end mondayRange)"
  "\<not> isWeekend (range_start mondayRange)"
  "startOfDay monday = monday"
  by (simp_all add: mondayRange_def monday_def startOfDay_def MS_PER_DAY_def isWeekend_def
        getDay_def)

lemma example_facts:
  "twoFreeParticipants \<noteq> []" "\<forall>p\<in>set twoFreeParticipants. p_events p = []"
  "getBusyPeriods exampleCollaborators [] mondayRange = Inr []"
  "duration examplePreferences = 60" "bufferTime examplePreferences = 0"
  "timeRangeStart examplePreferences = ''09:00''" "timeRangeEnd examplePreferences = ''17:00''"
  "excludedDates examplePreferences = []"
  by (simp_all add: twoFreeParticipants_def mkParticipant_def exampleCollaborators_def
        examplePreferences_def generateBusyPeriods_def mkCalendar_def sortByStart_def)

text \<open>
  With a calendar processor that reports no busy period for the two participants (the
  stand-in has the method that the shipped class lacks), the scenario yields the 29 slots
  from 09:00 to 16:00, and the clamp of the score at 100 gives every one of them the score
  100: the slot at 13:00 does not score higher than the slot at 09:00.
\<close>

lemma scenario_with_stand_in:
  "\<exists>result. scheduleOptimalMeeting exampleCollaborators twoFreeParticipants examplePreferences
       mondayRange = Inr result \<and>
     map slot_start (availableSlots result) = map (quarterFromNine monday) [0..<29] \<and>
     (\<forall>slot\<in>set (availableSlots result). conflicts slot = [] \<and> score slot = Num 100)"
  using conflict_free_day[OF example_facts monday_facts(1-3)]
  by (auto simp: mondayRange_def)

text \<open>
  Without the method, every request that passes validation is rejected: the first round of
  the loop of \<open>getAllBusyPeriods\<close> throws, and the \<open>catch\<close> clause wraps the \<open>TypeError\<close>.
\<close>

lemma missing_method_rejects:
  assumes "validateInputs participants preferences searchRange = None"
  shows "scheduleOptimalMeeting (asShipped c) participants preferences searchRange =
     Inl (SchedulingError
           ''Failed to schedule meeting: this.calendarProcessor.getBusyPeriods is not a function''
           ''SCHEDULING_FAILED'')"
proof -
  have "participants \<noteq> []" using assms by (auto simp: validateInputs_def split: if_splits)
  then obtain p ps where "participants = p # ps" by (cases participants) auto
  then show ?thesis
    using assms
    by (simp add: scheduleOptimalMeeting_def getAllBusyPeriods_def wrapThrown_def asShipped_def
          missingGetBusyPeriods_def)
qed

lemma shipped_never_returns:
  "\<exists>err. scheduleOptimalMeeting (asShipped c) participants preferences searchRange = Inl err"
proof (cases "validateInputs participants preferences searchRange")
  case None
  then show ?thesis using missing_method_rejects by blast
next
  case (Some err)
  then show ?thesis by (simp add: scheduleOptimalMeeting_def)
qed

text \<open>
  C1.  The scenario of the claim, on the scheduler as shipped: two participants without
  events, business hours 09:00 to 17:00, a duration of 60 minutes, no buffer, no excluded
  date, and Monday 15 January 2024 as the search range.  Whatever the formatting functions
  are, the call does not return a result with the slots from 09:00 to 16:00: it rejects
  with the code \<open>SCHEDULING_FAILED\<close>, because the method \<open>getBusyPeriods\<close> that
  \<open>getAllBusyPeriods\<close> calls does not exist.
\<close>

theorem scenario_two_free_participants_rejected:
  "scheduleOptimalMeeting (asShipped c) twoFreeParticipants examplePreferences mondayRange =
     Inl (SchedulingError
           ''Failed to schedule meeting: this.calendarProcessor.getBusyPeriods is not a function''
           ''SCHEDULING_FAILED'')"
proof -
  have "validateInputs twoFreeParticipants examplePreferences mondayRange = None"
    by (simp add: validateInputs_def twoFreeParticipants_def examplePreferences_def
          mondayRange_def timeRegex_test_def isDigit_def)
  then show ?thesis by (rule missing_method_rejects)
qed

section \<open>The order of the available slots\<close>























end
